(* ===== verification/Prelude.thy ===== *)
theory Prelude
  imports Main
begin

text \<open>
  Shared vocabulary of the development. A JavaScript \<open>throw\<close> is a value: a computation that may
  throw has type \<open>'a res\<close>, \<open>Inl\<close> for the exception and \<open>Inr\<close> for the result. A handler takes
  the tables of its component and answers with the tables after it; what is built before it is sent, a
  bulk insert for instance, is a list of statements (\<open>Db\<close>) that is then run on the tables. \<open>mapM_res\<close> is \<open>xs.map(f)\<close> (and \<open>Promise.all(xs.map(f))\<close>) with a callback that
  may throw, \<open>foldM_res\<close> is a \<open>for .. of\<close> loop that threads its variables and may throw.
  Strings are character lists, one character per byte; every string the modelled code compares,
  cuts or concatenates (addresses, ids, denominations, type urls) is ASCII.
\<close>

named_theorems res_simps \<open>unfolding the throwing computations\<close>
named_theorems handler_defs \<open>definitions of the handlers of a component\<close>

datatype js_error = JsError string

type_synonym 'a res = "js_error + 'a"

definition throw :: "string \<Rightarrow> 'a res" where
  "throw msg = Inl (JsError msg)"

definition bind_res :: "'a res \<Rightarrow> ('a \<Rightarrow> 'b res) \<Rightarrow> 'b res" where
  "bind_res m f = (case m of Inl e \<Rightarrow> Inl e | Inr a \<Rightarrow> f a)"

definition map_res :: "('a \<Rightarrow> 'b) \<Rightarrow> 'a res \<Rightarrow> 'b res" where
  "map_res f m = bind_res m (\<lambda>a. Inr (f a))"

text \<open>\<open>if (!x) throw new Error(msg)\<close> for an optional \<open>x\<close>.\<close>

definition require :: "string \<Rightarrow> 'a option \<Rightarrow> 'a res" where
  "require msg x = (case x of None \<Rightarrow> throw msg | Some a \<Rightarrow> Inr a)"

text \<open>\<open>if (!s) throw new Error(msg)\<close> for a string: the empty string is falsy.\<close>

definition require_str :: "string \<Rightarrow> string \<Rightarrow> string res" where
  "require_str msg s = (if s = [] then throw msg else Inr s)"

fun mapM_res :: "('a \<Rightarrow> 'b res) \<Rightarrow> 'a list \<Rightarrow> 'b list res" where
  "mapM_res f [] = Inr []"
| "mapM_res f (x # xs) =
     bind_res (f x) (\<lambda>y. bind_res (mapM_res f xs) (\<lambda>ys. Inr (y # ys)))"

fun foldM_res :: "('s \<Rightarrow> 'a \<Rightarrow> 's res) \<Rightarrow> 's \<Rightarrow> 'a list \<Rightarrow> 's res" where
  "foldM_res f s [] = Inr s"
| "foldM_res f s (x # xs) = bind_res (f s x) (\<lambda>s'. foldM_res f s' xs)"

lemma bind_Inr [simp, res_simps]: "bind_res (Inr a) f = f a"
  by (simp add: bind_res_def)

lemma bind_Inl [simp, res_simps]: "bind_res (Inl e) f = Inl e"
  by (simp add: bind_res_def)

lemma bind_throw [simp, res_simps]: "bind_res (throw msg) f = throw msg"
  by (simp add: throw_def)

lemma bind_Inr_right [simp]: "bind_res m Inr = m"
  by (cases m) auto

lemma bind_eq_Inr: "bind_res m f = Inr b \<longleftrightarrow> (\<exists>a. m = Inr a \<and> f a = Inr b)"
  by (cases m) auto

lemma bind_assoc: "bind_res (bind_res m f) g = bind_res m (\<lambda>a. bind_res (f a) g)"
  by (cases m) auto

lemma throw_neq_Inr [simp]: "throw msg \<noteq> Inr a" "Inr a \<noteq> throw msg"
  by (auto simp: throw_def)

lemma throw_inject [simp]: "throw a = throw b \<longleftrightarrow> a = b"
  by (simp add: throw_def)

lemma map_res_Inr [simp, res_simps]: "map_res f (Inr a) = Inr (f a)"
  by (simp add: map_res_def)

lemma map_res_Inl [simp, res_simps]: "map_res f (Inl e) = Inl e"
  by (simp add: map_res_def)

lemma map_res_throw [simp, res_simps]: "map_res f (throw msg) = throw msg"
  by (simp add: throw_def)

lemma map_res_eq_Inr: "map_res f m = Inr b \<longleftrightarrow> (\<exists>a. m = Inr a \<and> b = f a)"
  by (cases m) auto

lemma require_Some [simp, res_simps]: "require msg (Some a) = Inr a"
  by (simp add: require_def)

lemma require_None [simp, res_simps]: "require msg None = throw msg"
  by (simp add: require_def)

lemma require_eq_Inr: "require msg x = Inr a \<longleftrightarrow> x = Some a"
  by (cases x) auto

lemma require_str_Nil [simp, res_simps]: "require_str msg [] = throw msg"
  by (simp add: require_str_def)

lemma require_str_Cons [simp, res_simps]: "require_str msg (c # s) = Inr (c # s)"
  by (simp add: require_str_def)

lemma require_str_eq_Inr: "require_str msg s = Inr t \<longleftrightarrow> s = t \<and> t \<noteq> []"
  by (auto simp: require_str_def)

lemmas res_eq_Inr = bind_eq_Inr map_res_eq_Inr require_eq_Inr require_str_eq_Inr

lemma mapM_res_append:
  "mapM_res f (xs @ ys) =
     bind_res (mapM_res f xs) (\<lambda>as. bind_res (mapM_res f ys) (\<lambda>bs. Inr (as @ bs)))"
  by (induction xs) (simp_all add: bind_assoc)

lemma mapM_res_Inr_iff:
  "mapM_res f xs = Inr ys \<longleftrightarrow> list_all2 (\<lambda>x y. f x = Inr y) xs ys"
  by (induction xs arbitrary: ys) (auto simp: bind_eq_Inr list_all2_Cons1)

lemma mapM_res_mem: "mapM_res f xs = Inr ys \<Longrightarrow> y \<in> set ys \<Longrightarrow> \<exists>x \<in> set xs. f x = Inr y"
  by (induction xs arbitrary: ys) (auto simp: bind_eq_Inr)

lemma mapM_res_length: "mapM_res f xs = Inr ys \<Longrightarrow> length ys = length xs"
  by (simp add: mapM_res_Inr_iff list_all2_lengthD)

lemma mapM_res_pure [simp]: "mapM_res (\<lambda>x. Inr (g x)) xs = Inr (map g xs)"
  by (induction xs) auto

lemma mapM_res_throws: "x \<in> set xs \<Longrightarrow> f x = Inl e \<Longrightarrow> \<exists>e'. mapM_res f xs = Inl e'"
  by (induction xs) (auto split: sum.splits simp: bind_res_def)

lemma foldM_res_append:
  "foldM_res f s (xs @ ys) = bind_res (foldM_res f s xs) (\<lambda>s'. foldM_res f s' ys)"
  by (induction xs arbitrary: s) (simp_all add: bind_assoc)

lemma foldM_res_pure [simp]: "foldM_res (\<lambda>s x. Inr (g s x)) s xs = Inr (foldl g s xs)"
  by (induction xs arbitrary: s) auto

lemma foldM_res_invariant:
  assumes "foldM_res f s xs = Inr t" and "P s"
    and "\<And>s x s'. x \<in> set xs \<Longrightarrow> P s \<Longrightarrow> f s x = Inr s' \<Longrightarrow> P s'"
  shows "P t"
  using assms
proof (induction xs arbitrary: s)
  case Nil
  then show ?case by simp
next
  case (Cons x xs)
  then obtain s' where s': "f s x = Inr s'" "foldM_res f s' xs = Inr t"
    by (auto simp: bind_eq_Inr)
  have "P s'" using Cons.prems(2,3) s'(1) by auto
  then show ?case using Cons.IH [OF s'(2)] Cons.prems(3) by auto
qed

lemma find_SomeD: "find P xs = Some x \<Longrightarrow> x \<in> set xs \<and> P x"
  by (induction xs) (auto split: if_splits)

lemma set_map_filter: "set (List.map_filter f xs) = {y. \<exists>x \<in> set xs. f x = Some y}"
  by (induction xs) (auto simp: List.map_filter_simps split: option.splits)

text \<open>
  \<open>Array.from(new Set(xs))\<close>: the first occurrence of each element, in insertion order.
\<close>

definition js_set :: "'a list \<Rightarrow> 'a list" where
  "js_set xs = rev (remdups (rev xs))"

lemma set_js_set [simp]: "set (js_set xs) = set xs"
  by (simp add: js_set_def)

lemma distinct_js_set [simp]: "distinct (js_set xs)"
  by (simp add: js_set_def)

text \<open>\<open>set.add(x)\<close> on a set kept in insertion order.\<close>

definition add_unique :: "'a \<Rightarrow> 'a list \<Rightarrow> 'a list" where
  "add_unique x xs = (if x \<in> set xs then xs else xs @ [x])"

lemma set_add_unique [simp]: "set (add_unique x xs) = insert x (set xs)"
  by (auto simp: add_unique_def)

lemma distinct_add_unique [simp]: "distinct (add_unique x xs) = distinct xs"
  by (auto simp: add_unique_def)

text \<open>
  A JavaScript object or \<open>Map\<close> used as a dictionary, in insertion order: writing a present key
  keeps its place, a new key goes to the end, \<open>delete\<close> removes the entry.
\<close>

fun dict_set :: "'k \<Rightarrow> 'v \<Rightarrow> ('k \<times> 'v) list \<Rightarrow> ('k \<times> 'v) list" where
  "dict_set k v [] = [(k, v)]"
| "dict_set k v ((k', v') # d) = (if k = k' then (k, v) # d else (k', v') # dict_set k v d)"

definition dict_del :: "'k \<Rightarrow> ('k \<times> 'v) list \<Rightarrow> ('k \<times> 'v) list" where
  "dict_del k d = filter (\<lambda>(k', _). k' \<noteq> k) d"

definition dict_ok :: "('k \<times> 'v) list \<Rightarrow> bool" where
  "dict_ok d = distinct (map fst d)"

lemma map_of_dict_set [simp]: "map_of (dict_set k v d) = (map_of d)(k \<mapsto> v)"
  by (induction k v d rule: dict_set.induct) auto

lemma fst_imageI [intro]: "(a, b) \<in> S \<Longrightarrow> a \<in> fst ` S"
  by force

lemma set_dict_set: "set (dict_set k v d) \<subseteq> insert (k, v) (set d)"
  by (induction k v d rule: dict_set.induct) auto

lemma keys_dict_set: "fst ` set (dict_set k v d) = insert k (fst ` set d)"
  by (induction k v d rule: dict_set.induct) auto

lemma keys_dict_set': "set (map fst (dict_set k v d)) = insert k (set (map fst d))"
  using keys_dict_set [of k v d] by simp

lemma dict_ok_set [simp]: "dict_ok d \<Longrightarrow> dict_ok (dict_set k v d)"
  by (induction k v d rule: dict_set.induct) (auto simp: dict_ok_def keys_dict_set)

lemma dict_ok_Nil [simp]: "dict_ok []"
  by (simp add: dict_ok_def)

lemma keys_dict_del [simp]: "set (map fst (dict_del k d)) = set (map fst d) - {k}"
  by (auto simp: dict_del_def)

lemma dict_ok_del [simp]: "dict_ok d \<Longrightarrow> dict_ok (dict_del k d)"
  by (simp add: dict_ok_def dict_del_def distinct_map_filter)

lemma map_of_dict_del [simp]: "map_of (dict_del k d) = (map_of d)(k := None)"
  by (induction d) (auto simp: dict_del_def fun_eq_iff)

lemma map_of_eq_Some_dict: "dict_ok d \<Longrightarrow> map_of d k = Some v \<longleftrightarrow> (k, v) \<in> set d"
  by (simp add: dict_ok_def map_of_eq_Some_iff)

end
