(* ===== verification/JsString.thy ===== *)
theory JsString
  imports Prelude
begin

text \<open>
  What the source uses of JavaScript's strings and \<open>BigInt\<close>: \<open>strip_quotes\<close> is
  \<open>s.replaceAll('"', '')\<close>, \<open>show_int\<close> is \<open>n.toString()\<close> of a \<open>bigint\<close>, \<open>big_int\<close> is the
  conversion \<open>BigInt(s)\<close> (it throws a SyntaxError where the string is no integer literal).
\<close>

subsection \<open>Characters\<close>

definition is_digit :: "char \<Rightarrow> bool" where
  "is_digit c \<longleftrightarrow> 48 \<le> (of_char c :: nat) \<and> (of_char c :: nat) \<le> 57"

definition is_letter :: "char \<Rightarrow> bool" where
  "is_letter c \<longleftrightarrow> (65 \<le> (of_char c :: nat) \<and> (of_char c :: nat) \<le> 90) \<or>
     (97 \<le> (of_char c :: nat) \<and> (of_char c :: nat) \<le> 122)"

definition is_space :: "char \<Rightarrow> bool" where
  "is_space c \<longleftrightarrow> (of_char c :: nat) = 32 \<or> (9 \<le> (of_char c :: nat) \<and> (of_char c :: nat) \<le> 13)"

definition digit_val :: "char \<Rightarrow> nat" where
  "digit_val c = of_char c - 48"

definition digit_char :: "nat \<Rightarrow> char" where
  "digit_char n = ''0123456789'' ! n"

definition hex_char :: "nat \<Rightarrow> char" where
  "hex_char n = ''0123456789abcdef'' ! n"

definition to_lower :: "string \<Rightarrow> string" where
  "to_lower = map (\<lambda>c. let n = of_char c :: nat in
     if 65 \<le> n \<and> n \<le> 90 then char_of (n + 32) else c)"

definition to_upper :: "string \<Rightarrow> string" where
  "to_upper = map (\<lambda>c. let n = of_char c :: nat in
     if 97 \<le> n \<and> n \<le> 122 then char_of (n - 32) else c)"

definition quote :: char where
  "quote = CHR 0x22"

definition strip_quotes :: "string \<Rightarrow> string" where
  "strip_quotes s = filter (\<lambda>c. c \<noteq> quote) s"

definition quoted :: "string \<Rightarrow> string" where
  "quoted s = quote # s @ [quote]"

lemma strip_quotes_idem [simp]: "strip_quotes (strip_quotes s) = strip_quotes s"
  by (simp add: strip_quotes_def)

lemma strip_quotes_append [simp]: "strip_quotes (s @ t) = strip_quotes s @ strip_quotes t"
  by (simp add: strip_quotes_def)

lemma strip_quotes_id: "quote \<notin> set s \<Longrightarrow> strip_quotes s = s"
  unfolding strip_quotes_def by (rule filter_True) auto

lemma strip_quotes_quoted: "quote \<notin> set s \<Longrightarrow> strip_quotes (quoted s) = s"
  using strip_quotes_id [of s] by (simp add: quoted_def strip_quotes_def)

lemma digit_cases: "(n::nat) < 10 \<longleftrightarrow> n \<in> {0, 1, 2, 3, 4, 5, 6, 7, 8, 9}"
  by auto

lemma digit_val_char [simp]: "n < 10 \<Longrightarrow> digit_val (digit_char n) = n"
  by (auto simp: digit_cases digit_val_def digit_char_def)

lemma is_digit_char [simp]: "n < 10 \<Longrightarrow> is_digit (digit_char n)"
  by (auto simp: digit_cases is_digit_def digit_char_def)

lemma digit_not_letter: "is_digit c \<Longrightarrow> \<not> is_letter c"
  by (auto simp: is_digit_def is_letter_def)

lemma digit_not_space: "is_digit c \<Longrightarrow> \<not> is_space c"
  by (auto simp: is_digit_def is_space_def)

lemma digit_not_quote: "is_digit c \<Longrightarrow> c \<noteq> quote"
  by (auto simp: is_digit_def quote_def)

lemma letter_not_quote: "is_letter c \<Longrightarrow> c \<noteq> quote"
  by (auto simp: is_letter_def quote_def)

subsection \<open>Integers and their literals\<close>

fun show_nat :: "nat \<Rightarrow> string" where
  "show_nat n = (if n < 10 then [digit_char n] else show_nat (n div 10) @ [digit_char (n mod 10)])"

declare show_nat.simps [simp del]

definition show_int :: "int \<Rightarrow> string" where
  "show_int i = (if i < 0 then CHR ''-'' # show_nat (nat (- i)) else show_nat (nat i))"

definition parse_nat :: "string \<Rightarrow> nat" where
  "parse_nat = foldl (\<lambda>n c. 10 * n + digit_val c) 0"

definition trim :: "string \<Rightarrow> string" where
  "trim s = rev (dropWhile is_space (rev (dropWhile is_space s)))"

definition radix_val :: "char \<Rightarrow> nat" where
  "radix_val c = (let n = of_char c :: nat in
     if 48 \<le> n \<and> n \<le> 57 then n - 48
     else if 97 \<le> n \<and> n \<le> 102 then n - 87
     else if 65 \<le> n \<and> n \<le> 70 then n - 55 else 99)"

definition radix_literal :: "nat \<Rightarrow> string \<Rightarrow> int option" where
  "radix_literal b ds =
     (if ds \<noteq> [] \<and> list_all (\<lambda>c. radix_val c < b) ds
      then Some (int (foldl (\<lambda>n c. b * n + radix_val c) 0 ds)) else None)"

definition dec_literal :: "string \<Rightarrow> int option" where
  "dec_literal ds = (if ds \<noteq> [] \<and> list_all is_digit ds then Some (int (parse_nat ds)) else None)"

fun int_literal :: "string \<Rightarrow> int option" where
  "int_literal (c # d # ds) =
     (if c = CHR ''-'' then map_option uminus (dec_literal (d # ds))
      else if c = CHR ''+'' then dec_literal (d # ds)
      else if c = CHR ''0'' \<and> (d = CHR ''x'' \<or> d = CHR ''X'') then radix_literal 16 ds
      else if c = CHR ''0'' \<and> (d = CHR ''o'' \<or> d = CHR ''O'') then radix_literal 8 ds
      else if c = CHR ''0'' \<and> (d = CHR ''b'' \<or> d = CHR ''B'') then radix_literal 2 ds
      else dec_literal (c # d # ds))"
| "int_literal s = dec_literal s"

definition big_int :: "string \<Rightarrow> int res" where
  "big_int s = (let t = trim s in
     if t = [] then Inr 0 else require ''SyntaxError: Cannot convert to a BigInt'' (int_literal t))"

lemma show_nat_nonempty [simp]: "show_nat n \<noteq> []"
  by (subst show_nat.simps) simp

lemma show_nat_digits: "list_all is_digit (show_nat n)"
  by (induction n rule: show_nat.induct) (subst show_nat.simps, simp)

lemma parse_nat_snoc: "parse_nat (s @ [c]) = 10 * parse_nat s + digit_val c"
  by (simp add: parse_nat_def)

lemma parse_show_nat [simp]: "parse_nat (show_nat n) = n"
proof (induction n rule: show_nat.induct)
  case (1 n)
  show ?case
  proof (cases "n < 10")
    case True
    then show ?thesis by (subst show_nat.simps) (simp add: parse_nat_def)
  next
    case False
    with 1 show ?thesis by (subst show_nat.simps) (simp add: parse_nat_snoc)
  qed
qed

lemma show_nat_inject [simp]: "show_nat m = show_nat n \<longleftrightarrow> m = n"
  using parse_show_nat by metis

lemma show_nat_length: "n < 10 ^ k \<Longrightarrow> 0 < k \<Longrightarrow> length (show_nat n) \<le> k"
proof (induction n arbitrary: k rule: show_nat.induct)
  case (1 n)
  show ?case
  proof (cases "n < 10")
    case True
    then show ?thesis using 1 by (subst show_nat.simps) simp
  next
    case False
    with 1(3) 1(2) obtain j where k: "k = Suc j" "0 < j"
      by (cases k; cases "k - 1") auto
    have "n div 10 < 10 ^ j"
      using 1(2) k by (simp add: less_mult_imp_div_less mult.commute)
    with 1(1) False k have "length (show_nat (n div 10)) \<le> j" by simp
    with False k show ?thesis by (subst show_nat.simps) simp
  qed
qed

lemma show_int_nonempty [simp]: "show_int i \<noteq> []"
  by (simp add: show_int_def)

lemma trim_no_space:
  assumes "s = [] \<or> (\<not> is_space (hd s) \<and> \<not> is_space (last s))"
  shows "trim s = s"
proof (cases "s = []")
  case True
  then show ?thesis by (simp add: trim_def)
next
  case False
  have hd: "dropWhile is_space s = s"
    using assms False by (cases s) auto
  have "dropWhile is_space (rev s) = rev s"
    using assms False by (cases "rev s") (auto simp: hd_rev [symmetric])
  with hd show ?thesis by (simp add: trim_def)
qed

lemma dec_literal_show_nat [simp]: "dec_literal (show_nat n) = Some (int n)"
  by (simp add: dec_literal_def show_nat_digits)

lemma digit_not_prefix:
  assumes "is_digit c"
  shows "c \<noteq> CHR ''-''" "c \<noteq> CHR ''+''" "c \<noteq> CHR ''x''" "c \<noteq> CHR ''X''"
    "c \<noteq> CHR ''o''" "c \<noteq> CHR ''O''" "c \<noteq> CHR ''b''" "c \<noteq> CHR ''B''"
  using assms by (auto simp: is_digit_def)

lemma int_literal_digits:
  assumes "s \<noteq> []" "list_all is_digit s"
  shows "int_literal s = Some (int (parse_nat s))"
proof (cases s)
  case (Cons c cs)
  show ?thesis
  proof (cases cs)
    case Nil
    with assms Cons show ?thesis by (simp add: dec_literal_def)
  next
    case (Cons d ds)
    with assms \<open>s = c # cs\<close> show ?thesis
      by (simp add: dec_literal_def digit_not_prefix)
  qed
qed (use assms in simp)

lemma digits_no_space:
  assumes "s \<noteq> []" "list_all is_digit s"
  shows "\<not> is_space (hd s) \<and> \<not> is_space (last s)"
  using assms hd_in_set [of s] last_in_set [of s] digit_not_space by (auto simp: list_all_iff)

lemma big_int_digits: "s \<noteq> [] \<Longrightarrow> list_all is_digit s \<Longrightarrow> big_int s = Inr (int (parse_nat s))"
  using trim_no_space [of s] digits_no_space [of s] int_literal_digits [of s]
  by (simp add: big_int_def)

lemma big_int_Nil [simp]: "big_int [] = Inr 0"
  by (simp add: big_int_def trim_def)

lemma big_int_show_nat [simp]: "big_int (show_nat n) = Inr (int n)"
  by (simp add: big_int_digits show_nat_digits)

text \<open>\<open>BigInt(n.toString())\<close> is \<open>n\<close>.\<close>

lemma big_int_show_int [simp]: "big_int (show_int i) = Inr i"
proof (cases "i < 0")
  case True
  obtain d ds where d: "show_nat (nat (- i)) = d # ds"
    by (cases "show_nat (nat (- i))") auto
  have "trim (CHR ''-'' # d # ds) = CHR ''-'' # d # ds"
    using digits_no_space [of "d # ds"] show_nat_digits [of "nat (- i)"] d
    by (intro trim_no_space) (simp add: is_space_def)
  with True d dec_literal_show_nat [of "nat (- i)"] show ?thesis
    by (simp add: big_int_def show_int_def)
next
  case False
  then show ?thesis by (simp add: show_int_def)
qed

lemma show_int_inject [simp]: "show_int i = show_int j \<longleftrightarrow> i = j"
  by (metis big_int_show_int sum.inject(2))

end
