(* ===== verification/Chain.thy ===== *)
theory Chain
  imports JsString "HOL-Library.Word"
begin

text \<open>
  The chain data the handlers receive (\<open>CosmosBlock\<close>, \<open>CosmosTransaction\<close>, \<open>CosmosMessage\<close>,
  \<open>CosmosEvent\<close> of the SubQuery SDK), with the fields the source reads, and the decoded bodies of
  the messages it handles. An attribute value is the string the handlers cast it to. A message
  always has its transaction; an event of \<open>BeginBlock\<close>, \<open>EndBlock\<close> or \<open>FinalizeBlock\<close> has none.
  Block heights and indices are natural numbers, amounts on the wire are decimal strings.
  \<open>event_kind\<close> says which member of \<open>CosmosEventKind\<close> an event has and \<open>kind_text\<close> is that
  member's runtime string, which the ids interpolate.
\<close>

type_synonym bytes = "8 word list"
type_synonym attribute = "string \<times> string"

record coin =
  amount :: string
  denom :: string

datatype event_kind_raw = KMessage | KTransaction | KBeginBlock | KEndBlock | KFinalizeBlock
  | KOther string

record event_body =
  ev_type :: string
  attributes :: "attribute list"

record any_msg =
  any_type_url :: string
  any_value :: bytes

record cosmos_tx =
  tx_hash :: string
  tx_idx :: nat
  tx_code :: nat
  tx_events :: "event_body list"

record endpoint =
  url :: string
  rpc_type :: int
  configs :: "(string \<times> string) list"

record rev_share =
  rs_address :: string
  rs_percentage :: int

record raw_service =
  rsv_service_id :: string
  rsv_endpoints :: "endpoint list"
  rsv_rev_share :: "rev_share list"

record session_header =
  application_address :: string
  service_id :: string
  session_id :: string
  session_start_block_height :: int
  session_end_block_height :: int

text \<open>
  The decoded messages; the arguments are the fields of the generated proto types in the order given:
  \<open>StakeApplication\<close> address, stake, service ids; \<open>TransferApplication\<close> source and destination;
  \<open>DelegateToGateway\<close> and \<open>UndelegateFromGateway\<close> application and gateway; \<open>ClaimMorseApplication\<close>
  and \<open>ClaimMorseAccount\<close> destination, signer, Morse public key and signature (and service id);
  \<open>ClaimMorseSupplier\<close> operator, owner, signer, Morse node address, public key, signature, whether the
  signer is the output address, services; \<open>StakeSupplier\<close> operator, owner, signer, stake, services;
  \<open>AddService\<close> owner and service (id, name, compute units per relay); \<open>CreateClaim\<close> and
  \<open>SubmitProof\<close> supplier operator and session header; \<open>BankSend\<close> from, to, amounts.
\<close>

datatype decoded_msg =
    StakeApplication string "coin option" "string list"
  | UnstakeApplication string
  | TransferApplication string string
  | DelegateToGateway string string
  | UndelegateFromGateway string string
  | ClaimMorseApplication string string bytes bytes "string option"
  | ClaimMorseAccount string string bytes bytes
  | ClaimMorseSupplier string string string string bytes bytes bool "raw_service list"
  | StakeGateway string "coin option"
  | UnstakeGateway string
  | StakeSupplier string string string "coin option" "raw_service list"
  | UnstakeSupplier string string
  | AddService string string string nat
  | CreateClaim string "session_header option"
  | SubmitProof string "session_header option"
  | BankSend string string "coin list option"
  | OtherMsg

record cosmos_msg =
  msg_idx :: nat
  type_url :: string
  decoded :: decoded_msg
  msg_tx :: cosmos_tx
  msg_height :: nat

record cosmos_event =
  event_idx :: nat
  event_kind :: event_kind_raw
  kind_text :: string
  event :: event_body
  event_tx :: "cosmos_tx option"
  event_msg :: "cosmos_msg option"
  event_height :: nat

datatype datum = Ev cosmos_event | Ms cosmos_msg

record cosmos_block =
  height :: nat
  chain_id :: string
  block_txs :: "cosmos_tx list"
  block_messages :: "cosmos_msg list"
  block_events :: "cosmos_event list"

text \<open>
  \<open>attributes.find(({key}) => key === k)?.value\<close>: the first attribute with the key. A loop that
  assigns a variable at every attribute with the key keeps the last one.
\<close>

definition attr_first :: "string \<Rightarrow> attribute list \<Rightarrow> string option" where
  "attr_first k as = map_of as k"

definition attr_last :: "string \<Rightarrow> attribute list \<Rightarrow> string option" where
  "attr_last k as = map_of (rev as) k"

lemma attr_last_snoc: "attr_last k (as @ [(k', v)]) = (if k = k' then Some v else attr_last k as)"
  by (simp add: attr_last_def)

lemma attr_last_Nil [simp]: "attr_last k [] = None"
  by (simp add: attr_last_def)

lemma attr_last_eq_None: "attr_last k as = None \<longleftrightarrow> k \<notin> fst ` set as"
  by (simp add: attr_last_def map_of_eq_None_iff)

text \<open>The status of a staked entity, \<open>StakeStatus\<close> of the schema.\<close>

datatype stake_status = Staked | Unstaking | Unstaked

end
