(* ===== verification/Db.thy ===== *)
theory Db
  imports Chain
begin

text \<open>
  \<open>src/mappings/utils/db.ts\<close>: paginated reads, bulk inserts in batches and the raw bulk insert, as
  the SQL statements they send. A statement is a value (\<open>sql\<close>), \<open>run_sql\<close> is its effect on the
  rows of a table: \<open>Delete\<close> drops the rows of its \<open>WHERE\<close>, \<open>Update\<close> rewrites them, \<open>Insert\<close>
  adds rows and skips those whose unique key is taken (\<open>ON CONFLICT DO NOTHING\<close>; a row whose key
  the database generates has none, \<open>None\<close>). A row of a historical table (\<open>hrow\<close>) carries the block
  range \<open>[lower, upper)\<close> in which it is the current version; a live row has no upper bound.
  The configuration constants are the defaults of the source: \<open>isNumber\<close> is false for the strings
  of \<open>process.env\<close>, so the environment never replaces them.
\<close>

definition page_limit :: nat where
  "page_limit = 1000"

definition batch_size :: nat where
  "batch_size = 5000"

subsection \<open>Paginated reads\<close>

text \<open>
  The \<open>do .. while\<close> loop; \<open>fetch_fn offset limit\<close> is the query. It need not end for a query that
  always fills its page.
\<close>

partial_function (option) fetch_loop ::
  "(nat \<Rightarrow> nat \<Rightarrow> 'a list) \<Rightarrow> nat \<Rightarrow> nat \<Rightarrow> 'a list \<Rightarrow> 'a list option" where
  "fetch_loop fetch_fn limit offset results =
     (if length (fetch_fn offset limit) = limit
      then fetch_loop fetch_fn limit (offset + length (fetch_fn offset limit))
             (results @ fetch_fn offset limit)
      else Some (results @ fetch_fn offset limit))"

declare fetch_loop.simps [code]

definition fetch_paginated_records :: "(nat \<Rightarrow> nat \<Rightarrow> 'a list) \<Rightarrow> 'a list option" where
  "fetch_paginated_records fetch_fn = fetch_loop fetch_fn page_limit 0 []"

text \<open>A query with \<open>LIMIT\<close> and \<open>OFFSET\<close> over the rows that satisfy its conditions.\<close>

locale paged_query =
  fixes fetch :: "nat \<Rightarrow> nat \<Rightarrow> 'a list"
    and rows :: "'a list"
  assumes fetch_page: "fetch off lim = take lim (drop off rows)"
begin

lemma fetch_loop_rows:
  "0 < lim \<Longrightarrow> off \<le> length rows \<Longrightarrow>
     fetch_loop fetch lim off acc = Some (acc @ drop off rows)"
proof (induction "length rows - off" arbitrary: off acc rule: less_induct)
  case less
  show ?case
  proof (cases "length (take lim (drop off rows)) = lim")
    case True
    then have "lim \<le> length rows - off" by simp
    with less.prems less.hyps [of "off + lim" "acc @ take lim (drop off rows)"] True show ?thesis
      by (subst fetch_loop.simps) (simp add: fetch_page add.commute flip: drop_drop)
  next
    case False
    then show ?thesis
      by (subst fetch_loop.simps) (auto simp: fetch_page)
  qed
qed

lemma fetch_all: "fetch_paginated_records fetch = Some rows"
  using fetch_loop_rows [of page_limit 0 "[]"]
  by (simp add: fetch_paginated_records_def page_limit_def)

end

subsection \<open>Batches\<close>

text \<open>\<open>chunkArray\<close> of \<open>bank/balanceChange.ts\<close>, and the same \<open>slice\<close> loop of \<open>rawBulkInsert\<close>.\<close>

function slices :: "nat \<Rightarrow> 'a list \<Rightarrow> 'a list list" where
  "slices n xs = (if n = 0 \<or> xs = [] then [] else take n xs # slices n (drop n xs))"
  by pat_completeness auto
termination
  by (relation "measure (\<lambda>(n, xs). length xs)") auto

declare slices.simps [simp del]

definition chunk_array :: "'a list \<Rightarrow> int \<Rightarrow> 'a list list res" where
  "chunk_array xs sz = (if sz \<le> 0 then throw ''size must be > 0'' else Inr (slices (nat sz) xs))"

text \<open>The batching loop of \<open>optimizedBulkCreate\<close>: the current batch is pushed when it is full or
  the document is the last one.\<close>

fun batch_loop :: "nat \<Rightarrow> 'a list \<Rightarrow> 'a list \<Rightarrow> 'a list list" where
  "batch_loop n cur [] = []"
| "batch_loop n cur (d # ds) =
     (if length (cur @ [d]) = n \<or> ds = [] then (cur @ [d]) # batch_loop n [] ds
      else batch_loop n (cur @ [d]) ds)"

lemma concat_slices: "0 < n \<Longrightarrow> concat (slices n xs) = xs"
proof (induction n xs rule: slices.induct)
  case (1 n xs)
  then show ?case by (subst slices.simps) auto
qed

lemma slices_sizes: "ys \<in> set (slices n xs) \<Longrightarrow> ys \<noteq> [] \<and> length ys \<le> n"
proof (induction n xs rule: slices.induct)
  case (1 n xs)
  then show ?case by (subst (asm) slices.simps) (auto split: if_splits)
qed

lemma slices_eq_Nil [simp]: "0 < n \<Longrightarrow> slices n xs = [] \<longleftrightarrow> xs = []"
  by (subst slices.simps) auto

lemma slices_short: "xs \<noteq> [] \<Longrightarrow> length xs \<le> n \<Longrightarrow> slices n xs = [xs]"
  by (cases "n = 0") (auto simp: slices.simps [of n xs] slices.simps [of n "[]"])

text \<open>The two loops make the same batches.\<close>

lemma batch_loop_slices:
  "length cur < n \<Longrightarrow> ds \<noteq> [] \<Longrightarrow> batch_loop n cur ds = slices n (cur @ ds)"
proof (induction n cur ds rule: batch_loop.induct)
  case (1 n cur)
  then show ?case by simp
next
  case (2 n cur d ds)
  show ?case
  proof (cases "length (cur @ [d]) = n")
    case True
    then have n: "n - length cur = Suc 0" by simp
    show ?thesis
    proof (cases "ds = []")
      case True
      with \<open>length (cur @ [d]) = n\<close> show ?thesis by (simp add: slices_short)
    next
      case False
      with 2 True n show ?thesis
        by (subst slices.simps) simp
    qed
  next
    case False
    with 2 show ?thesis
      by (cases "ds = []") (auto simp: slices_short)
  qed
qed

subsection \<open>Statements and rows\<close>

datatype 'r sql = Delete "'r \<Rightarrow> bool" | Update "'r \<Rightarrow> bool" "'r \<Rightarrow> 'r" | Insert "'r list"

definition insert_row :: "('r \<Rightarrow> string option) \<Rightarrow> 'r list \<Rightarrow> 'r \<Rightarrow> 'r list" where
  "insert_row key t r = (if key r \<noteq> None \<and> key r \<in> key ` set t then t else t @ [r])"

fun run_sql :: "('r \<Rightarrow> string option) \<Rightarrow> 'r sql \<Rightarrow> 'r list \<Rightarrow> 'r list" where
  "run_sql key (Delete p) t = filter (\<lambda>r. \<not> p r) t"
| "run_sql key (Update p f) t = map (\<lambda>r. if p r then f r else r) t"
| "run_sql key (Insert rs) t = foldl (insert_row key) t rs"

definition run_all :: "('r \<Rightarrow> string option) \<Rightarrow> 'r sql list \<Rightarrow> 'r list \<Rightarrow> 'r list" where
  "run_all key ss t = fold (run_sql key) ss t"

record 'd hrow =
  row_id :: string
  row_data :: 'd
  lower :: int
  upper :: "int option"

definition in_range :: "int \<Rightarrow> 'd hrow \<Rightarrow> bool" where
  "in_range b r \<longleftrightarrow> lower r \<le> b \<and> (case upper r of None \<Rightarrow> True | Some u \<Rightarrow> b < u)"

definition live :: "'d hrow \<Rightarrow> bool" where
  "live r \<longleftrightarrow> upper r = None"

datatype remove_by = ByBlockId | ByBlockRange | Omit

text \<open>
  \<open>optimizedBulkCreate\<close> at block \<open>b\<close> (\<open>store.context.getHistoricalUnit()\<close>): the documents are
  transformed (which may throw, before anything is sent), the rows of an earlier attempt at the
  block are removed, then every batch is inserted. No document carries \<open>_block_range\<close>, so each row
  gets \<open>[b, null]\<close>; \<open>bid\<close> reads a document's \<open>block_id\<close> column, which not every table has (\<open>None\<close>: a
  statement on it is an error of the database), and \<open>ident\<close> its \<open>id\<close>.
\<close>

definition new_row :: "('e \<Rightarrow> string) \<Rightarrow> int \<Rightarrow> 'e \<Rightarrow> 'e hrow" where
  "new_row ident b d = \<lparr>row_id = ident d, row_data = d, lower = b, upper = None\<rparr>"

fun remove_stmts :: "('e \<Rightarrow> int) option \<Rightarrow> int \<Rightarrow> remove_by \<Rightarrow> 'e hrow sql list res" where
  "remove_stmts (Some bid) b ByBlockId = Inr [Delete (\<lambda>r. bid (row_data r) = b)]"
| "remove_stmts None b ByBlockId = throw ''column block_id does not exist''"
| "remove_stmts bid b ByBlockRange = Inr [Delete (\<lambda>r. lower r = b)]"
| "remove_stmts bid b Omit = Inr []"

definition optimized_bulk_create ::
  "('e \<Rightarrow> string) \<Rightarrow> ('e \<Rightarrow> int) option \<Rightarrow> int \<Rightarrow> ('d \<Rightarrow> 'e res) \<Rightarrow> remove_by \<Rightarrow> 'd list \<Rightarrow>
   'e hrow sql list res" where
  "optimized_bulk_create ident bid b transformer removal docs =
     (if docs = [] then Inr []
      else bind_res (mapM_res transformer docs) (\<lambda>es.
        map_res (\<lambda>del. del @ map Insert (batch_loop batch_size [] (map (new_row ident b) es)))
          (remove_stmts bid b removal)))"

text \<open>
  \<open>rawBulkInsert\<close>: delete the block's rows, then insert the batches; the rows of these tables have
  \<open>id\<close> as their conflict column.
\<close>

definition raw_bulk_insert :: "('r \<Rightarrow> int) \<Rightarrow> int \<Rightarrow> 'r list \<Rightarrow> 'r sql list" where
  "raw_bulk_insert bid b rows =
     (if rows = [] then [] else Delete (\<lambda>r. bid r = b) # map Insert (slices batch_size rows))"

subsection \<open>Lemmas on statements\<close>

lemma run_all_Nil [simp]: "run_all key [] t = t"
  by (simp add: run_all_def)

lemma run_all_Cons [simp]: "run_all key (s # ss) t = run_all key ss (run_sql key s t)"
  by (simp add: run_all_def)

lemma run_all_append [simp]: "run_all key (ss @ ss') t = run_all key ss' (run_all key ss t)"
  by (simp add: run_all_def)

lemma run_all_inserts: "run_all key (map Insert rss) t = foldl (insert_row key) t (concat rss)"
  by (induction rss arbitrary: t) simp_all

lemma insert_rows_fresh:
  assumes "\<And>r. r \<in> set rs \<Longrightarrow> key r \<noteq> None \<Longrightarrow> key r \<notin> key ` set t"
    and "distinct (filter (\<lambda>k. k \<noteq> None) (map key rs))"
  shows "foldl (insert_row key) t rs = t @ rs"
  using assms
proof (induction rs arbitrary: t)
  case Nil
  then show ?case by simp
next
  case (Cons r rs)
  have "insert_row key t r = t @ [r]"
    using Cons.prems(1) [of r] by (auto simp: insert_row_def)
  moreover have "key r' \<notin> key ` set (t @ [r])" if "r' \<in> set rs" "key r' \<noteq> None" for r'
    using Cons.prems(1) [of r'] Cons.prems(2) that by (auto split: if_splits) (metis imageI)
  ultimately show ?case
    using Cons.IH [of "t @ [r]"] Cons.prems(2) by (auto split: if_splits)
qed

lemma set_insert_rows: "set (foldl (insert_row key) t rs) \<subseteq> set t \<union> set rs"
proof (induction rs arbitrary: t)
  case (Cons r rs)
  have "set (insert_row key t r) \<subseteq> insert r (set t)" by (auto simp: insert_row_def)
  with Cons.IH [of "insert_row key t r"] show ?case by fastforce
qed simp

lemma raw_bulk_insert_run:
  assumes "rows \<noteq> []" and "distinct (map key rows)"
    and "\<And>r. r \<in> set rows \<Longrightarrow> key r \<noteq> None \<and> bid r = b"
    and "\<And>r r'. r \<in> set rows \<Longrightarrow> r' \<in> set t \<Longrightarrow> bid r' \<noteq> b \<Longrightarrow> key r \<noteq> key r'"
  shows "run_all key (raw_bulk_insert bid b rows) t = filter (\<lambda>r. bid r \<noteq> b) t @ rows"
proof -
  have "filter (\<lambda>k. k \<noteq> None) (map key rows) = map key rows"
    using assms(3) by (auto intro!: filter_True)
  with assms(2) have "distinct (filter (\<lambda>k. k \<noteq> None) (map key rows))" by simp
  then have "foldl (insert_row key) (filter (\<lambda>r. bid r \<noteq> b) t) rows =
      filter (\<lambda>r. bid r \<noteq> b) t @ rows"
    using assms(4) by (intro insert_rows_fresh) auto
  then show ?thesis
    using assms(1) by (simp add: raw_bulk_insert_def run_all_inserts concat_slices batch_size_def)
qed

text \<open>
  A paginated read of a table returns, after finitely many pages, exactly the rows of the
  query in their order, whatever their number.
\<close>

theorem fetch_paginated_records_complete:
  "fetch_paginated_records (\<lambda>off lim. take lim (drop off rows)) = Some rows"
  by (rule paged_query.fetch_all) (simp add: paged_query_def)

text \<open>
  The batches of \<open>optimizedBulkCreate\<close> hold every document once, in order; each has between one
  and \<open>batch_size\<close> documents, and they are the batches of the \<open>slice\<close> loop of \<open>rawBulkInsert\<close>.
\<close>

theorem batches_partition_documents:
  "concat (batch_loop batch_size [] docs) = docs \<and>
   list_all (\<lambda>b. 0 < length b \<and> length b \<le> batch_size) (batch_loop batch_size [] docs) \<and>
   batch_loop batch_size [] docs = slices batch_size docs"
proof -
  have "batch_loop batch_size [] docs = slices batch_size docs"
    using batch_loop_slices [of "[]" batch_size docs]
    by (cases "docs = []") (auto simp: batch_size_def slices.simps [of _ "[]"])
  then show ?thesis
    using slices_sizes [of _ batch_size docs]
    by (auto simp: list_all_iff concat_slices batch_size_def)
qed

text \<open>
  C27: a raw bulk insert at block \<open>b\<close> replaces the rows of that block and leaves every other block's
  rows alone, so that indexing the block again after a failed attempt gives the same table.
\<close>

theorem raw_bulk_insert_replaces_block:
  assumes "rows \<noteq> []" and "distinct (map key rows)"
    and "\<And>r. r \<in> set rows \<Longrightarrow> key r \<noteq> None \<and> bid r = b"
    and "\<And>r r'. r \<in> set rows \<Longrightarrow> r' \<in> set t \<Longrightarrow> bid r' \<noteq> b \<Longrightarrow> key r \<noteq> key r'"
  defines "t' \<equiv> run_all key (raw_bulk_insert bid b rows) t"
  shows "t' = filter (\<lambda>r. bid r \<noteq> b) t @ rows \<and> run_all key (raw_bulk_insert bid b rows) t' = t'"
proof -
  have t': "t' = filter (\<lambda>r. bid r \<noteq> b) t @ rows"
    unfolding t'_def using raw_bulk_insert_run assms(1-4) by blast
  have "run_all key (raw_bulk_insert bid b rows) t' = filter (\<lambda>r. bid r \<noteq> b) t' @ rows"
    using assms(1-4) by (intro raw_bulk_insert_run) (auto simp: t')
  also have "filter (\<lambda>r. bid r \<noteq> b) t' = filter (\<lambda>r. bid r \<noteq> b) t"
    using assms(3) by (simp add: t')
  finally show ?thesis using t' by simp
qed

theorem raw_bulk_insert_replaces_block_witness:
  "run_all (\<lambda>(i, _). Some i) (raw_bulk_insert snd 7 [(''x'', 7)]) [(''a'', 6), (''y'', 7)]
     = [(''a'', 6), (''x'', 7::int)]"
  using raw_bulk_insert_replaces_block [of "[(''x'', 7)]" "\<lambda>(i, _). Some i" snd 7
      "[(''a'', 6), (''y'', 7)]"] by auto

end
