(* ===== verification/Store.thy ===== *)
theory Store
  imports Db
begin

text \<open>
  The two ways the handlers reach the database. Through the entity classes (\<open>X.get\<close>, \<open>x.save()\<close>,
  \<open>store.bulkCreate\<close>, \<open>X.remove\<close>, \<open>store.bulkRemove\<close>) a table is a map from ids to entities
  (\<open>tbl\<close>). The handlers that write the versions of a historical table themselves work on its rows
  (\<open>hrow\<close>) with the statements of \<open>Db\<close>: the current rows at block \<open>b\<close> are read by paginated
  queries, closed by setting their upper bound to \<open>b\<close>, and new rows are inserted. The locale
  \<open>entity_store\<close> is the contract both give to the handlers: \<open>map_store\<close> interprets it on the maps and
  \<open>version_rows\<close> on the rows.
\<close>

type_synonym 'e tbl = "string \<rightharpoonup> 'e"

definition save :: "('e \<Rightarrow> string) \<Rightarrow> 'e \<Rightarrow> 'e tbl \<Rightarrow> 'e tbl" where
  "save ident e t = t(ident e \<mapsto> e)"

definition bulk_create :: "('e \<Rightarrow> string) \<Rightarrow> 'e list \<Rightarrow> 'e tbl \<Rightarrow> 'e tbl" where
  "bulk_create ident es t = fold (save ident) es t"

definition remove :: "string \<Rightarrow> 'e tbl \<Rightarrow> 'e tbl" where
  "remove i t = t(i := None)"

definition bulk_remove :: "string list \<Rightarrow> 'e tbl \<Rightarrow> 'e tbl" where
  "bulk_remove is t = fold remove is t"

subsection \<open>Rows of a historical table\<close>

text \<open>
  \<open>upper(_block_range) = b\<close>: the empty range of a row closed at the block that opened it has no
  bounds in the database.
\<close>

definition closed_at :: "int \<Rightarrow> 'd hrow \<Rightarrow> bool" where
  "closed_at b r \<longleftrightarrow> upper r = Some b \<and> lower r < b"

definition close_row :: "int \<Rightarrow> 'd hrow \<Rightarrow> 'd hrow" where
  "close_row b r = r\<lparr>upper := Some b\<rparr>"

definition reopen_row :: "'d hrow \<Rightarrow> 'd hrow" where
  "reopen_row r = r\<lparr>upper := None\<rparr>"

text \<open>\<open>X.getByFields([...], {offset, limit})\<close> at block \<open>b\<close>: a page of the current rows that satisfy
  the conditions.\<close>

definition current :: "int \<Rightarrow> ('d \<Rightarrow> bool) \<Rightarrow> 'd hrow list \<Rightarrow> 'd list" where
  "current b p t = map row_data (filter (\<lambda>r. in_range b r \<and> p (row_data r)) t)"

definition get_by_fields :: "int \<Rightarrow> ('d \<Rightarrow> bool) \<Rightarrow> 'd hrow list \<Rightarrow> nat \<Rightarrow> nat \<Rightarrow> 'd list" where
  "get_by_fields b p t off lim = take lim (drop off (current b p t))"

text \<open>
  The table at block \<open>b\<close>: every row starts at or before \<open>b\<close> and carries its entity's id, a closed row
  ended at or before \<open>b\<close>, and an id has at most one live row.
\<close>

definition hist_ok :: "('d \<Rightarrow> string) \<Rightarrow> int \<Rightarrow> 'd hrow list \<Rightarrow> bool" where
  "hist_ok ident b t \<longleftrightarrow>
     list_all (\<lambda>r. lower r \<le> b \<and> row_id r = ident (row_data r) \<and>
       (case upper r of None \<Rightarrow> True | Some u \<Rightarrow> u \<le> b)) t \<and>
     distinct (map row_id (filter live t))"

definition live_map :: "'d hrow list \<Rightarrow> 'd tbl" where
  "live_map t = map_of (map (\<lambda>r. (row_id r, row_data r)) (filter live t))"

text \<open>Writing one entity as a new version: close its current row, insert the new one.\<close>

definition put_version :: "('d \<Rightarrow> string) \<Rightarrow> int \<Rightarrow> 'd \<Rightarrow> 'd hrow list \<Rightarrow> 'd hrow list" where
  "put_version ident b e t =
     run_all (\<lambda>_. None)
       [Update (\<lambda>r. row_id r = ident e \<and> in_range b r) (close_row b), Insert [new_row ident b e]] t"

subsection \<open>The contract\<close>

locale entity_store =
  fixes get :: "'t \<Rightarrow> string \<Rightarrow> 'e option"
    and put :: "'e \<Rightarrow> 't \<Rightarrow> 't"
    and ident :: "'e \<Rightarrow> string"
    and ok :: "'t \<Rightarrow> bool"
  assumes get_put: "ok t \<Longrightarrow> get (put e t) i = (if i = ident e then Some e else get t i)"
    and ok_put: "ok t \<Longrightarrow> ok (put e t)"
begin

lemma ok_puts: "ok t \<Longrightarrow> ok (fold put es t)"
  by (induction es arbitrary: t) (simp_all add: ok_put)

lemma get_puts:
  "ok t \<Longrightarrow> get (fold put es t) i =
     (case find (\<lambda>e. ident e = i) (rev es) of None \<Rightarrow> get t i | Some e \<Rightarrow> Some e)"
proof (induction es arbitrary: t)
  case Nil
  then show ?case by simp
next
  case (Cons e es)
  have "find P (xs @ ys) = (case find P xs of None \<Rightarrow> find P ys | Some x \<Rightarrow> Some x)"
    for P and xs ys :: "'e list"
    by (induction xs) auto
  with Cons show ?case by (auto simp: get_put ok_put split: option.splits)
qed

lemma get_puts_distinct:
  "ok t \<Longrightarrow> distinct (map ident es) \<Longrightarrow> e \<in> set es \<Longrightarrow> get (fold put es t) (ident e) = Some e"
proof (induction es arbitrary: t)
  case Nil
  then show ?case by simp
next
  case (Cons e' es)
  show ?case
  proof (cases "e = e'")
    case True
    then have "find (\<lambda>x. ident x = ident e) (rev es) = None"
      using Cons.prems(2) by (auto simp: find_None_iff image_iff)
    then show ?thesis
      using True Cons.prems(1) by (simp add: get_puts ok_put get_put)
  next
    case False
    then show ?thesis using Cons by (simp add: ok_put)
  qed
qed

lemma get_puts_other:
  "ok t \<Longrightarrow> i \<notin> ident ` set es \<Longrightarrow> get (fold put es t) i = get t i"
  by (induction es arbitrary: t) (simp_all add: ok_put get_put)

end

interpretation map_store: entity_store "\<lambda>t. t" "save ident" ident "\<lambda>_. True" for ident
  by unfold_locales (simp_all add: save_def)

lemma save_apply [simp]: "save ident e t i = (if i = ident e then Some e else t i)"
  by (simp add: save_def)

lemma remove_apply [simp]: "remove i t j = (if j = i then None else t j)"
  by (simp add: remove_def)

lemma bulk_create_Nil [simp]: "bulk_create ident [] t = t"
  by (simp add: bulk_create_def)

lemma bulk_create_Cons [simp]: "bulk_create ident (e # es) t = bulk_create ident es (save ident e t)"
  by (simp add: bulk_create_def)

lemma bulk_create_other: "i \<notin> ident ` set es \<Longrightarrow> bulk_create ident es t i = t i"
  unfolding bulk_create_def by (rule map_store.get_puts_other) simp_all

lemma bulk_create_in:
  "distinct (map ident es) \<Longrightarrow> e \<in> set es \<Longrightarrow> bulk_create ident es t (ident e) = Some e"
  unfolding bulk_create_def by (rule map_store.get_puts_distinct) simp_all

lemma bulk_remove_apply [simp]: "bulk_remove is t j = (if j \<in> set is then None else t j)"
  by (induction "is" arbitrary: t) (simp_all add: bulk_remove_def)

text \<open>A table whose entities are stored under their own id.\<close>

definition keyed_tbl :: "('e \<Rightarrow> string) \<Rightarrow> 'e tbl \<Rightarrow> bool" where
  "keyed_tbl ident t \<longleftrightarrow> (\<forall>i e. t i = Some e \<longrightarrow> ident e = i)"

lemma keyed_tblD: "keyed_tbl ident t \<Longrightarrow> t i = Some e \<Longrightarrow> ident e = i"
  by (simp add: keyed_tbl_def)

lemma keyed_tbl_save [simp]: "keyed_tbl ident t \<Longrightarrow> keyed_tbl ident (save ident e t)"
  by (simp add: keyed_tbl_def)

lemma keyed_tbl_bulk_create [simp]: "keyed_tbl ident t \<Longrightarrow> keyed_tbl ident (bulk_create ident es t)"
  by (induction es arbitrary: t) simp_all

lemma keyed_tbl_remove [simp]: "keyed_tbl ident t \<Longrightarrow> keyed_tbl ident (remove i t)"
  by (simp add: keyed_tbl_def)

lemma keyed_tbl_bulk_remove [simp]: "keyed_tbl ident t \<Longrightarrow> keyed_tbl ident (bulk_remove is t)"
  by (simp add: keyed_tbl_def)

lemma keyed_tbl_empty [simp]: "keyed_tbl ident (\<lambda>_. None)"
  by (simp add: keyed_tbl_def)

subsection \<open>Historical rows refine the map\<close>

lemma live_simps [simp]:
  "live (close_row b r) = False" "live (new_row ident b e)" "row_id (new_row ident b e) = ident e"
  "row_data (new_row ident b e) = e" "lower (new_row ident b e) = b"
  "row_id (close_row b r) = row_id r" "row_data (close_row b r) = row_data r"
  "lower (close_row b r) = lower r" "upper (close_row b r) = Some b"
  "upper (new_row ident b e) = None"
  by (simp_all add: live_def close_row_def new_row_def)

lemma reopen_simps [simp]:
  "live (reopen_row r)" "row_id (reopen_row r) = row_id r" "row_data (reopen_row r) = row_data r"
  "lower (reopen_row r) = lower r" "upper (reopen_row r) = None"
  by (simp_all add: live_def reopen_row_def)

lemma hist_ok_in_range: "hist_ok ident b t \<Longrightarrow> r \<in> set t \<Longrightarrow> in_range b r \<longleftrightarrow> live r"
  by (auto simp: hist_ok_def in_range_def live_def list_all_iff split: option.splits)

lemma hist_ok_current:
  "hist_ok ident b t \<Longrightarrow> current b p t = map row_data (filter (\<lambda>r. live r \<and> p (row_data r)) t)"
  unfolding current_def by (intro arg_cong [where f = "map row_data"] filter_cong)
    (auto simp: hist_ok_in_range)

lemma live_map_eq: "hist_ok ident b t \<Longrightarrow> live_map t i = Some d \<longleftrightarrow>
    (\<exists>r \<in> set t. live r \<and> row_id r = i \<and> row_data r = d)"
  by (force simp: live_map_def hist_ok_def map_of_eq_Some_iff comp_def)

lemma live_map_None: "live_map t i = None \<longleftrightarrow> (\<forall>r \<in> set t. live r \<longrightarrow> row_id r \<noteq> i)"
  by (auto simp: live_map_def map_of_eq_None_iff image_iff)

text \<open>Closing the current rows of some ids and inserting new versions of them.\<close>

lemma filter_live_close:
  "hist_ok ident b t \<Longrightarrow>
     filter live (map (\<lambda>r. if row_id r \<in> I \<and> in_range b r then close_row b r else r) t) =
     filter (\<lambda>r. live r \<and> row_id r \<notin> I) t"
proof -
  assume ok: "hist_ok ident b t"
  have "set t' \<subseteq> set t \<Longrightarrow>
     filter live (map (\<lambda>r. if row_id r \<in> I \<and> in_range b r then close_row b r else r) t') =
     filter (\<lambda>r. live r \<and> row_id r \<notin> I) t'" for t'
    by (induction t') (auto simp: hist_ok_in_range [OF ok])
  then show ?thesis by blast
qed

lemma hist_ok_close:
  assumes "hist_ok ident b t"
  shows "hist_ok ident b (map (\<lambda>r. if row_id r \<in> I \<and> in_range b r then close_row b r else r) t)"
proof -
  have "distinct (map row_id (filter (\<lambda>r. live r \<and> row_id r \<notin> I) t))"
    using assms distinct_map_filter [of row_id "filter live t" "\<lambda>r. row_id r \<notin> I"]
    by (simp add: hist_ok_def conj_commute)
  then show ?thesis
    using assms unfolding hist_ok_def
    by (auto simp: filter_live_close [OF assms] list_all_iff split: option.splits)
qed

lemma live_map_close:
  assumes "hist_ok ident b t"
  shows "live_map (map (\<lambda>r. if row_id r \<in> I \<and> in_range b r then close_row b r else r) t) i =
    (if i \<in> I then None else live_map t i)"
proof -
  have "map_of (map (\<lambda>r. (row_id r, row_data r)) (filter (\<lambda>r. live r \<and> row_id r \<notin> I) t')) i =
    (if i \<in> I then None else map_of (map (\<lambda>r. (row_id r, row_data r)) (filter live t')) i)" for t' :: "'a hrow list"
    by (induction t') auto
  then show ?thesis by (simp add: live_map_def filter_live_close [OF assms])
qed

lemma hist_ok_insert:
  assumes "hist_ok ident b t" and "distinct (map ident es)"
    and "\<And>e. e \<in> set es \<Longrightarrow> live_map t (ident e) = None"
  shows "hist_ok ident b (t @ map (new_row ident b) es)"
  using assms
  by (auto simp: hist_ok_def live_map_None comp_def list_all_iff filter_True
      distinct_map inj_on_def)

lemma live_map_insert:
  assumes "\<And>e. e \<in> set es \<Longrightarrow> live_map t (ident e) = None"
  shows "live_map (t @ map (new_row ident b) es) i =
    (case live_map t i of Some d \<Rightarrow> Some d | None \<Rightarrow> map_of (map (\<lambda>e. (ident e, e)) es) i)"
  by (simp add: live_map_def map_add_def comp_def filter_True split: option.splits)

lemma put_version_eq:
  "put_version ident b e t =
     map (\<lambda>r. if row_id r \<in> {ident e} \<and> in_range b r then close_row b r else r) t @ map (new_row ident b) [e]"
  by (simp add: put_version_def insert_row_def)

interpretation version_rows: entity_store live_map "put_version ident b" ident "hist_ok ident b"
  for ident :: "'e \<Rightarrow> string" and b
proof
  fix t :: "'e hrow list" and e :: 'e and i :: string
  define c where "c = map (\<lambda>r. if row_id r \<in> {ident e} \<and> in_range b r then close_row b r else r) t"
  assume ok: "hist_ok ident b t"
  have c: "hist_ok ident b c" "live_map c j = (if j = ident e then None else live_map t j)" for j
    unfolding c_def using hist_ok_close [OF ok, of "{ident e}"] live_map_close [OF ok, of "{ident e}"]
    by auto
  have put: "put_version ident b e t = c @ map (new_row ident b) [e]"
    by (simp add: put_version_eq c_def)
  show "hist_ok ident b (put_version ident b e t)"
    unfolding put by (rule hist_ok_insert [OF c(1)]) (simp_all add: c(2))
  show "live_map (put_version ident b e t) i = (if i = ident e then Some e else live_map t i)"
    unfolding put by (subst live_map_insert) (simp_all add: c(2) split: option.split)
qed

interpretation current_rows: paged_query "get_by_fields b p t" "current b p t" for b p t
  by unfold_locales (simp add: get_by_fields_def)

lemma fetch_current: "fetch_paginated_records (get_by_fields b p t) = Some (current b p t)"
  by (rule current_rows.fetch_all)

subsection \<open>Bulk inserts\<close>

lemma insert_rows_unkeyed [simp]: "foldl (insert_row (\<lambda>_. None)) t rs = t @ rs"
  by (induction rs arbitrary: t) (simp_all add: insert_row_def)

lemma concat_batches: "concat (map (map f) (batch_loop batch_size [] docs)) = map f docs"
  by (cases "docs = []")
    (simp_all add: batch_loop_slices batch_size_def concat_slices flip: map_concat)

lemma optimized_bulk_create_omit:
  "\<exists>ss. optimized_bulk_create ident bid b (\<lambda>d. Inr (f d)) Omit docs = Inr ss \<and>
     (\<forall>key t. run_all key ss t = foldl (insert_row key) t (map (new_row ident b \<circ> f) docs))"
proof (cases "docs = []")
  case False
  have "concat (batch_loop batch_size [] (map (new_row ident b \<circ> f) docs)) = map (new_row ident b \<circ> f) docs"
    using concat_batches [of "\<lambda>x. x" "map (new_row ident b \<circ> f) docs"] by simp
  with False show ?thesis
    by (simp add: optimized_bulk_create_def run_all_inserts comp_def)
qed (simp add: optimized_bulk_create_def)

subsection \<open>Entities of a historical table\<close>

text \<open>
  \<open>X.get(id)\<close> reads \<open>live_map\<close>; \<open>store.bulkCreate\<close> and \<open>store.bulkRemove\<close> write and close versions.
  \<open>fetch_all\<close> is a paginated read of all current entities with a property; it always ends
  (\<open>fetch_current\<close>), so that the value of the option is there.
\<close>

definition put_versions :: "('d \<Rightarrow> string) \<Rightarrow> int \<Rightarrow> 'd list \<Rightarrow> 'd hrow list \<Rightarrow> 'd hrow list" where
  "put_versions ident b es t = fold (put_version ident b) es t"

definition remove_versions :: "int \<Rightarrow> string list \<Rightarrow> 'd hrow list \<Rightarrow> 'd hrow list" where
  "remove_versions b ids t =
     run_sql (\<lambda>_. None) (Update (\<lambda>r. row_id r \<in> set ids \<and> in_range b r) (close_row b)) t"

definition fetch_all :: "int \<Rightarrow> ('d \<Rightarrow> bool) \<Rightarrow> 'd hrow list \<Rightarrow> 'd list" where
  "fetch_all b p t = the (fetch_paginated_records (get_by_fields b p t))"

lemma fetch_all_current [code]: "fetch_all b p t = current b p t"
  by (simp add: fetch_all_def fetch_current)

lemma hist_ok_Nil [simp]: "hist_ok ident b []"
  by (simp add: hist_ok_def)

lemma hist_ok_put_versions [simp]: "hist_ok ident b t \<Longrightarrow> hist_ok ident b (put_versions ident b es t)"
  unfolding put_versions_def by (rule version_rows.ok_puts)

lemma live_map_put_versions:
  "hist_ok ident b t \<Longrightarrow> live_map (put_versions ident b es t) i =
     (case find (\<lambda>e. ident e = i) (rev es) of None \<Rightarrow> live_map t i | Some e \<Rightarrow> Some e)"
  unfolding put_versions_def by (rule version_rows.get_puts)

lemma live_map_put_other:
  "hist_ok ident b t \<Longrightarrow> i \<notin> ident ` set es \<Longrightarrow> live_map (put_versions ident b es t) i = live_map t i"
  unfolding put_versions_def by (rule version_rows.get_puts_other)

lemma live_map_put_in:
  "hist_ok ident b t \<Longrightarrow> distinct (map ident es) \<Longrightarrow> e \<in> set es \<Longrightarrow>
     live_map (put_versions ident b es t) (ident e) = Some e"
  unfolding put_versions_def by (rule version_rows.get_puts_distinct)

text \<open>Writing back the current entities that a function changes is mapping the function over the table.\<close>

lemma live_map_put_mapped:
  assumes "hist_ok ident b t" and "\<And>x. x \<in> set xs \<Longrightarrow> \<exists>a. live_map t (ident x) = Some a \<and> x = f a"
    and "\<And>i a. live_map t i = Some a \<Longrightarrow> i \<notin> ident ` set xs \<Longrightarrow> f a = a"
  shows "live_map (put_versions ident b xs t) i = map_option f (live_map t i)"
proof (cases "find (\<lambda>e. ident e = i) (rev xs)")
  case None
  then have "i \<notin> ident ` set xs" by (auto simp: find_None_iff)
  with None assms(3) [of i] show ?thesis
    by (cases "live_map t i") (auto simp: live_map_put_versions [OF assms(1)])
next
  case (Some x)
  then have "x \<in> set xs" "ident x = i" by (auto dest: find_SomeD)
  with assms(2) [of x] Some show ?thesis by (auto simp: live_map_put_versions [OF assms(1)])
qed

lemma put_versions_Nil [simp]: "put_versions ident b [] t = t"
  by (simp add: put_versions_def)

lemma live_map_put_one [simp]:
  "hist_ok ident b t \<Longrightarrow> live_map (put_versions ident b [e] t) i = (if i = ident e then Some e else live_map t i)"
  by (simp add: put_versions_def version_rows.get_put)

lemma live_map_put_dom:
  "hist_ok ident b t \<Longrightarrow>
     live_map (put_versions ident b es t) i \<noteq> None \<longleftrightarrow> i \<in> ident ` set es \<or> live_map t i \<noteq> None"
proof -
  assume ok: "hist_ok ident b t"
  have "find (\<lambda>e. ident e = i) (rev es) \<noteq> None \<longleftrightarrow> i \<in> ident ` set es"
    by (auto simp: find_None_iff2 [symmetric] find_None_iff image_iff)
  then show ?thesis by (auto simp: live_map_put_versions [OF ok] split: option.splits)
qed

lemma hist_ok_remove_versions [simp]: "hist_ok ident b t \<Longrightarrow> hist_ok ident b (remove_versions b ids t)"
  unfolding remove_versions_def run_sql.simps by (rule hist_ok_close)

lemma live_map_remove_versions [simp]:
  "hist_ok ident b t \<Longrightarrow> live_map (remove_versions b ids t) i = (if i \<in> set ids then None else live_map t i)"
  unfolding remove_versions_def run_sql.simps by (rule live_map_close)

lemma hist_ok_row: "hist_ok ident b t \<Longrightarrow> r \<in> set t \<Longrightarrow> row_id r = ident (row_data r)"
  by (simp add: hist_ok_def list_all_iff)

lemma live_map_ident: "hist_ok ident b t \<Longrightarrow> live_map t i = Some d \<Longrightarrow> ident d = i"
  by (auto simp: live_map_eq hist_ok_row)

lemma fetch_all_iff:
  assumes "hist_ok ident b t"
  shows "d \<in> set (fetch_all b p t) \<longleftrightarrow> live_map t (ident d) = Some d \<and> p d"
  using hist_ok_row [OF assms]
  by (auto simp: fetch_all_current hist_ok_current [OF assms] live_map_eq [OF assms])

lemma fetch_all_distinct:
  assumes "hist_ok ident b t"
  shows "distinct (map ident (fetch_all b p t))"
proof -
  let ?rs = "filter (\<lambda>r. p (row_data r)) (filter live t)"
  have "map (\<lambda>r. ident (row_data r)) ?rs = map row_id ?rs"
    using hist_ok_row [OF assms] by auto
  moreover have "distinct (map row_id ?rs)"
    by (rule distinct_map_filter) (use assms in \<open>simp add: hist_ok_def\<close>)
  moreover have "filter (\<lambda>r. live r \<and> p (row_data r)) t = ?rs"
    by (simp add: conj_commute)
  ultimately show ?thesis
    by (simp only: fetch_all_current hist_ok_current [OF assms] map_map comp_def)
qed

text \<open>A batch of documents written over the rows of an earlier attempt at the block.\<close>

definition bulk_rows ::
  "('e \<Rightarrow> string) \<Rightarrow> ('e \<Rightarrow> int) option \<Rightarrow> int \<Rightarrow> remove_by \<Rightarrow> 'e list \<Rightarrow> 'e hrow list \<Rightarrow> 'e hrow list res" where
  "bulk_rows ident bid b removal docs t =
     map_res (\<lambda>ss. run_all (\<lambda>_. None) ss t) (optimized_bulk_create ident bid b Inr removal docs)"

definition kept_by :: "('e \<Rightarrow> int) option \<Rightarrow> int \<Rightarrow> remove_by \<Rightarrow> 'e hrow \<Rightarrow> bool" where
  "kept_by bid b removal r = (case removal of
     ByBlockId \<Rightarrow> (case bid of None \<Rightarrow> True | Some f \<Rightarrow> f (row_data r) \<noteq> b)
   | ByBlockRange \<Rightarrow> lower r \<noteq> b | Omit \<Rightarrow> True)"

lemma remove_stmts_run:
  "bid \<noteq> None \<or> removal \<noteq> ByBlockId \<Longrightarrow>
     \<exists>ss. remove_stmts bid b removal = Inr ss \<and> run_all (\<lambda>_. None) ss t = filter (kept_by bid b removal) t"
  by (cases removal; cases bid) (simp_all add: kept_by_def [abs_def])

lemma bulk_rows_eq:
  assumes "bid \<noteq> None \<or> removal \<noteq> ByBlockId"
  shows "bulk_rows ident bid b removal docs t =
     Inr (if docs = [] then t else filter (kept_by bid b removal) t @ map (new_row ident b) docs)"
proof -
  have "concat (batch_loop batch_size [] (map (new_row ident b) docs)) = map (new_row ident b) docs"
    using concat_batches [of "\<lambda>x. x" "map (new_row ident b) docs"] by simp
  with remove_stmts_run [OF assms, of b t] show ?thesis
    using mapM_res_pure [of "\<lambda>x. x" docs]
    by (auto simp: bulk_rows_def optimized_bulk_create_def run_all_inserts)
qed

lemmas bulk_rows_simps [simp] =
  bulk_rows_eq [where bid = "Some f" for f, simplified]
  bulk_rows_eq [where removal = ByBlockRange, simplified]
  bulk_rows_eq [where removal = Omit, simplified]

lemma bulk_rows_no_column:
  "docs \<noteq> [] \<Longrightarrow> bulk_rows ident None b ByBlockId docs t = throw ''column block_id does not exist''"
  using mapM_res_pure [of "\<lambda>x. x" docs] by (simp add: bulk_rows_def optimized_bulk_create_def)

subsection \<open>Closing the current rows with a property\<close>

definition close_data :: "int \<Rightarrow> ('d \<Rightarrow> bool) \<Rightarrow> 'd hrow list \<Rightarrow> 'd hrow list" where
  "close_data b q t = run_sql (\<lambda>_. None) (Update (\<lambda>r. in_range b r \<and> q (row_data r)) (close_row b)) t"

lemma live_map_close_data:
  assumes "hist_ok ident b t"
  shows "live_map (close_data b q t) i = (case live_map t i of None \<Rightarrow> None | Some d \<Rightarrow> if q d then None else Some d)"
    and "hist_ok ident b (close_data b q t)"
proof -
  let ?c = "\<lambda>r. if in_range b r \<and> q (row_data r) then close_row b r else r"
  have fl: "filter live (map ?c t) = filter (\<lambda>r. \<not> q (row_data r)) (filter live t)"
  proof -
    have "set t' \<subseteq> set t \<Longrightarrow> filter live (map ?c t') = filter (\<lambda>r. \<not> q (row_data r)) (filter live t')" for t'
      by (induction t') (auto simp: hist_ok_in_range [OF assms])
    then show ?thesis by blast
  qed
  have dist: "distinct (map row_id (filter live t))" using assms by (simp add: hist_ok_def)
  have "distinct (map row_id (filter live (map ?c t)))"
    unfolding fl by (rule distinct_map_filter [OF dist])
  then show "hist_ok ident b (close_data b q t)"
    using assms unfolding hist_ok_def close_data_def run_sql.simps
    by (auto simp: list_all_iff split: option.splits)
  have "distinct (map row_id rs) \<Longrightarrow>
      map_of (map (\<lambda>r. (row_id r, row_data r)) (filter (\<lambda>r. \<not> q (row_data r)) rs)) i =
      (case map_of (map (\<lambda>r. (row_id r, row_data r)) rs) i of None \<Rightarrow> None | Some d \<Rightarrow> if q d then None else Some d)"
    for rs :: "'a hrow list"
    by (induction rs) (auto simp: map_of_eq_None_iff image_iff split: option.splits)
  from this [OF dist] show "live_map (close_data b q t) i =
      (case live_map t i of None \<Rightarrow> None | Some d \<Rightarrow> if q d then None else Some d)"
    by (simp add: live_map_def close_data_def fl)
qed

subsection \<open>The entities in the rows\<close>

definition entities :: "'d hrow list \<Rightarrow> 'd set" where
  "entities t = row_data ` set t"

lemma entities_put_versions: "entities (put_versions ident b es t) \<subseteq> entities t \<union> set es"
proof (induction es arbitrary: t)
  case (Cons e es)
  have "entities (put_version ident b e t) \<subseteq> insert e (entities t)"
    by (auto simp: entities_def put_version_def insert_row_def)
  then show ?case using Cons.IH [of "put_version ident b e t"] by (auto simp: put_versions_def)
qed (simp add: put_versions_def)

lemma entities_remove_versions [simp]: "entities (remove_versions b ids t) = entities t"
proof -
  have "map row_data (remove_versions b ids t) = map row_data t"
    by (auto simp: remove_versions_def)
  then show ?thesis unfolding entities_def by (metis set_map)
qed

lemma entities_close_data [simp]: "entities (close_data b q t) = entities t"
proof -
  have "map row_data (close_data b q t) = map row_data t"
    by (auto simp: close_data_def)
  then show ?thesis unfolding entities_def by (metis set_map)
qed

lemma live_map_entities: "hist_ok ident b t \<Longrightarrow> live_map t i = Some d \<Longrightarrow> d \<in> entities t"
  by (auto simp: live_map_eq entities_def)

lemma hist_ok_mono: "hist_ok ident b t \<Longrightarrow> b \<le> b' \<Longrightarrow> hist_ok ident b' t"
  by (auto simp: hist_ok_def list_all_iff split: option.splits)

end
