(* ===== verification/Ids.thy ===== *)
theory Ids
  imports Chain
begin

text \<open>
  The identifiers of the indexed rows (\<open>src/mappings/utils/ids.ts\<close>) and \<open>utils/json.ts\<close>'s
  \<open>parseAttribute\<close>. The lemmas show where an identifier determines its parts, the length of the
  placeholder transaction hashes of genesis, and the layout of the deterministic UUIDs.
\<close>

unbundle bit_operations_syntax

definition parse_attribute :: "string \<Rightarrow> string" where
  "parse_attribute v = strip_quotes v"

definition get_block_id :: "nat \<Rightarrow> int" where
  "get_block_id h = int h"

definition get_block_id_as_string :: "nat \<Rightarrow> string" where
  "get_block_id_as_string h = show_int (get_block_id h)"

definition dash :: "string \<Rightarrow> string \<Rightarrow> string" where
  "dash a b = a @ ''-'' @ b"

text \<open>\<open>${msg.tx?.hash}-${msg.idx}\<close>; an event without a transaction prints \<open>undefined\<close>.\<close>

definition message_id_of :: "string option \<Rightarrow> nat \<Rightarrow> string" where
  "message_id_of h i = dash (case h of Some t \<Rightarrow> t | None \<Rightarrow> ''undefined'') (show_nat i)"

definition message_id :: "cosmos_msg \<Rightarrow> string" where
  "message_id m = message_id_of (Some (tx_hash (msg_tx m))) (msg_idx m)"

definition get_event_id :: "cosmos_event \<Rightarrow> string" where
  "get_event_id e =
     (let h = (case event_tx e of Some t \<Rightarrow> tx_hash t | None \<Rightarrow> []) in
      dash (if h \<noteq> [] then h else get_block_id_as_string (event_height e))
        (dash (kind_text e) (show_nat (event_idx e))))"

definition get_balance_id :: "string \<Rightarrow> string \<Rightarrow> string" where
  "get_balance_id addr dn = dash addr dn"

definition get_param_id :: "string \<Rightarrow> string \<Rightarrow> string" where
  "get_param_id ns k = dash ns k"

definition get_app_delegated_to_gateway_id :: "string \<Rightarrow> string \<Rightarrow> string" where
  "get_app_delegated_to_gateway_id a g = dash a g"

definition get_msg_stake_service_id :: "string \<Rightarrow> string \<Rightarrow> string" where
  "get_msg_stake_service_id m s = dash m s"

definition get_stake_service_id :: "string \<Rightarrow> string \<Rightarrow> string" where
  "get_stake_service_id e s = dash e s"

definition get_relay_id :: "string \<Rightarrow> string \<Rightarrow> string \<Rightarrow> string \<Rightarrow> string" where
  "get_relay_id app srv sess supp = dash supp (dash app (dash srv sess))"

text \<open>\<open>msg.replace("/", "")\<close> with a string pattern removes the first slash only.\<close>

fun remove_first :: "char \<Rightarrow> string \<Rightarrow> string" where
  "remove_first c [] = []"
| "remove_first c (d # s) = (if c = d then s else d # remove_first c s)"

definition get_authz_id :: "string \<Rightarrow> string \<Rightarrow> string \<Rightarrow> string" where
  "get_authz_id granter msg grantee = granter @ '':'' @ dash (remove_first (CHR ''/'') msg) grantee"

datatype fake_tx_type = FakeApp | FakeSupplier | FakeGateway | FakeService | FakeValidator
  | FakeOther string

fun fake_entity_id :: "fake_tx_type \<Rightarrow> string res" where
  "fake_entity_id FakeApp = Inr ''A''"
| "fake_entity_id FakeSupplier = Inr ''B''"
| "fake_entity_id FakeGateway = Inr ''C''"
| "fake_entity_id FakeService = Inr ''D''"
| "fake_entity_id FakeValidator = Inr ''E''"
| "fake_entity_id (FakeOther _) = throw ''Not implemented''"

text \<open>\<open>"0".repeat(n)\<close> throws a RangeError for a negative count.\<close>

definition js_repeat :: "char \<Rightarrow> int \<Rightarrow> string res" where
  "js_repeat c n = (if n < 0 then throw ''RangeError: Invalid count value''
     else Inr (replicate (nat n) c))"

definition get_genesis_fake_tx_hash :: "fake_tx_type \<Rightarrow> nat \<Rightarrow> string res" where
  "get_genesis_fake_tx_hash entity index =
     (let num = show_nat (index + 1) in
      bind_res (fake_entity_id entity) (\<lambda>eid.
      bind_res (js_repeat (CHR ''0'') (64 - int (length num) - int (length eid))) (\<lambda>zeros.
      Inr (zeros @ num @ eid))))"

definition hex_byte :: "8 word \<Rightarrow> string" where
  "hex_byte b = [hex_char (unat b div 16), hex_char (unat b mod 16)]"

definition to_hex :: "bytes \<Rightarrow> string" where
  "to_hex bs = concat (map hex_byte bs)"

definition string_bytes :: "string \<Rightarrow> bytes" where
  "string_bytes s = map (\<lambda>c. of_nat (of_char c)) s"

definition namespace_bytes :: bytes where
  "namespace_bytes = [0x6b, 0xa7, 0xb8, 0x10, 0x9d, 0xad, 0x11, 0xd1,
     0x80, 0xb4, 0x00, 0xc0, 0x4f, 0xd4, 0x30, 0xc8]"

text \<open>
  \<open>generateDeterministicUUID\<close>; the digest \<open>sha256\<close> (Node's \<open>crypto\<close>) is an argument. The check of
  the constant namespace's length always passes.
\<close>

definition generate_deterministic_uuid :: "(bytes \<Rightarrow> bytes) \<Rightarrow> string \<Rightarrow> string" where
  "generate_deterministic_uuid sha256 name =
     (let r = take 16 (sha256 (namespace_bytes @ string_bytes name));
          r1 = r[6 := ((r ! 6) AND 0x0f) OR 0x40];
          r2 = r1[8 := ((r1 ! 8) AND 0x3f) OR 0x80] in
      dash (to_hex (take 4 r2)) (dash (to_hex (take 2 (drop 4 r2)))
        (dash (to_hex (take 2 (drop 6 r2))) (dash (to_hex (take 2 (drop 8 r2)))
          (to_hex (take 6 (drop 10 r2)))))))"

subsection \<open>Identifiers determine their parts\<close>

lemma append_sep_inject:
  assumes "c \<notin> set a" "c \<notin> set a'"
  shows "a @ c # b = a' @ c # b' \<longleftrightarrow> a = a' \<and> b = b'"
  using assms
proof (induction a arbitrary: a')
  case Nil
  then show ?case by (cases a') auto
next
  case (Cons x a)
  then show ?case by (cases a') auto
qed

lemma dash_inject:
  "CHR ''-'' \<notin> set a \<Longrightarrow> CHR ''-'' \<notin> set a' \<Longrightarrow> dash a b = dash a' b' \<longleftrightarrow> a = a' \<and> b = b'"
  by (simp add: dash_def append_sep_inject)

lemma digits_no_dash: "list_all is_digit s \<Longrightarrow> CHR ''-'' \<notin> set s"
  by (auto simp: list_all_iff is_digit_def)

lemma dash_inject_right:
  assumes "CHR ''-'' \<notin> set b" "CHR ''-'' \<notin> set b'"
  shows "dash a b = dash a' b' \<longleftrightarrow> a = a' \<and> b = b'"
proof -
  have "dash a b = dash a' b' \<longleftrightarrow> rev b @ CHR ''-'' # rev a = rev b' @ CHR ''-'' # rev a'"
    using rev_is_rev_conv [of "dash a b" "dash a' b'"] by (simp add: dash_def del: rev_is_rev_conv)
  with assms show ?thesis by (auto simp: append_sep_inject)
qed

lemma message_id_inject:
  "message_id m = message_id m' \<longleftrightarrow> tx_hash (msg_tx m) = tx_hash (msg_tx m') \<and> msg_idx m = msg_idx m'"
  by (simp add: message_id_def message_id_of_def dash_inject_right digits_no_dash show_nat_digits)

lemma get_stake_service_id_inject:
  "CHR ''-'' \<notin> set a \<Longrightarrow> CHR ''-'' \<notin> set a' \<Longrightarrow>
     get_stake_service_id a s = get_stake_service_id a' s' \<longleftrightarrow> a = a' \<and> s = s'"
  by (simp add: get_stake_service_id_def dash_inject)

lemma get_stake_service_id_same [simp]:
  "get_stake_service_id a s = get_stake_service_id a s' \<longleftrightarrow> s = s'"
  by (simp add: get_stake_service_id_def dash_def)

lemma get_event_id_same_origin:
  assumes "event_tx e = event_tx e'" "event_height e = event_height e'" "kind_text e = kind_text e'"
  shows "get_event_id e = get_event_id e' \<longleftrightarrow> event_idx e = event_idx e'"
  using assms by (simp add: get_event_id_def dash_def Let_def)

subsection \<open>Genesis transaction hashes\<close>

lemma parse_nat_zeros: "parse_nat (replicate k (CHR ''0'') @ s) = parse_nat s"
  by (induction k) (simp_all add: parse_nat_def digit_val_def)

lemma fake_entity_id_inject:
  "fake_entity_id e = Inr i \<Longrightarrow> fake_entity_id e' = Inr i \<Longrightarrow> e = e'"
  by (cases e; cases e') auto

lemma fake_entity_id_length: "fake_entity_id e = Inr i \<Longrightarrow> length i = 1"
  by (cases e) auto

lemma get_genesis_fake_tx_hash_eq:
  assumes "get_genesis_fake_tx_hash e n = Inr h"
  shows "\<exists>k i. fake_entity_id e = Inr i \<and> k + length (show_nat (n + 1)) = 63 \<and>
     h = (replicate k (CHR ''0'') @ show_nat (n + 1)) @ i"
proof -
  from assms obtain i where i: "fake_entity_id e = Inr i"
    by (auto simp: get_genesis_fake_tx_hash_def Let_def bind_eq_Inr)
  with assms fake_entity_id_length [OF i] show ?thesis
    by (intro exI [of _ "63 - length (show_nat (n + 1))"] exI [of _ i])
      (auto simp: get_genesis_fake_tx_hash_def Let_def js_repeat_def nat_diff_distrib
        split: if_splits)
qed

lemma get_genesis_fake_tx_hash_length:
  "get_genesis_fake_tx_hash e n = Inr h \<Longrightarrow> length h = 64"
  using get_genesis_fake_tx_hash_eq [of e n h] fake_entity_id_length by fastforce

lemma get_genesis_fake_tx_hash_defined:
  assumes "n + 1 < 10 ^ 63" "\<And>s. e \<noteq> FakeOther s"
  shows "\<exists>h. get_genesis_fake_tx_hash e n = Inr h"
  using show_nat_length [OF assms(1)] assms(2)
  by (cases e) (auto simp: get_genesis_fake_tx_hash_def Let_def js_repeat_def)

lemma get_genesis_fake_tx_hash_inject:
  assumes "get_genesis_fake_tx_hash e n = Inr h" "get_genesis_fake_tx_hash e' n' = Inr h"
  shows "e = e' \<and> n = n'"
proof -
  obtain k i where k: "fake_entity_id e = Inr i"
    "h = (replicate k (CHR ''0'') @ show_nat (n + 1)) @ i"
    using get_genesis_fake_tx_hash_eq [OF assms(1)] by blast
  obtain k' i' where k': "fake_entity_id e' = Inr i'"
    "h = (replicate k' (CHR ''0'') @ show_nat (n' + 1)) @ i'"
    using get_genesis_fake_tx_hash_eq [OF assms(2)] by blast
  have len: "length i = length i'"
    using fake_entity_id_length [OF k(1)] fake_entity_id_length [OF k'(1)] by simp
  have "(replicate k (CHR ''0'') @ show_nat (n + 1)) @ i =
      (replicate k' (CHR ''0'') @ show_nat (n' + 1)) @ i'"
    using k(2) k'(2) by (rule trans [OF sym])
  then have "replicate k (CHR ''0'') @ show_nat (n + 1) =
      replicate k' (CHR ''0'') @ show_nat (n' + 1) \<and> i = i'"
    by (rule append_eq_append_conv [OF disjI2 [OF len], THEN iffD1])
  then have "i = i'" and eq: "replicate k (CHR ''0'') @ show_nat (n + 1) =
      replicate k' (CHR ''0'') @ show_nat (n' + 1)" by auto
  from eq have "parse_nat (show_nat (n + 1)) = parse_nat (show_nat (n' + 1))"
    by (metis parse_nat_zeros)
  with \<open>i = i'\<close> k(1) k'(1) show ?thesis by (auto dest: fake_entity_id_inject)
qed

subsection \<open>Deterministic UUIDs\<close>

lemma to_hex_length [simp]: "length (to_hex bs) = 2 * length bs"
  by (induction bs) (simp_all add: to_hex_def hex_byte_def)

lemma to_hex_Cons: "to_hex (b # bs) = hex_byte b @ to_hex bs"
  by (simp add: to_hex_def)

lemma byte_table:
  "list_all (\<lambda>n. unat (((word_of_nat n :: 8 word) AND 0x0f) OR 0x40) div 16 = 4 \<and>
     unat (((word_of_nat n :: 8 word) AND 0x3f) OR 0x80) div 16 \<in> {8, 9, 10, 11}) [0..<256]"
  by code_simp

lemma byte_nibbles:
  "unat (((b :: 8 word) AND 0x0f) OR 0x40) div 16 = 4"
  "unat (((b :: 8 word) AND 0x3f) OR 0x80) div 16 \<in> {8, 9, 10, 11}"
proof -
  have "unat b \<in> set [0..<256]" using unsigned_less [of b] by simp
  with byte_table have "unat (((word_of_nat (unat b) :: 8 word) AND 0x0f) OR 0x40) div 16 = 4 \<and>
     unat (((word_of_nat (unat b) :: 8 word) AND 0x3f) OR 0x80) div 16 \<in> {8, 9, 10, 11}"
    unfolding list_all_iff by blast
  then show "unat (((b :: 8 word) AND 0x0f) OR 0x40) div 16 = 4"
    "unat (((b :: 8 word) AND 0x3f) OR 0x80) div 16 \<in> {8, 9, 10, 11}" by simp_all
qed


lemma length_16E:
  assumes "length xs = 16"
  obtains a b c d e f g h i j k l m n p q where "xs = [a, b, c, d, e, f, g, h, i, j, k, l, m, n, p, q]"
  using assms by (auto simp: numeral_eq_Suc length_Suc_conv)

lemma hex_byte_nibbles:
  "hex_byte ((b AND 0x0f) OR 0x40) = [CHR ''4'', hex_char (unat ((b AND 0x0f) OR 0x40) mod 16)]"
  "hd (hex_byte ((b AND 0x3f) OR 0x80)) \<in> set ''89ab''"
  using byte_nibbles [of b] by (auto simp: hex_byte_def hex_char_def)

text \<open>
  For every digest of at least 16 bytes the generated identifier has the layout of a version 4
  UUID of RFC 4122: 36 characters, dashes at 8, 13, 18 and 23, the version digit 4 and a variant
  digit 8, 9, a or b.
\<close>

theorem uuid_v4_layout:
  assumes "16 \<le> length (sha256 (namespace_bytes @ string_bytes name))"
  defines "u \<equiv> generate_deterministic_uuid sha256 name"
  shows "length u = 36 \<and> (\<forall>i \<in> {8, 13, 18, 23}. u ! i = CHR ''-'') \<and> u ! 14 = CHR ''4'' \<and>
    u ! 19 \<in> set ''89ab''"
proof -
  have "length (take 16 (sha256 (namespace_bytes @ string_bytes name))) = 16"
    using assms(1) by simp
  then obtain a b c d e f g h i j k l m n p q
    where r: "take 16 (sha256 (namespace_bytes @ string_bytes name)) =
      [a, b, c, d, e, f, g, h, i, j, k, l, m, n, p, q]" by (rule length_16E)
  show ?thesis
    using hex_byte_nibbles(2) [of i]
    by (simp add: u_def generate_deterministic_uuid_def r Let_def dash_def to_hex_def
        hex_byte_nibbles(1)) (simp add: hex_byte_def)
qed

theorem uuid_v4_layout_witness:
  "generate_deterministic_uuid (\<lambda>_. replicate 32 0xff) ''pokt1'' ! 14 = CHR ''4''"
  using uuid_v4_layout [of "\<lambda>_. replicate 32 0xff" "''pokt1''"] by simp

text \<open>
  The placeholder transaction hashes of genesis: every supported entity and every index below
  \<open>10 ^ 63 - 1\<close> gets a hash, it has the 64 characters of a transaction hash, and different entities
  or indices get different hashes.
\<close>

theorem genesis_fake_tx_hash_spec:
  "(n + 1 < 10 ^ 63 \<longrightarrow> (\<forall>s. e \<noteq> FakeOther s) \<longrightarrow> (\<exists>h. get_genesis_fake_tx_hash e n = Inr h)) \<and>
   (\<forall>h. get_genesis_fake_tx_hash e n = Inr h \<longrightarrow> length h = 64 \<and>
      (\<forall>e' n'. get_genesis_fake_tx_hash e' n' = Inr h \<longrightarrow> e' = e \<and> n' = n))"
  using get_genesis_fake_tx_hash_defined get_genesis_fake_tx_hash_length
    get_genesis_fake_tx_hash_inject by blast

theorem genesis_fake_tx_hash_spec_witness:
  "(\<exists>h. get_genesis_fake_tx_hash FakeGateway 41 = Inr h \<and> length h = 64)"
  using genesis_fake_tx_hash_spec [of 41 FakeGateway] by auto

end
