(* ===== verification/Json.thy ===== *)
theory Json
  imports JsString
begin

text \<open>
  \<open>JSON.parse\<close> on the attribute values of chain events. A JSON number keeps its literal. The
  three mutually recursive readers spend one element of a fuel list per call; the text twice over
  is enough fuel (\<open>json_value_fuel\<close>), so that \<open>json_parse\<close> is \<open>None\<close> exactly for a text the
  readers reject.
\<close>

datatype json = JNull | JBool bool | JNum string | JStr string | JArr "json list"
  | JObj "(string \<times> json) list"

definition json_space :: "char \<Rightarrow> bool" where
  "json_space c \<longleftrightarrow> c \<in> {CHR '' '', CHR 0x09, CHR 0x0A, CHR 0x0D}"

definition skip_ws :: "string \<Rightarrow> string" where
  "skip_ws = dropWhile json_space"

definition hex_digits :: "string \<Rightarrow> nat option" where
  "hex_digits ds = map_option nat (radix_literal 16 ds)"

text \<open>A code point of the basic plane in UTF-8, the encoding of the model's strings.\<close>

definition utf8 :: "nat \<Rightarrow> string" where
  "utf8 n = (if n < 128 then [char_of n]
     else if n < 2048 then [char_of (192 + n div 64), char_of (128 + n mod 64)]
     else [char_of (224 + n div 4096), char_of (128 + n div 64 mod 64), char_of (128 + n mod 64)])"

definition escape_char :: "char \<Rightarrow> char option" where
  "escape_char c = (if c = quote \<or> c = CHR 0x5C \<or> c = CHR ''/'' then Some c
     else if c = CHR ''b'' then Some (CHR 0x08) else if c = CHR ''f'' then Some (CHR 0x0C)
     else if c = CHR ''n'' then Some (CHR 0x0A) else if c = CHR ''r'' then Some (CHR 0x0D)
     else if c = CHR ''t'' then Some (CHR 0x09) else None)"

text \<open>The rest of a string literal, after its opening quote.\<close>

fun json_string :: "string \<Rightarrow> (string \<times> string) option" where
  "json_string [] = None"
| "json_string [c] = (if c = quote then Some ([], []) else None)"
| "json_string (c # d # s) =
     (if c = quote then Some ([], d # s)
      else if c = CHR 0x5C then
        (if d = CHR ''u'' then
           (case hex_digits (take 4 s) of
              None \<Rightarrow> None
            | Some n \<Rightarrow> (if length (take 4 s) = 4
                then map_option (\<lambda>(t, r). (utf8 n @ t, r)) (json_string (drop 4 s)) else None))
         else case escape_char d of
              None \<Rightarrow> None
            | Some e \<Rightarrow> map_option (\<lambda>(t, r). (e # t, r)) (json_string s))
      else if (of_char c :: nat) < 32 then None
      else map_option (\<lambda>(t, r). (c # t, r)) (json_string (d # s)))"

definition json_int :: "string \<Rightarrow> (string \<times> string) option" where
  "json_int s = (case s of
       [] \<Rightarrow> None
     | c # r \<Rightarrow> (if c = CHR ''0'' then Some ([c], r)
         else if is_digit c then Some (takeWhile is_digit s, dropWhile is_digit s) else None))"

definition json_frac :: "string \<Rightarrow> (string \<times> string) option" where
  "json_frac s = (case s of
       [] \<Rightarrow> Some ([], s)
     | c # r \<Rightarrow> (if c = CHR ''.'' then
           (if takeWhile is_digit r = [] then None
            else Some (c # takeWhile is_digit r, dropWhile is_digit r)) else Some ([], s)))"

definition json_exp :: "string \<Rightarrow> (string \<times> string) option" where
  "json_exp s = (case s of
       [] \<Rightarrow> Some ([], s)
     | c # r \<Rightarrow> (if c = CHR ''e'' \<or> c = CHR ''E'' then
           (let sg = takeWhile (\<lambda>d. d = CHR ''+'' \<or> d = CHR ''-'') r; t = drop (length sg) r in
            if 1 < length sg \<or> takeWhile is_digit t = [] then None
            else Some (c # sg @ takeWhile is_digit t, dropWhile is_digit t)) else Some ([], s)))"

definition json_number :: "string \<Rightarrow> (json \<times> string) option" where
  "json_number s =
     (let (m, u) = (if s \<noteq> [] \<and> hd s = CHR ''-'' then ([hd s], tl s) else ([], s)) in
      case json_int u of None \<Rightarrow> None | Some (i, u1) \<Rightarrow>
      (case json_frac u1 of None \<Rightarrow> None | Some (f, u2) \<Rightarrow>
      (case json_exp u2 of None \<Rightarrow> None | Some (e, u3) \<Rightarrow> Some (JNum (m @ i @ f @ e), u3))))"

definition json_word :: "string \<Rightarrow> (json \<times> string) option" where
  "json_word s =
     (if take 4 s = ''null'' then Some (JNull, drop 4 s)
      else if take 4 s = ''true'' then Some (JBool True, drop 4 s)
      else if take 5 s = ''false'' then Some (JBool False, drop 5 s)
      else json_number s)"

fun json_value :: "'f list \<Rightarrow> string \<Rightarrow> (json \<times> string) option"
and json_elems :: "'f list \<Rightarrow> string \<Rightarrow> (json list \<times> string) option"
and json_members :: "'f list \<Rightarrow> string \<Rightarrow> ((string \<times> json) list \<times> string) option"
where
  "json_value [] s = None"
| "json_value (_ # f) s = (case skip_ws s of
       [] \<Rightarrow> None
     | c # r \<Rightarrow>
        (if c = quote then map_option (\<lambda>(t, u). (JStr t, u)) (json_string r)
         else if c = CHR ''['' then
           (if skip_ws r \<noteq> [] \<and> hd (skip_ws r) = CHR '']'' then Some (JArr [], tl (skip_ws r))
            else map_option (\<lambda>(xs, u). (JArr xs, u)) (json_elems f r))
         else if c = CHR ''{'' then
           (if skip_ws r \<noteq> [] \<and> hd (skip_ws r) = CHR ''}'' then Some (JObj [], tl (skip_ws r))
            else map_option (\<lambda>(xs, u). (JObj xs, u)) (json_members f r))
         else json_word (c # r)))"
| "json_elems [] s = None"
| "json_elems (_ # f) s = (case json_value f s of
       None \<Rightarrow> None
     | Some (v, u) \<Rightarrow> (case skip_ws u of
          [] \<Rightarrow> None
        | c # r \<Rightarrow> (if c = CHR '']'' then Some ([v], r)
            else if c = CHR '','' then map_option (\<lambda>(vs, w). (v # vs, w)) (json_elems f r)
            else None)))"
| "json_members [] s = None"
| "json_members (_ # f) s = (case skip_ws s of
       [] \<Rightarrow> None
     | q # r \<Rightarrow> (if q \<noteq> quote then None else
         (case json_string r of
            None \<Rightarrow> None
          | Some (k, u) \<Rightarrow> (case skip_ws u of
               [] \<Rightarrow> None
             | c # r1 \<Rightarrow> (if c \<noteq> CHR '':'' then None else
                 (case json_value f r1 of
                    None \<Rightarrow> None
                  | Some (v, u1) \<Rightarrow> (case skip_ws u1 of
                       [] \<Rightarrow> None
                     | d # r2 \<Rightarrow> (if d = CHR ''}'' then Some ([(k, v)], r2)
                         else if d = CHR '','' then
                           map_option (\<lambda>(kvs, w). ((k, v) # kvs, w)) (json_members f r2)
                         else None))))))))"

definition json_parse :: "string \<Rightarrow> json option" where
  "json_parse s = (case json_value (quote # s @ s) s of
       None \<Rightarrow> None
     | Some (v, r) \<Rightarrow> (if skip_ws r = [] then Some v else None))"

text \<open>The property of an object read by name: the last entry of a repeated key counts.\<close>

definition json_get :: "string \<Rightarrow> json \<Rightarrow> json option" where
  "json_get k j = (case j of JObj kvs \<Rightarrow> map_of (rev kvs) k | _ \<Rightarrow> None)"

definition json_get_str :: "string \<Rightarrow> json \<Rightarrow> string option" where
  "json_get_str k j = (case json_get k j of Some (JStr s) \<Rightarrow> Some s | _ \<Rightarrow> None)"

subsection \<open>Every reader consumes text, so the fuel is enough\<close>

lemma skip_ws_length: "length (skip_ws s) \<le> length s"
  by (simp add: skip_ws_def length_dropWhile_le)

lemma skip_ws_Cons: "skip_ws s = c # r \<Longrightarrow> length r < length s"
  using skip_ws_length [of s] by simp

lemma json_string_length: "json_string s = Some (t, r) \<Longrightarrow> length r < length s"
proof (induction s arbitrary: t r rule: json_string.induct)
  case (3 c d s)
  then show ?case by (fastforce split: if_splits option.splits)
qed (auto split: if_splits)

lemma json_int_length: "json_int s = Some (t, r) \<Longrightarrow> length r < length s"
  by (auto simp: json_int_def less_Suc_eq_le length_dropWhile_le split: list.splits if_splits)

lemma json_frac_length: "json_frac s = Some (t, r) \<Longrightarrow> length r \<le> length s"
  by (auto simp: json_frac_def le_SucI length_dropWhile_le split: list.splits if_splits)

lemma json_exp_length: "json_exp s = Some (t, r) \<Longrightarrow> length r \<le> length s"
proof -
  have "length (dropWhile P (drop n u)) \<le> Suc (length u)" for P n and u :: string
    using length_dropWhile_le [of P "drop n u"] by simp
  then show "json_exp s = Some (t, r) \<Longrightarrow> length r \<le> length s"
    by (auto simp: json_exp_def Let_def split: list.splits if_splits)
qed

lemma json_number_length: "json_number s = Some (v, r) \<Longrightarrow> length r < length s"
proof -
  assume a: "json_number s = Some (v, r)"
  define u where "u = (if s \<noteq> [] \<and> hd s = CHR ''-'' then tl s else s)"
  from a obtain i u1 f u2 e where "json_int u = Some (i, u1)" "json_frac u1 = Some (f, u2)"
    "json_exp u2 = Some (e, r)"
    by (auto simp: json_number_def u_def split: option.splits if_splits)
  then have "length r < length u"
    using json_int_length json_frac_length json_exp_length by (meson le_less_trans)
  then show ?thesis by (cases s) (auto simp: u_def split: if_splits)
qed

lemma json_word_length: "json_word s = Some (v, r) \<Longrightarrow> length r < length s"
  using json_number_length [of s v r]
  by (cases s) (auto simp: json_word_def split: if_splits)

lemma json_read_length:
  fixes f :: "'f list"
  shows "json_value f s = Some (v, r) \<Longrightarrow> length r < length s"
    and "json_elems f s = Some (vs, r) \<Longrightarrow> length r < length s"
    and "json_members f s = Some (kvs, r) \<Longrightarrow> length r < length s"
proof (induction f s and f s and f s arbitrary: v r and vs r and kvs r
    rule: json_value_json_elems_json_members.induct)
  case (2 x f s)
  from "2.prems" obtain c q where cq: "skip_ws s = c # q" by (auto split: list.splits)
  note q = skip_ws_Cons [OF cq] skip_ws_length [of q]
  from "2.prems" cq q "2.IH" [OF cq] show ?case
    by (auto split: if_splits dest!: json_string_length json_word_length)
next
  case (4 x f s)
  from "4.prems" obtain v u c q where v: "json_value f s = Some (v, u)" and q: "skip_ws u = c # q"
    by (auto split: option.splits list.splits)
  from "4.prems" v q "4.IH" skip_ws_Cons [OF q] show ?case by (fastforce split: if_splits)
next
  case (6 x f s)
  from "6.prems" obtain q k u c q1 v u1 d q2 where
    e: "skip_ws s = quote # q" "json_string q = Some (k, u)" "skip_ws u = CHR '':'' # q1"
      "json_value f q1 = Some (v, u1)" "skip_ws u1 = d # q2"
    by (auto split: option.splits list.splits if_splits)
  from "6.prems" e "6.IH" skip_ws_Cons [OF e(1)] json_string_length [OF e(2)]
    skip_ws_Cons [OF e(3)] skip_ws_Cons [OF e(5)] show ?case
    by (fastforce split: if_splits)
qed auto


lemma json_read_fuel:
  fixes f :: "'f list" and g :: "'g list"
  shows "2 * length s < length f \<Longrightarrow> 2 * length s < length g \<Longrightarrow> json_value f s = json_value g s"
    and "Suc (2 * length s) < length f \<Longrightarrow> Suc (2 * length s) < length g \<Longrightarrow>
      json_elems f s = json_elems g s"
    and "Suc (2 * length s) < length f \<Longrightarrow> Suc (2 * length s) < length g \<Longrightarrow>
      json_members f s = json_members g s"
proof (induction f s and f s and f s arbitrary: g and g and g
    rule: json_value_json_elems_json_members.induct)
  case (2 x f s)
  then obtain y g' where g: "g = y # g'" by (cases g) auto
  show ?case
  proof (cases "skip_ws s")
    case Nil
    with g show ?thesis by simp
  next
    case (Cons c r)
    with "2.prems" g skip_ws_Cons [OF Cons]
    have "Suc (2 * length r) < length f" "Suc (2 * length r) < length g'" by auto
    with "2.IH" [OF Cons] g Cons show ?thesis by auto
  qed
next
  case (4 x f s)
  then obtain y g' where g: "g = y # g'" by (cases g) auto
  with "4.prems" have l: "2 * length s < length f" "2 * length s < length g'" by auto
  with "4.IH"(1) have v: "json_value f s = json_value g' s" by auto
  show ?case
  proof (cases "json_value f s")
    case None
    with g v show ?thesis by simp
  next
    case (Some p)
    then obtain a u where p: "json_value f s = Some (a, u)" by (cases p) auto
    with v have p': "json_value g' s = Some (a, u)" by simp
    show ?thesis
    proof (cases "skip_ws u")
      case Nil
      with g p p' show ?thesis by simp
    next
      case (Cons c r)
      with p l json_read_length(1) [OF p] skip_ws_Cons [OF Cons]
      have "Suc (2 * length r) < length f" "Suc (2 * length r) < length g'" by auto
      with "4.IH"(2) [OF p refl Cons] g p p' Cons show ?thesis by auto
    qed
  qed
next
  case (6 x f s)
  then obtain y g' where g: "g = y # g'" by (cases g) auto
  show ?case
  proof (cases "\<exists>q k u q1. skip_ws s = quote # q \<and> json_string q = Some (k, u) \<and>
      skip_ws u = CHR '':'' # q1")
    case False
    with g show ?thesis by (auto split: list.splits option.splits)
  next
    case True
    then obtain q k u q1 where e: "skip_ws s = quote # q" "json_string q = Some (k, u)"
      "skip_ws u = CHR '':'' # q1" by blast
    note len = skip_ws_Cons [OF e(1)] json_string_length [OF e(2)] skip_ws_Cons [OF e(3)]
    from len "6.prems" g have "2 * length q1 < length f" "2 * length q1 < length g'" by auto
    with "6.IH"(1) e have v: "json_value f q1 = json_value g' q1" by auto
    show ?thesis
    proof (cases "\<exists>a u1 d q2. json_value f q1 = Some (a, u1) \<and> skip_ws u1 = d # q2")
      case False
      with g e v show ?thesis by (auto split: list.splits option.splits)
    next
      case True
      then obtain a u1 d q2 where w: "json_value f q1 = Some (a, u1)" "skip_ws u1 = d # q2"
        by blast
      from len "6.prems" g json_read_length(1) [OF w(1)] skip_ws_Cons [OF w(2)]
      have "Suc (2 * length q2) < length f" "Suc (2 * length q2) < length g'" by auto
      with "6.IH"(2) e w g v show ?thesis by auto
    qed
  qed
qed auto

text \<open>\<open>json_parse\<close> with any larger fuel is the same function.\<close>

lemma json_value_fuel:
  "2 * length s < length f \<Longrightarrow> json_value f s = json_value (quote # s @ s) s"
  by (rule json_read_fuel(1)) auto


subsection \<open>Coin strings\<close>

lemma skip_ws_digit: "is_digit c \<Longrightarrow> skip_ws (c # s) = c # s"
  by (auto simp: skip_ws_def json_space_def is_digit_def)

lemma skip_ws_letter: "is_letter c \<Longrightarrow> skip_ws (c # s) = c # s"
  by (auto simp: skip_ws_def json_space_def is_letter_def)

lemma takeWhile_digits_letters:
  assumes "list_all is_digit ds" "list_all is_letter ls"
  shows "takeWhile is_digit (ds @ ls) = ds" "dropWhile is_digit (ds @ ls) = ls"
proof -
  have "ls = [] \<or> \<not> is_digit (hd ls)"
    using assms(2) digit_not_letter by (cases ls) auto
  with assms(1) show "takeWhile is_digit (ds @ ls) = ds" "dropWhile is_digit (ds @ ls) = ls"
    by (induction ds) (cases ls; simp)+
qed

lemma json_frac_digit: "is_digit c \<or> is_letter c \<Longrightarrow> json_frac (c # s) = Some ([], c # s)"
  by (auto simp: json_frac_def is_digit_def is_letter_def)

lemma json_exp_digit: "is_digit c \<Longrightarrow> json_exp (c # s) = Some ([], c # s)"
  by (auto simp: json_exp_def is_digit_def)

lemma json_exp_letters:
  assumes "is_letter c" "list_all is_letter ls"
  shows "json_exp (c # ls) = None \<or> json_exp (c # ls) = Some ([], c # ls)"
proof -
  have s: "takeWhile (\<lambda>d. d = CHR ''+'' \<or> d = CHR ''-'') ls = []"
    using assms(2) by (cases ls) (auto simp: is_letter_def)
  have "takeWhile is_digit ls = []"
    using takeWhile_digits_letters(1) [of "[]" ls] assms(2) by simp
  with s show ?thesis by (simp add: json_exp_def Let_def)
qed

text \<open>A bare coin string such as \<open>121upokt\<close> is no JSON text.\<close>

lemma json_parse_coin_bare:
  assumes ds: "ds \<noteq> []" "list_all is_digit ds" and ls: "ls \<noteq> []" "list_all is_letter ls"
  shows "json_parse (ds @ ls) = None"
proof -
  obtain d dt where d: "ds = d # dt" "is_digit d" "list_all is_digit dt"
    using ds by (cases ds) auto
  obtain l lt where l: "ls = l # lt" "is_letter l" "list_all is_letter lt"
    using ls by (cases ls) auto
  have nd: "d \<noteq> quote" "d \<noteq> CHR ''[''" "d \<noteq> CHR ''{''" "d \<noteq> CHR ''-''" "d \<noteq> CHR ''n''"
    "d \<noteq> CHR ''t''" "d \<noteq> CHR ''f''"
    using d(2) by (auto simp: is_digit_def quote_def)
  have word: "json_word (ds @ ls) = json_number (ds @ ls)"
    using nd d(1) by (simp add: json_word_def)
  have "json_number (ds @ ls) = None \<or>
    (\<exists>v c r. json_number (ds @ ls) = Some (v, c # r) \<and> (is_digit c \<or> is_letter c))"
  proof (cases "d = CHR ''0'' \<and> dt \<noteq> []")
    case True
    then obtain e et where e: "dt = e # et" "is_digit e"
      using d(3) by (cases dt) auto
    with True d nd show ?thesis
      by (auto simp: json_number_def json_int_def json_frac_digit json_exp_digit)
  next
    case False
    have "json_int (ds @ ls) = Some (ds, ls)"
      using False d takeWhile_digits_letters [of "d # dt" ls] ds(2) ls(2)
      by (auto simp: json_int_def)
    then show ?thesis
      using d nd l json_exp_letters [OF l(2,3)]
      by (auto simp: json_number_def json_frac_digit)
  qed
  moreover have "json_value (quote # (ds @ ls) @ (ds @ ls)) (ds @ ls) = json_word (ds @ ls)"
    using nd d by (simp add: skip_ws_digit)
  ultimately show ?thesis
    unfolding json_parse_def word by (auto simp: skip_ws_digit skip_ws_letter)
qed

lemma json_string_plain:
  "list_all (\<lambda>c. is_digit c \<or> is_letter c) s \<Longrightarrow> json_string (s @ [quote]) = Some (s, [])"
proof (induction s)
  case Nil
  then show ?case by simp
next
  case (Cons c s)
  then have "c \<noteq> quote" "c \<noteq> CHR 0x5C" "\<not> (of_char c :: nat) < 32"
    by (auto simp: is_digit_def is_letter_def quote_def)
  with Cons show ?case by (cases s) auto
qed

text \<open>The same coin string in quotes is a JSON string.\<close>

lemma json_parse_coin_quoted:
  assumes "list_all (\<lambda>c. is_digit c \<or> is_letter c) s"
  shows "json_parse (quoted s) = Some (JStr s)"
proof -
  have "skip_ws (quoted s) = quoted s"
    by (simp add: skip_ws_def quoted_def json_space_def quote_def)
  then have "json_value (quote # quoted s @ quoted s) (quoted s) = Some (JStr s, [])"
    using json_string_plain [OF assms] by (simp add: quoted_def)
  then show ?thesis by (simp add: json_parse_def skip_ws_def)
qed

end
