(* ===== verification/Primitives.thy ===== *)
theory Primitives
  imports Ids Json
begin

text \<open>
  \<open>src/mappings/utils/primitives.ts\<close>: event kinds, the split of events and messages by the status
  of their transaction, and the coin strings of event attributes.
\<close>

datatype event_kind = Message | Transaction | BeginBlock | EndBlock | FinalizeBlock

fun get_event_kind :: "cosmos_event \<Rightarrow> event_kind res" where
  "get_event_kind e = (case event_kind e of
       KMessage \<Rightarrow> Inr Message
     | KTransaction \<Rightarrow> Inr Transaction
     | KBeginBlock \<Rightarrow> Inr BeginBlock
     | KEndBlock \<Rightarrow> Inr EndBlock
     | KFinalizeBlock \<Rightarrow> Inr FinalizeBlock
     | KOther _ \<Rightarrow> throw ''Unknown event kind'')"

definition has_valid_amount_attribute :: "cosmos_event \<Rightarrow> bool" where
  "has_valid_amount_attribute e \<longleftrightarrow>
     \<not> list_ex (\<lambda>(k, v). k = ''amount'' \<and> v = []) (attributes (event e))"

definition is_event_of_message_kind :: "cosmos_event \<Rightarrow> bool" where
  "is_event_of_message_kind e \<longleftrightarrow> event_kind e = KMessage"

definition is_event_of_transaction_kind :: "cosmos_event \<Rightarrow> bool" where
  "is_event_of_transaction_kind e \<longleftrightarrow> event_kind e = KTransaction"

definition is_event_of_message_or_transaction_kind :: "cosmos_event \<Rightarrow> bool" where
  "is_event_of_message_or_transaction_kind e \<longleftrightarrow>
     is_event_of_message_kind e \<or> is_event_of_transaction_kind e"

definition is_event_of_finalized_block_kind :: "cosmos_event \<Rightarrow> bool" where
  "is_event_of_finalized_block_kind e \<longleftrightarrow> event_kind e = KFinalizeBlock"

definition is_event_of_block_kind :: "cosmos_event \<Rightarrow> bool" where
  "is_event_of_block_kind e \<longleftrightarrow>
     event_kind e = KBeginBlock \<or> event_kind e = KEndBlock \<or> is_event_of_finalized_block_kind e"

text \<open>Reading \<open>events[0].block\<close> of an empty list is a TypeError.\<close>

definition get_non_first_block_events :: "cosmos_event list \<Rightarrow> cosmos_event list res" where
  "get_non_first_block_events es = (case es of
       [] \<Rightarrow> throw ''TypeError: undefined''
     | e # _ \<Rightarrow> Inr (if 1 < event_height e then es
         else filter is_event_of_message_or_transaction_kind es))"

definition is_msg_validator_related :: "string \<Rightarrow> bool" where
  "is_msg_validator_related u \<longleftrightarrow> u \<in> set [
     ''/cosmos.staking.v1beta1.MsgCreateValidator'', ''/cosmos.staking.v1beta1.MsgEditValidator'',
     ''/cosmos.staking.v1beta1.MsgDelegate'', ''/cosmos.staking.v1beta1.MsgUndelegate'',
     ''/cosmos.staking.v1beta1.MsgBeginRedelegate'', ''/cosmos.slashing.v1beta1.MsgUnjail'',
     ''/cosmos.distribution.v1beta1.MsgWithdrawValidatorCommission'',
     ''/cosmos.distribution.v1beta1.MsgSetWithdrawAddress'']"

datatype tx_status = Success | Error

definition get_tx_status :: "cosmos_tx \<Rightarrow> tx_status" where
  "get_tx_status t = (if tx_code t = 0 then Success else Error)"

text \<open>Both filters answer \<open>(success, error)\<close>; a block event, which has no transaction, succeeds.\<close>

fun filter_events_by_tx_status ::
  "cosmos_event list \<Rightarrow> cosmos_event list \<times> cosmos_event list" where
  "filter_events_by_tx_status [] = ([], [])"
| "filter_events_by_tx_status (e # es) =
     (let (ok, err) = filter_events_by_tx_status es in
      if (case event_tx e of None \<Rightarrow> True | Some t \<Rightarrow> tx_code t = 0) then (e # ok, err)
      else (ok, e # err))"

fun filter_msg_by_tx_status ::
  "cosmos_msg list \<Rightarrow> cosmos_msg list \<times> cosmos_msg list" where
  "filter_msg_by_tx_status [] = ([], [])"
| "filter_msg_by_tx_status (m # ms) =
     (let (ok, err) = filter_msg_by_tx_status ms in
      if tx_code (msg_tx m) = 0 then (m # ok, err) else (ok, m # err))"

text \<open>The pattern \<open>/^(\d+)([a-zA-Z]+)$/\<close>.\<close>

definition match_coin :: "string \<Rightarrow> coin option" where
  "match_coin s =
     (let ds = takeWhile is_digit s; ls = dropWhile is_digit s in
      if ds \<noteq> [] \<and> ls \<noteq> [] \<and> list_all is_letter ls then Some \<lparr>amount = ds, denom = ls\<rparr> else None)"

text \<open>
  An object is returned unchecked by the source; here it must have the two fields of a coin. The
  amount may be a JSON string or number, its literal is kept. A number or boolean has no \<open>match\<close>.
\<close>

definition json_scalar :: "json \<Rightarrow> string option" where
  "json_scalar j = (case j of JStr s \<Rightarrow> Some s | JNum s \<Rightarrow> Some s | _ \<Rightarrow> None)"

definition json_coin :: "json \<Rightarrow> coin res" where
  "json_coin j = (case (Option.bind (json_get ''amount'' j) json_scalar, json_get_str ''denom'' j) of
       (Some a, Some d) \<Rightarrow> Inr \<lparr>amount = a, denom = d\<rparr>
     | _ \<Rightarrow> throw ''TypeError: not a coin'')"

definition get_denom_and_amount :: "string \<Rightarrow> coin res" where
  "get_denom_and_amount s = (case json_parse s of
       None \<Rightarrow> require ''Invalid coinAndDenom'' (match_coin s)
     | Some (JStr t) \<Rightarrow> require ''Invalid coinAndDenom'' (match_coin t)
     | Some (JNum _) \<Rightarrow> throw ''TypeError: parsed.match is not a function''
     | Some (JBool _) \<Rightarrow> throw ''TypeError: parsed.match is not a function''
     | Some j \<Rightarrow> json_coin j)"

subsection \<open>Lemmas\<close>

definition event_ok :: "cosmos_event \<Rightarrow> bool" where
  "event_ok e \<longleftrightarrow> (case event_tx e of None \<Rightarrow> True | Some t \<Rightarrow> tx_code t = 0)"

definition msg_ok :: "cosmos_msg \<Rightarrow> bool" where
  "msg_ok m \<longleftrightarrow> tx_code (msg_tx m) = 0"

lemma filter_events_by_tx_status_eq:
  "filter_events_by_tx_status es = (filter event_ok es, filter (Not \<circ> event_ok) es)"
  by (induction es) (auto simp: event_ok_def Let_def)

lemma filter_msg_by_tx_status_eq:
  "filter_msg_by_tx_status ms = (filter msg_ok ms, filter (Not \<circ> msg_ok) ms)"
  by (induction ms) (auto simp: msg_ok_def Let_def)

lemma match_coin_letters:
  "ds \<noteq> [] \<Longrightarrow> list_all is_digit ds \<Longrightarrow> ls \<noteq> [] \<Longrightarrow> list_all is_letter ls \<Longrightarrow>
     match_coin (ds @ ls) = Some \<lparr>amount = ds, denom = ls\<rparr>"
  by (simp add: match_coin_def takeWhile_digits_letters)

lemma match_coin_SomeD:
  "match_coin s = Some c \<Longrightarrow> s = amount c @ denom c \<and> amount c \<noteq> [] \<and> list_all is_digit (amount c)
     \<and> denom c \<noteq> [] \<and> list_all is_letter (denom c)"
  by (auto simp: match_coin_def Let_def list_all_iff dest: set_takeWhileD split: if_splits)

text \<open>
  A coin string is read back whatever the way the chain version printed it: bare, as in
  \<open>121upokt\<close>, or as a quoted JSON string; and what is read from a bare string is exactly its
  digits and its letters.
\<close>

theorem get_denom_and_amount_roundtrip:
  assumes "ds \<noteq> []" "list_all is_digit ds" "ls \<noteq> []" "list_all is_letter ls"
  shows "get_denom_and_amount (ds @ ls) = Inr \<lparr>amount = ds, denom = ls\<rparr> \<and>
    get_denom_and_amount (quoted (ds @ ls)) = Inr \<lparr>amount = ds, denom = ls\<rparr> \<and>
    big_int ds = Inr (int (parse_nat ds))"
proof -
  have "list_all (\<lambda>c. is_digit c \<or> is_letter c) (ds @ ls)"
    using assms by (auto simp: list_all_iff)
  then show ?thesis
    using assms by (simp add: get_denom_and_amount_def json_parse_coin_bare json_parse_coin_quoted
        match_coin_letters big_int_digits)
qed

theorem get_denom_and_amount_roundtrip_witness:
  "get_denom_and_amount ''121upokt'' = Inr \<lparr>amount = ''121'', denom = ''upokt''\<rparr>"
  using get_denom_and_amount_roundtrip [of "''121''" "''upokt''"]
  by (simp add: is_digit_def is_letter_def)

end
