(* ===== verification/Crypto.thy ===== *)
theory Crypto
  imports Chain
begin

unbundle bit_operations_syntax

text \<open>
  \<open>src/mappings/utils/pub_key.ts\<close> and \<open>utils/multisig.ts\<close>: addresses of public keys and the
  signers of a multisig transaction. The hash functions, the encodings and the amino codec of
  \<open>@cosmjs\<close> are the fields of the parameters \<open>crypto\<close> and \<open>amino\<close>; what may throw there has a
  result type. \<open>to_hex\<close> is a field too, with the lower-case digits of the library.
\<close>

record crypto =
  c_sha256 :: "bytes \<Rightarrow> bytes"
  c_ripemd160 :: "bytes \<Rightarrow> bytes"
  c_to_bech32 :: "string \<Rightarrow> bytes \<Rightarrow> string"
  c_to_hex :: "bytes \<Rightarrow> string"
  c_from_base64 :: "string \<Rightarrow> bytes res"

definition Secp256k1 :: string where
  "Secp256k1 = ''/cosmos.crypto.secp256k1.PubKey''"

definition Ed25519 :: string where
  "Ed25519 = ''/cosmos.crypto.ed25519.PubKey''"

definition MultisigLegacyAminoPubKey :: string where
  "MultisigLegacyAminoPubKey = ''/cosmos.crypto.multisig.LegacyAminoPubKey''"

definition raw_ed25519_pub_key_to_raw_address :: "crypto \<Rightarrow> bytes \<Rightarrow> bytes res" where
  "raw_ed25519_pub_key_to_raw_address c pub_key =
     (let pk = (if length pub_key = 34 then drop 2 pub_key else pub_key) in
      if length pk \<noteq> 32 then throw (''Invalid Ed25519 pub key length: '' @ show_nat (length pk))
      else Inr (take 20 (c_sha256 c pk)))"

definition raw_secp256k1_pub_key_to_raw_address :: "crypto \<Rightarrow> bytes \<Rightarrow> bytes res" where
  "raw_secp256k1_pub_key_to_raw_address c pub_key =
     (let pk = (if length pub_key = 35 then drop 2 pub_key else pub_key) in
      if length pk \<noteq> 33 then throw (''Invalid Secp256k1 pub key length: '' @ show_nat (length pk))
      else Inr (c_ripemd160 c (c_sha256 c pk)))"

definition pub_key_to_raw_address :: "crypto \<Rightarrow> string \<Rightarrow> bytes \<Rightarrow> string option \<Rightarrow> string res" where
  "pub_key_to_raw_address c ty pub_key pre =
     (if ty = Ed25519 then
        map_res (\<lambda>a. to_upper (c_to_hex c a)) (raw_ed25519_pub_key_to_raw_address c pub_key)
      else if ty = Secp256k1 then
        (case pre of
           None \<Rightarrow> throw ''Bench32 Prefix should not be empty''
         | Some p \<Rightarrow>
             if p = [] then throw ''Bench32 Prefix should not be empty''
             else map_res (c_to_bech32 c p) (raw_secp256k1_pub_key_to_raw_address c pub_key))
      else throw (''pubKey type '' @ ty @ '' not supported''))"

definition base64_pub_key_to_address :: "crypto \<Rightarrow> string \<Rightarrow> string \<Rightarrow> string option \<Rightarrow> string res" where
  "base64_pub_key_to_address c ty b64 pre =
     bind_res (c_from_base64 c b64) (\<lambda>pk. pub_key_to_raw_address c ty pk pre)"

definition pub_key_to_address ::
  "crypto \<Rightarrow> string \<Rightarrow> bytes \<Rightarrow> string option \<Rightarrow> bool \<Rightarrow> string res" where
  "pub_key_to_address c ty pub_key pre to_lower_case =
     map_res (\<lambda>a. if to_lower_case then to_lower a else a) (pub_key_to_raw_address c ty pub_key pre)"

subsection \<open>Multisig signers\<close>

record ('pk, 'mpk) amino =
  am_from_base64 :: "string \<Rightarrow> bytes res"
  am_to_base64 :: "bytes option \<Rightarrow> string res"
  am_encode_secp256k1 :: "bytes \<Rightarrow> 'pk res"
  am_threshold_pubkey :: "'pk list \<Rightarrow> int \<Rightarrow> 'mpk res"
  am_encode_pubkey :: "'mpk \<Rightarrow> bytes"
  am_address :: "'pk \<Rightarrow> string \<Rightarrow> string"
  am_multi_address :: "'mpk \<Rightarrow> string \<Rightarrow> string"
  am_decode_multisig :: "bytes \<Rightarrow> (int \<times> string list) option"

record multisig_info =
  from_address :: string
  all_signer_addresses :: "string list"
  signed_signer_addresses :: "string option list"
  signer_indices :: "nat list"
  threshold :: int
  multisig_pub_key :: string
  extra_bits_stored :: int
  bitarray_elems :: string

text \<open>The parts of \<open>SignerInfo\<close> the code reads; \<open>bitarray\<close> is \<open>modeInfo?.multi?.bitarray\<close>.\<close>

record signer_info =
  public_key :: "any_msg option"
  bitarray :: "(bytes \<times> int) option"

text \<open>
  \<open>bitArray[byteIndex]\<close> is \<open>undefined\<close> out of range and \<open>undefined >> k\<close> is zero; a shift of a byte
  stays below \<open>2 ^ 8\<close>, so the byte's own width is enough.
\<close>

definition bit_at :: "bytes \<Rightarrow> nat \<Rightarrow> bool" where
  "bit_at bs i =
     (i div 8 < length bs \<and> drop_bit (7 - i mod 8) (bs ! (i div 8)) AND 1 = 1)"

definition decode_bit_array :: "(string \<Rightarrow> bytes res) \<Rightarrow> string \<Rightarrow> int \<Rightarrow> nat list res" where
  "decode_bit_array from_base64 elems_base64 extra =
     map_res (\<lambda>bs. filter (bit_at bs) [0 ..< nat extra]) (from_base64 elems_base64)"

definition pubkey_objs :: "('pk, 'mpk) amino \<Rightarrow> string list \<Rightarrow> 'pk list res" where
  "pubkey_objs a keys =
     mapM_res (\<lambda>b64. bind_res (am_from_base64 a b64) (am_encode_secp256k1 a)) keys"

definition get_multi_sign_pub_key_address ::
  "('pk, 'mpk) amino \<Rightarrow> string list \<Rightarrow> int \<Rightarrow> string \<Rightarrow> (string \<times> string) res" where
  "get_multi_sign_pub_key_address a keys thr pre =
     bind_res (pubkey_objs a keys) (\<lambda>objs.
     bind_res (am_threshold_pubkey a objs thr) (\<lambda>mpk.
     bind_res (am_to_base64 a (Some (am_encode_pubkey a mpk))) (\<lambda>pubkey.
       Inr (am_multi_address a mpk pre, pubkey))))"

text \<open>An index beyond the signers reads \<open>undefined\<close>: \<open>None\<close> in \<open>signed_signer_addresses\<close>.\<close>

definition nth_opt :: "'a list \<Rightarrow> nat \<Rightarrow> 'a option" where
  "nth_opt xs i = (if i < length xs then Some (xs ! i) else None)"

definition parse_multisig_signer_info ::
  "('pk, 'mpk) amino \<Rightarrow> string list \<Rightarrow> int \<Rightarrow> string \<Rightarrow> int \<Rightarrow> string \<Rightarrow> multisig_info res" where
  "parse_multisig_signer_info a keys thr elems extra pre =
     bind_res (pubkey_objs a keys) (\<lambda>objs.
     bind_res (get_multi_sign_pub_key_address a keys thr pre) (\<lambda>(addr, pubkey).
       let all = map (\<lambda>pk. am_address a pk pre) objs in
       bind_res (decode_bit_array (am_from_base64 a) elems extra) (\<lambda>indices.
         Inr \<lparr>from_address = addr, all_signer_addresses = all,
              signed_signer_addresses = map (nth_opt all) indices,
              signer_indices = indices, threshold = thr, multisig_pub_key = pubkey,
              extra_bits_stored = extra, bitarray_elems = elems\<rparr>)))"

definition extract_threshold_and_pubkeys ::
  "('pk, 'mpk) amino \<Rightarrow> bytes \<Rightarrow> (int \<times> string list) res" where
  "extract_threshold_and_pubkeys a bs = require ''Not a valid multisig pubkey'' (am_decode_multisig a bs)"

definition is_multi :: "signer_info \<Rightarrow> bool res" where
  "is_multi si = (case public_key si of
     None \<Rightarrow> throw ''missing signerInfos public key''
   | Some pk \<Rightarrow> Inr (any_type_url pk = MultisigLegacyAminoPubKey))"

definition get_multisig_info :: "('pk, 'mpk) amino \<Rightarrow> signer_info option \<Rightarrow> multisig_info res" where
  "get_multisig_info a info = (case info of
     None \<Rightarrow> throw ''[getMultisigInfo] signerInfo is not a multisig''
   | Some si \<Rightarrow>
       bind_res (is_multi si) (\<lambda>multi.
       if \<not> multi then throw ''[getMultisigInfo] signerInfo is not a multisig''
       else
         bind_res (require ''[getMultisigInfo] missing signerInfos public key'' (public_key si)) (\<lambda>pk.
         bind_res (extract_threshold_and_pubkeys a (any_value pk)) (\<lambda>(thr, keys).
         bind_res (am_to_base64 a (map_option fst (bitarray si))) (\<lambda>elems.
           parse_multisig_signer_info a keys thr elems
             (case bitarray si of None \<Rightarrow> 0 | Some (_, extra) \<Rightarrow> extra) ''pokt'')))))"

subsection \<open>Lemmas\<close>

definition address_ok :: "string \<Rightarrow> nat \<Rightarrow> string option \<Rightarrow> bool" where
  "address_ok ty n pre \<longleftrightarrow>
     ty = Ed25519 \<and> n \<in> {32, 34} \<or>
     ty = Secp256k1 \<and> n \<in> {33, 35} \<and> pre \<noteq> None \<and> pre \<noteq> Some []"

lemma key_types [simp]: "Secp256k1 \<noteq> Ed25519" "Ed25519 \<noteq> Secp256k1"
  by (simp_all add: Secp256k1_def Ed25519_def)

lemma raw_ed25519_ok:
  "(\<exists>a. raw_ed25519_pub_key_to_raw_address c bs = Inr a) \<longleftrightarrow> length bs \<in> {32, 34}"
  by (auto simp: raw_ed25519_pub_key_to_raw_address_def Let_def)

lemma raw_secp256k1_ok:
  "(\<exists>a. raw_secp256k1_pub_key_to_raw_address c bs = Inr a) \<longleftrightarrow> length bs \<in> {33, 35}"
  by (auto simp: raw_secp256k1_pub_key_to_raw_address_def Let_def)

lemma pub_key_to_address_ok:
  "(\<exists>addr. pub_key_to_address c ty bs pre lc = Inr addr) \<longleftrightarrow> address_ok ty (length bs) pre"
  using raw_ed25519_ok [of c bs] raw_secp256k1_ok [of c bs]
  by (auto simp: pub_key_to_address_def pub_key_to_raw_address_def address_ok_def map_res_eq_Inr
      split: option.splits)

lemma raw_secp256k1_prefix:
  "length key = 33 \<Longrightarrow> raw_secp256k1_pub_key_to_raw_address c (b1 # b2 # key) =
     raw_secp256k1_pub_key_to_raw_address c key"
  by (simp add: raw_secp256k1_pub_key_to_raw_address_def)

lemma raw_ed25519_prefix:
  "length key = 32 \<Longrightarrow> raw_ed25519_pub_key_to_raw_address c (b1 # b2 # key) =
     raw_ed25519_pub_key_to_raw_address c key"
  by (simp add: raw_ed25519_pub_key_to_raw_address_def)

lemma drop_bit_and_1: "drop_bit k (w :: 8 word) AND 1 = 1 \<longleftrightarrow> bit w k"
  by (simp add: and_one_eq bit_iff_odd_drop_bit mod2_eq_if)

lemma bit_at_iff: "bit_at bs i \<longleftrightarrow> i div 8 < length bs \<and> bit (bs ! (i div 8)) (7 - i mod 8)"
  by (simp add: bit_at_def drop_bit_and_1)

lemma get_multisig_infoD:
  assumes "get_multisig_info a (Some si) = Inr m"
  obtains objs elems pk keys bs where
    "public_key si = Some pk" "any_type_url pk = MultisigLegacyAminoPubKey"
    "am_decode_multisig a (any_value pk) = Some (threshold m, keys)"
    "pubkey_objs a keys = Inr objs"
    "all_signer_addresses m = map (\<lambda>k. am_address a k ''pokt'') objs"
    "am_to_base64 a (map_option fst (bitarray si)) = Inr elems"
    "am_from_base64 a elems = Inr bs"
    "signer_indices m = filter (bit_at bs)
       [0 ..< nat (case bitarray si of None \<Rightarrow> 0 | Some (_, extra) \<Rightarrow> extra)]"
    "signed_signer_addresses m = map (nth_opt (all_signer_addresses m)) (signer_indices m)"
  using assms
  by (auto simp: get_multisig_info_def is_multi_def extract_threshold_and_pubkeys_def Let_def
      parse_multisig_signer_info_def decode_bit_array_def res_eq_Inr
      split: option.splits if_splits prod.splits)

text \<open>
  The address of a public key does not depend on the two bytes an amino-encoded key has in front,
  for either key type, and other lengths throw; a secp256k1 address also needs a prefix.
\<close>

theorem pub_key_to_address_lengths:
  assumes "length key = 33" and "length key' = 32"
  shows "pub_key_to_address c Secp256k1 (b1 # b2 # key) pre lc = pub_key_to_address c Secp256k1 key pre lc \<and>
    pub_key_to_address c Ed25519 (b1 # b2 # key') pre lc = pub_key_to_address c Ed25519 key' pre lc \<and>
    ((\<exists>addr. pub_key_to_address c ty bs pre lc = Inr addr) \<longleftrightarrow>
       ty = Ed25519 \<and> length bs \<in> {32, 34} \<or>
       ty = Secp256k1 \<and> length bs \<in> {33, 35} \<and> pre \<noteq> None \<and> pre \<noteq> Some [])"
  using assms
  by (simp only: pub_key_to_address_ok address_ok_def)
    (simp add: pub_key_to_address_def pub_key_to_raw_address_def raw_secp256k1_prefix
      raw_ed25519_prefix split: option.split)

definition crypto_example :: crypto where
  "crypto_example = \<lparr>c_sha256 = (\<lambda>bs. bs), c_ripemd160 = (\<lambda>bs. bs),
     c_to_bech32 = (\<lambda>p bs. p @ map (char_of \<circ> unat) bs),
     c_to_hex = (\<lambda>bs. concat (map (\<lambda>b. [hex_char (unat b div 16), hex_char (unat b mod 16)]) bs)),
     c_from_base64 = (\<lambda>s. Inr (map (of_nat \<circ> of_char) s))\<rparr>"

theorem pub_key_to_address_lengths_witness:
  "pub_key_to_address crypto_example Secp256k1 (replicate 35 7) (Some ''pokt'') False =
   pub_key_to_address crypto_example Secp256k1 (replicate 33 7) (Some ''pokt'') False"
  using pub_key_to_address_lengths [of "replicate 33 7" "replicate 32 7" crypto_example 7 7 "Some ''pokt''" False]
  by (simp add: numeral_nat)



text \<open>
  The signers recorded for a multisig transaction are those at the set bits below
  \<open>extraBitsStored\<close>, in key order, so a bit array whose \<open>extraBitsStored\<close> is zero (the chain counts
  there the bits of its last, incomplete byte: zero for eight signers) records no signer at all.
\<close>

theorem get_multisig_info_signers:
  assumes "get_multisig_info a (Some si) = Inr m" and "bitarray si = Some (bs, extra)"
    and "\<And>e. am_to_base64 a (Some bs) = Inr e \<Longrightarrow> am_from_base64 a e = Inr bs"
  shows "signed_signer_addresses m =
      map (nth_opt (all_signer_addresses m)) (filter (bit_at bs) [0 ..< nat extra]) \<and>
    (extra = 0 \<longrightarrow> signed_signer_addresses m = [])"
proof -
  obtain elems bs' where *: "am_to_base64 a (Some bs) = Inr elems" "am_from_base64 a elems = Inr bs'"
    "signer_indices m = filter (bit_at bs') [0 ..< nat extra]"
    "signed_signer_addresses m = map (nth_opt (all_signer_addresses m)) (signer_indices m)"
    using assms(1,2) by (elim get_multisig_infoD) auto
  then have "bs' = bs" using assms(3) [OF *(1)] by simp
  with * show ?thesis by simp
qed

definition amino_example :: "(bytes, bytes list) amino" where
  "amino_example = \<lparr>am_from_base64 = (\<lambda>s. Inr (map (of_nat \<circ> of_char) s)),
     am_to_base64 = (\<lambda>b. case b of None \<Rightarrow> throw [] | Some bs \<Rightarrow> Inr (map (char_of \<circ> unat) bs)),
     am_encode_secp256k1 = Inr, am_threshold_pubkey = (\<lambda>ks _. Inr ks),
     am_encode_pubkey = concat, am_address = (\<lambda>pk pre. pre @ map (char_of \<circ> unat) pk),
     am_multi_address = (\<lambda>ks pre. pre),
     am_decode_multisig = (\<lambda>_. Some (2, [''a'', ''b'', ''c'']))\<rparr>"

definition signer_info_example :: signer_info where
  "signer_info_example = \<lparr>public_key = Some \<lparr>any_type_url = MultisigLegacyAminoPubKey, any_value = []\<rparr>,
     bitarray = Some ([0xA0], 3)\<rparr>"

theorem get_multisig_info_signers_witness:
  "map_res signed_signer_addresses (get_multisig_info amino_example (Some signer_info_example)) =
     Inr [Some ''pokta'', Some ''poktc'']"
proof -
  define m where "m = \<lparr>from_address = ''pokt'',
    all_signer_addresses = [''pokta'', ''poktb'', ''poktc''],
    signed_signer_addresses = [Some ''pokta'', Some ''poktc''], signer_indices = [0, 2],
    threshold = 2, multisig_pub_key = ''abc'', extra_bits_stored = 3,
    bitarray_elems = map (char_of \<circ> unat) [0xA0 :: 8 word]\<rparr>"
  have m: "get_multisig_info amino_example (Some signer_info_example) = Inr m"
    unfolding m_def by code_simp
  have "am_to_base64 amino_example (Some [0xA0]) = Inr e \<Longrightarrow>
      am_from_base64 amino_example e = Inr [0xA0]" for e
    by (auto simp: amino_example_def)
  then have "signed_signer_addresses m =
      map (nth_opt (all_signer_addresses m)) (filter (bit_at [0xA0]) [0 ..< nat 3])"
    using get_multisig_info_signers [OF m, of "[0xA0]" 3] by (simp add: signer_info_example_def)
  also have "filter (bit_at [0xA0]) [0 ..< nat 3] = [0, 2]"
    by code_simp
  finally show ?thesis by (simp add: m nth_opt_def) (simp add: m_def)
qed

end
