(* ===== verification/Migration.thy ===== *)
theory Migration
  imports Store Ids Primitives Crypto
begin

text \<open>
  \<open>src/mappings/pocket/migration.ts\<close>: the accounts imported from the Morse chain and their claims.
  The amounts of a claim are read from the events of the message's transaction; an imported account is
  marked as claimed by an UPDATE on its id, the address of the Morse public key in lower case. The
  protobuf decoders are arguments.
\<close>

record morse_claimable =
  mc_id :: string
  mc_import_msg :: string
  mc_app_stake :: "int \<times> string"
  mc_supplier_stake :: "int \<times> string"
  mc_unstaked_balance :: "int \<times> string"
  mc_output_address :: "string option"
  mc_unstaking_time :: "int option"
  mc_claimed :: bool
  mc_claimed_at :: "int option"
  mc_shannon_dest :: "string option"
  mc_transaction_id :: "string option"
  mc_claimed_msg_id :: "string option"

record msg_claim_morse_account =
  cma_id :: string
  cma_account_id :: string
  cma_transaction_id :: string
  cma_block_id :: int
  cma_shannon_dest :: string
  cma_message_id :: string
  cma_morse_signature :: string
  cma_morse_public_key :: string
  cma_morse_src :: string
  cma_shannon_signing :: string
  cma_balance :: "int \<times> string"

text \<open>
  The coins announced by the events of one type, under the wanted attribute keys; a later attribute
  replaces an earlier one.
\<close>

definition event_coins :: "string \<Rightarrow> string list \<Rightarrow> event_body list \<Rightarrow> (string \<times> coin) list res" where
  "event_coins ty keys evs =
     foldM_res (\<lambda>d e.
       if ev_type e = ty
       then foldM_res (\<lambda>d (k, v). if k \<in> set keys then map_res (\<lambda>c. dict_set k c d) (get_denom_and_amount v) else Inr d)
              d (attributes e)
       else Inr d) [] evs"

definition morse_address :: "crypto \<Rightarrow> bytes \<Rightarrow> string res" where
  "morse_address c key = pub_key_to_address c Ed25519 key None True"

definition handle_claim_morse_account_msg :: "crypto \<Rightarrow> cosmos_msg \<Rightarrow> msg_claim_morse_account res" where
  "handle_claim_morse_account_msg c msg = (case decoded msg of
     ClaimMorseAccount dest signing key signature \<Rightarrow>
       bind_res (event_coins ''pocket.migration.EventMorseAccountClaimed'' [''claimed_balance'']
           (tx_events (msg_tx msg))) (\<lambda>coins.
       bind_res (require ''[handleMsgClaimMorseSupplier] balance coin not found in event''
           (map_of coins ''claimed_balance'')) (\<lambda>balance.
       bind_res (morse_address c key) (\<lambda>src.
       bind_res (big_int (amount balance)) (\<lambda>a.
         Inr \<lparr>cma_id = message_id msg, cma_account_id = dest, cma_transaction_id = tx_hash (msg_tx msg),
              cma_block_id = int (msg_height msg), cma_shannon_dest = dest, cma_message_id = message_id msg,
              cma_morse_signature = c_to_hex c signature, cma_morse_public_key = c_to_hex c key,
              cma_morse_src = src, cma_shannon_signing = signing, cma_balance = (a, denom balance)\<rparr>))))
   | _ \<Rightarrow> throw ''unexpected message'')"

subsection \<open>Recoveries\<close>

record recover_msg =
  rm_authority :: string
  rm_morse_src :: string
  rm_shannon_dest :: string

record msg_recover_morse_account =
  mrm_id :: string
  mrm_balance :: "int \<times> string"
  mrm_authority :: string
  mrm_morse_src :: string
  mrm_shannon_dest :: string
  mrm_block_id :: int
  mrm_transaction_id :: string
  mrm_message_id :: string
  mrm_is_admin :: bool

type_synonym recover_acc = "coin option \<times> string option \<times> string option"

definition recover_attribute :: "recover_acc \<Rightarrow> attribute \<Rightarrow> recover_acc res" where
  "recover_attribute = (\<lambda>(coin, morse, shannon) (k, v).
     if k = ''recovered_balance'' then map_res (\<lambda>c. (Some c, morse, shannon)) (get_denom_and_amount v)
     else if k = ''morse_src_address'' then Inr (coin, Some (strip_quotes v), shannon)
     else if k = ''shannon_dest_address'' then Inr (coin, morse, Some (strip_quotes v))
     else Inr (coin, morse, shannon))"

definition recover_matches :: "recover_msg \<Rightarrow> recover_acc \<Rightarrow> bool" where
  "recover_matches m = (\<lambda>(coin, morse, shannon).
     coin \<noteq> None \<and> map_option to_lower morse = Some (to_lower (rm_morse_src m)) \<and>
     map_option to_lower shannon = Some (to_lower (rm_shannon_dest m)))"

fun recovered_balance :: "string \<Rightarrow> recover_msg \<Rightarrow> event_body list \<Rightarrow> coin option res" where
  "recovered_balance target m [] = Inr None"
| "recovered_balance target m (e # es) =
     (if ev_type e = target
      then bind_res (foldM_res recover_attribute (None, None, None) (attributes e)) (\<lambda>acc.
        if recover_matches m acc then Inr (fst acc) else recovered_balance target m es)
      else recovered_balance target m es)"

definition handle_msg_recover_morse_account ::
  "(bool \<Rightarrow> bytes \<Rightarrow> recover_msg res) \<Rightarrow> int \<Rightarrow> bytes \<Rightarrow> bool \<Rightarrow> string \<Rightarrow> cosmos_tx \<Rightarrow>
   (recover_msg \<times> msg_recover_morse_account) res" where
  "handle_msg_recover_morse_account decode block_id encoded is_admin msg_id tx =
     bind_res (decode is_admin encoded) (\<lambda>m.
     bind_res (recovered_balance
         (if is_admin then ''pocket.migration.EventMorseAccountRecoveredAdmin''
          else ''pocket.migration.EventMorseAccountRecovered'') m (tx_events tx)) (\<lambda>found.
     bind_res (require ''[handleMsgRecoverMorseAccount] recovered balance not found in event'' found) (\<lambda>c.
     bind_res (big_int (amount c)) (\<lambda>a.
       Inr (m, \<lparr>mrm_id = msg_id, mrm_balance = (a, denom c), mrm_authority = rm_authority m,
                mrm_morse_src = to_lower (rm_morse_src m), mrm_shannon_dest = rm_shannon_dest m,
                mrm_block_id = block_id, mrm_transaction_id = tx_hash tx, mrm_message_id = msg_id,
                mrm_is_admin = is_admin\<rparr>)))))"

subsection \<open>Claims\<close>

record claim_item =
  ci_public_key :: bytes
  ci_morse_address :: "string option"
  ci_destination :: string
  ci_transaction_hash :: string
  ci_claimed_msg_id :: string

text \<open>\<open>morseAddress ?\<close> is false for the empty string too.\<close>

definition claim_key :: "crypto \<Rightarrow> claim_item \<Rightarrow> string res" where
  "claim_key c i = (case ci_morse_address i of
     Some (a # as) \<Rightarrow> Inr (to_lower (a # as)) | _ \<Rightarrow> morse_address c (ci_public_key i))"

definition mark_claimed :: "int \<Rightarrow> claim_item \<Rightarrow> morse_claimable hrow \<Rightarrow> morse_claimable hrow" where
  "mark_claimed b i r = r\<lparr>row_data := (row_data r)\<lparr>mc_claimed_at := Some b, mc_claimed := True,
     mc_shannon_dest := Some (ci_destination i), mc_transaction_id := Some (ci_transaction_hash i),
     mc_claimed_msg_id := Some (ci_claimed_msg_id i)\<rparr>\<rparr>"

definition update_morse_claimable_accounts ::
  "crypto \<Rightarrow> int \<Rightarrow> claim_item list \<Rightarrow> morse_claimable hrow sql list res" where
  "update_morse_claimable_accounts c b items =
     mapM_res (\<lambda>i. map_res (\<lambda>key. Update (\<lambda>r. row_id r = key) (mark_claimed b i)) (claim_key c i)) items"

definition claim_item_of :: "cosmos_msg \<Rightarrow> claim_item res" where
  "claim_item_of msg = (case decoded msg of
     ClaimMorseAccount dest _ key _ \<Rightarrow>
       Inr \<lparr>ci_public_key = key, ci_morse_address = None, ci_destination = dest,
            ci_transaction_hash = tx_hash (msg_tx msg), ci_claimed_msg_id = message_id msg\<rparr>
   | _ \<Rightarrow> throw ''unexpected message'')"

definition handle_msg_claim_morse_account ::
  "crypto \<Rightarrow> int \<Rightarrow> cosmos_msg list \<Rightarrow> msg_claim_morse_account tbl \<times> morse_claimable hrow list \<Rightarrow>
   (msg_claim_morse_account tbl \<times> morse_claimable hrow list) res" where
  "handle_msg_claim_morse_account c b msgs = (\<lambda>(claims, accounts).
     bind_res (mapM_res (handle_claim_morse_account_msg c) msgs) (\<lambda>rows.
     bind_res (mapM_res claim_item_of msgs) (\<lambda>items.
     bind_res (update_morse_claimable_accounts c b items) (\<lambda>ss.
       Inr (bulk_create cma_id rows claims, run_all (\<lambda>_. None) ss accounts)))))"

subsection \<open>Imports\<close>

record morse_account =
  mo_src_address :: string
  mo_app_stake :: "coin option"
  mo_supplier_stake :: "coin option"
  mo_unstaked_balance :: "coin option"
  mo_output_address :: string
  mo_unstaking_time :: "int option"

record import_msg =
  im_authority :: string
  im_hash :: bytes
  im_accounts :: "morse_account list"

record msg_import_morse_accounts =
  mim_id :: string
  mim_block_id :: int
  mim_transaction_id :: string
  mim_message_id :: string
  mim_hash :: string
  mim_authority :: string

text \<open>\<open>BigInt(c?.amount || 0)\<close> and \<open>c?.denom || ""\<close>; \<open>big_int\<close> of the empty string is zero.\<close>

definition coin_or_zero :: "coin option \<Rightarrow> (int \<times> string) res" where
  "coin_or_zero c = (case c of None \<Rightarrow> Inr (0, []) | Some c \<Rightarrow> map_res (\<lambda>a. (a, denom c)) (big_int (amount c)))"

definition import_account :: "string \<Rightarrow> morse_account \<Rightarrow> morse_claimable res" where
  "import_account msg_id a =
     bind_res (coin_or_zero (mo_app_stake a)) (\<lambda>app.
     bind_res (coin_or_zero (mo_supplier_stake a)) (\<lambda>sup.
     bind_res (coin_or_zero (mo_unstaked_balance a)) (\<lambda>bal.
       Inr \<lparr>mc_id = to_lower (mo_src_address a), mc_import_msg = msg_id, mc_app_stake = app,
            mc_supplier_stake = sup, mc_unstaked_balance = bal,
            mc_output_address = (if mo_output_address a = [] then None else Some (mo_output_address a)),
            mc_unstaking_time = mo_unstaking_time a, mc_claimed = False, mc_claimed_at = None,
            mc_shannon_dest = None, mc_transaction_id = None, mc_claimed_msg_id = None\<rparr>)))"

definition handle_msg_import_morse_claimable_accounts ::
  "crypto \<Rightarrow> (bytes \<Rightarrow> import_msg res) \<Rightarrow> int \<Rightarrow> bytes \<Rightarrow> string \<Rightarrow> string \<Rightarrow>
   (import_msg \<times> msg_import_morse_accounts \<times> morse_claimable list) res" where
  "handle_msg_import_morse_claimable_accounts c decode block_id encoded msg_id tx_id =
     bind_res (decode encoded) (\<lambda>m.
     bind_res (mapM_res (import_account msg_id) (im_accounts m)) (\<lambda>accounts.
       Inr (m, \<lparr>mim_id = msg_id, mim_block_id = block_id, mim_transaction_id = tx_id,
                mim_message_id = msg_id, mim_hash = c_to_hex c (im_hash m), mim_authority = im_authority m\<rparr>,
            accounts)))"

subsection \<open>Lemmas\<close>

lemma mark_claimed_simps [simp]:
  "row_id (mark_claimed b i r) = row_id r" "mc_claimed (row_data (mark_claimed b i r))"
  "mc_unstaked_balance (row_data (mark_claimed b i r)) = mc_unstaked_balance (row_data r)"
  by (simp_all add: mark_claimed_def)

lemma mark_claimed_again [simp]: "mark_claimed b i (mark_claimed b j r) = mark_claimed b i r"
  by (simp add: mark_claimed_def)

lemma run_claims:
  assumes "list_all2 (\<lambda>i s. \<exists>key. claim_key c i = Inr key \<and> s = Update (\<lambda>r. row_id r = key) (mark_claimed b i)) items ss"
  defines "keys \<equiv> {key. \<exists>i \<in> set items. claim_key c i = Inr key}"
  shows "list_all2 (\<lambda>r r'. if row_id r \<in> keys
       then \<exists>i \<in> set items. claim_key c i = Inr (row_id r) \<and> r' = mark_claimed b i r else r' = r) t (run_all (\<lambda>_. None) ss t)"
  using assms(1) unfolding keys_def
proof (induction items ss arbitrary: t rule: list_all2_induct)
  case Nil
  then show ?case by (simp add: list_all2_refl)
next
  case (Cons i items s ss)
  then obtain key where key: "claim_key c i = Inr key"
    and s: "s = Update (\<lambda>r. row_id r = key) (mark_claimed b i)" by blast
  let ?P = "\<lambda>items r r'. if row_id r \<in> {key. \<exists>i \<in> set items. claim_key c i = Inr key}
       then \<exists>i \<in> set items. claim_key c i = Inr (row_id r) \<and> r' = mark_claimed b i r else r' = r"
  have step: "?P (i # items) r r'" if "?P items (if row_id r = key then mark_claimed b i r else r) r'" for r r'
    using that key by (cases "row_id r = key") (auto split: if_splits)
  have "list_all2 (\<lambda>r r'. ?P items (if row_id r = key then mark_claimed b i r else r) r') t (run_all (\<lambda>_. None) (s # ss) t)"
    using Cons.IH [of "run_sql (\<lambda>_. None) s t"] by (simp add: s list_all2_map1)
  then show ?case by (rule list_all2_mono) (rule step)
qed

lemma recovered_balance_from:
  "recovered_balance target m es = Inr (Some c) \<Longrightarrow>
     \<exists>e \<in> set es. ev_type e = target \<and> (\<exists>morse shannon.
       foldM_res recover_attribute (None, None, None) (attributes e) = Inr (Some c, morse, shannon) \<and>
       recover_matches m (Some c, morse, shannon))"
  by (induction es) (fastforce simp: bind_eq_Inr split: if_splits)+

text \<open>
  Claiming Morse accounts changes exactly the imported accounts whose id is the address of a claimed
  public key: such an account is claimed at the block, for the destination, by the transaction and the message
  of a claim of its key, and keeps everything else. Every other row stays as it was.
\<close>

theorem claim_morse_account_marks:
  assumes "handle_msg_claim_morse_account c b msgs (claims, accounts) = Inr (claims', accounts')"
  shows "\<exists>items keys. mapM_res claim_item_of msgs = Inr items \<and> mapM_res (claim_key c) items = Inr keys \<and>
    list_all2 (\<lambda>r r'. if row_id r \<in> set keys
       then \<exists>i \<in> set items. claim_key c i = Inr (row_id r) \<and> r' = r\<lparr>row_data := (row_data r)\<lparr>mc_claimed_at := Some b,
         mc_claimed := True, mc_shannon_dest := Some (ci_destination i), mc_transaction_id := Some (ci_transaction_hash i),
         mc_claimed_msg_id := Some (ci_claimed_msg_id i)\<rparr>\<rparr> else r' = r) accounts accounts'"
proof -
  obtain items ss where items: "mapM_res claim_item_of msgs = Inr items"
    and upd: "update_morse_claimable_accounts c b items = Inr ss"
    and accounts': "accounts' = run_all (\<lambda>_. None) ss accounts"
    using assms by (auto simp: handle_msg_claim_morse_account_def res_eq_Inr)
  have ss: "list_all2 (\<lambda>i s. \<exists>key. claim_key c i = Inr key \<and> s = Update (\<lambda>r. row_id r = key) (mark_claimed b i)) items ss"
    using upd by (auto simp: update_morse_claimable_accounts_def mapM_res_Inr_iff map_res_eq_Inr elim: list_all2_mono)
  obtain keys where keys: "mapM_res (claim_key c) items = Inr keys" "set keys = {key. \<exists>i \<in> set items. claim_key c i = Inr key}"
  proof -
    have "\<exists>keys. list_all2 (\<lambda>i k. claim_key c i = Inr k) items keys" using ss
      by (induction rule: list_all2_induct) (auto simp: list_all2_Cons1)
    then obtain keys where k: "list_all2 (\<lambda>i k. claim_key c i = Inr k) items keys" by blast
    then have "set keys = {key. \<exists>i \<in> set items. claim_key c i = Inr key}"
      by (induction rule: list_all2_induct) auto
    with k show thesis by (intro that) (simp_all add: mapM_res_Inr_iff)
  qed
  show ?thesis
    by (intro exI conjI, rule items, rule keys(1))
      (use run_claims [OF ss, of accounts] in \<open>simp only: accounts' keys(2) mark_claimed_def\<close>)
qed

text \<open>
  The balance recorded for a recovered Morse account comes from an event of the message's own
  kind (admin or not) whose Morse and Shannon addresses are those of the message, letter case aside.
\<close>

theorem recover_morse_account_matches:
  assumes "handle_msg_recover_morse_account decode bid encoded adm mid tx = Inr (m, row)"
  shows "decode adm encoded = Inr m \<and> mrm_morse_src row = to_lower (rm_morse_src m) \<and>
    mrm_shannon_dest row = rm_shannon_dest m \<and>
    (\<exists>e \<in> set (tx_events tx). \<exists>c morse shannon.
       ev_type e = (if adm then ''pocket.migration.EventMorseAccountRecoveredAdmin''
                    else ''pocket.migration.EventMorseAccountRecovered'') \<and>
       foldM_res recover_attribute (None, None, None) (attributes e) = Inr (Some c, Some morse, Some shannon) \<and>
       to_lower morse = to_lower (rm_morse_src m) \<and> to_lower shannon = to_lower (rm_shannon_dest m) \<and>
       big_int (amount c) = Inr (fst (mrm_balance row)) \<and> snd (mrm_balance row) = denom c)"
proof -
  obtain c where c: "decode adm encoded = Inr m"
    "recovered_balance (if adm then ''pocket.migration.EventMorseAccountRecoveredAdmin''
       else ''pocket.migration.EventMorseAccountRecovered'') m (tx_events tx) = Inr (Some c)"
    "big_int (amount c) = Inr (fst (mrm_balance row))" "snd (mrm_balance row) = denom c"
    "mrm_morse_src row = to_lower (rm_morse_src m)" "mrm_shannon_dest row = rm_shannon_dest m"
    using assms by (auto simp: handle_msg_recover_morse_account_def res_eq_Inr)
  from recovered_balance_from [OF c(2)] show ?thesis
    using c by (auto simp: recover_matches_def)
qed

definition claim_tx_example :: cosmos_tx where
  "claim_tx_example = \<lparr>tx_hash = ''AB'', tx_idx = 0, tx_code = 0,
     tx_events = [\<lparr>ev_type = ''pocket.migration.EventMorseAccountClaimed'',
       attributes = [(''claimed_balance'', ''5upokt'')]\<rparr>,
      \<lparr>ev_type = ''pocket.migration.EventMorseAccountRecovered'',
       attributes = [(''recovered_balance'', ''7upokt''), (''morse_src_address'', ''a1''), (''shannon_dest_address'', ''pokt1'')]\<rparr>]\<rparr>"

definition claim_msg_example :: cosmos_msg where
  "claim_msg_example = \<lparr>msg_idx = 0, type_url = ''/pocket.migration.MsgClaimMorseAccount'',
     decoded = ClaimMorseAccount ''pokt1'' ''pokt1'' (replicate 32 1) [2], msg_tx = claim_tx_example, msg_height = 9\<rparr>"

definition claimable_example :: morse_claimable where
  "claimable_example = \<lparr>mc_id = concat (replicate 20 ''01''), mc_import_msg = ''m'', mc_app_stake = (0, []),
     mc_supplier_stake = (0, []), mc_unstaked_balance = (5, ''upokt''), mc_output_address = None,
     mc_unstaking_time = None, mc_claimed = False, mc_claimed_at = None, mc_shannon_dest = None,
     mc_transaction_id = None, mc_claimed_msg_id = None\<rparr>"

theorem claim_morse_account_marks_witness:
  "\<exists>claims' r'. handle_msg_claim_morse_account crypto_example 9 [claim_msg_example]
       (\<lambda>_. None, [new_row mc_id 3 claimable_example]) = Inr (claims', [r']) \<and> mc_claimed (row_data r')"
proof -
  have "case handle_msg_claim_morse_account crypto_example 9 [claim_msg_example]
      (\<lambda>_. None, [new_row mc_id 3 claimable_example]) of Inr _ \<Rightarrow> True | Inl _ \<Rightarrow> False"
    by code_simp
  then obtain claims' accounts' where run: "handle_msg_claim_morse_account crypto_example 9 [claim_msg_example]
      (\<lambda>_. None, [new_row mc_id 3 claimable_example]) = Inr (claims', accounts')"
    by (auto split: sum.splits)
  have "bind_res (mapM_res claim_item_of [claim_msg_example]) (mapM_res (claim_key crypto_example)) =
      Inr [mc_id claimable_example]"
    by code_simp
  with claim_morse_account_marks [OF run] obtain r' where "accounts' = [r']" "mc_claimed (row_data r')"
    by (auto simp: bind_eq_Inr list_all2_Cons1)
  with run show ?thesis by auto
qed

theorem recover_morse_account_matches_witness:
  "\<exists>m row. handle_msg_recover_morse_account (\<lambda>_ _. Inr \<lparr>rm_authority = ''gov'', rm_morse_src = ''A1'', rm_shannon_dest = ''pokt1''\<rparr>)
       9 [] False ''AB-0'' claim_tx_example = Inr (m, row) \<and> mrm_morse_src row = ''a1''"
proof -
  have "case handle_msg_recover_morse_account (\<lambda>_ _. Inr \<lparr>rm_authority = ''gov'', rm_morse_src = ''A1'', rm_shannon_dest = ''pokt1''\<rparr>)
       9 [] False ''AB-0'' claim_tx_example of Inr (m, row) \<Rightarrow> rm_morse_src m = ''A1'' | Inl _ \<Rightarrow> False"
    by code_simp
  then obtain m row where run: "handle_msg_recover_morse_account (\<lambda>_ _. Inr \<lparr>rm_authority = ''gov'', rm_morse_src = ''A1'', rm_shannon_dest = ''pokt1''\<rparr>)
       9 [] False ''AB-0'' claim_tx_example = Inr (m, row)" "rm_morse_src m = ''A1''"
    by (auto split: sum.splits)
  have "to_lower ''A1'' = ''a1''" by code_simp
  with recover_morse_account_matches [OF run(1)] run show ?thesis by metis
qed

end
