(* ===== verification/Reconcile.thy ===== *)
theory Reconcile
  imports Store
begin

text \<open>
  The reconciliation of a historical table with the chain's answer, which \<open>reconcileApplications\<close> and
  \<open>reconcileValidators\<close> share: every entry \<open>c\<close> of the answer offers a new value \<open>sync c e\<close> of the stored
  entity \<open>e\<close> with its key, or nothing when the entity needs no write; tracked unstaking entities the
  answer does not list are closed; the rest is left alone. The locale states it once, for any entity and
  any answer; \<open>Applications\<close> and \<open>Validators\<close> interpret it on their own records.
\<close>

definition chain_entry :: "('c \<Rightarrow> string) \<Rightarrow> 'c list \<Rightarrow> string \<Rightarrow> 'c option" where
  "chain_entry key chain = map_of (map (\<lambda>c. (key c, c)) chain)"

lemma chain_entry_mem:
  "distinct (map key chain) \<Longrightarrow> chain_entry key chain i = Some c \<longleftrightarrow> c \<in> set chain \<and> key c = i"
  by (auto simp: chain_entry_def map_of_eq_Some_iff comp_def)

lemma chain_entry_None: "chain_entry key chain i = None \<longleftrightarrow> i \<notin> set (map key chain)"
  by (auto simp: chain_entry_def map_of_eq_None_iff)

text \<open>What is written, and what becomes of a stored entity.\<close>

definition chain_upserts ::
  "('c \<Rightarrow> string) \<Rightarrow> ('c \<Rightarrow> 'e \<Rightarrow> 'e option) \<Rightarrow> 'c list \<Rightarrow> (string \<Rightarrow> 'e option) \<Rightarrow> 'e list" where
  "chain_upserts key sync chain m = List.map_filter (\<lambda>c. Option.bind (m (key c)) (sync c)) chain"

definition chain_dropped ::
  "('e \<Rightarrow> string) \<Rightarrow> ('c \<Rightarrow> string) \<Rightarrow> ('e \<Rightarrow> stake_status) \<Rightarrow> ('e \<Rightarrow> 'e) \<Rightarrow> int \<Rightarrow> 'c list \<Rightarrow> 'e hrow list \<Rightarrow> 'e list" where
  "chain_dropped ident key status close b chain t =
     map close (filter (\<lambda>e. ident e \<notin> set (map key chain) \<and> status e = Unstaking)
       (fetch_all b (\<lambda>e. status e = Staked) t @ fetch_all b (\<lambda>e. status e = Unstaking) t))"

definition reconciled_by ::
  "('e \<Rightarrow> string) \<Rightarrow> ('c \<Rightarrow> string) \<Rightarrow> ('e \<Rightarrow> stake_status) \<Rightarrow> ('c \<Rightarrow> 'e \<Rightarrow> 'e option) \<Rightarrow> ('e \<Rightarrow> 'e) \<Rightarrow>
   'c list \<Rightarrow> 'e \<Rightarrow> 'e" where
  "reconciled_by ident key status sync close chain e = (case chain_entry key chain (ident e) of
     Some c \<Rightarrow> (case sync c e of None \<Rightarrow> e | Some e' \<Rightarrow> e')
   | None \<Rightarrow> if status e = Unstaking then close e else e)"

lemma chain_upserts_mem:
  "x \<in> set (chain_upserts key sync chain m) \<longleftrightarrow> (\<exists>c e. c \<in> set chain \<and> m (key c) = Some e \<and> sync c e = Some x)"
  by (auto simp: chain_upserts_def set_map_filter bind_eq_Some_conv)

lemma chain_upserts_Cons:
  "chain_upserts key sync (c # chain) m =
     (case Option.bind (m (key c)) (sync c) of None \<Rightarrow> [] | Some x \<Rightarrow> [x]) @ chain_upserts key sync chain m"
  by (simp add: chain_upserts_def map_filter_simps split: option.split)

lemma chain_upserts_Nil [simp]: "chain_upserts key sync [] m = []"
  by (simp add: chain_upserts_def map_filter_simps)

lemma chain_dropped_mem:
  assumes "hist_ok ident b t"
  shows "x \<in> set (chain_dropped ident key status close b chain t) \<longleftrightarrow> (\<exists>e. live_map t (ident e) = Some e \<and>
    status e = Unstaking \<and> chain_entry key chain (ident e) = None \<and> x = close e)"
  by (auto simp: chain_dropped_def fetch_all_iff [OF assms] chain_entry_None)

locale reconciliation =
  fixes ident :: "'e \<Rightarrow> string" and key :: "'c \<Rightarrow> string" and status :: "'e \<Rightarrow> stake_status"
    and sync :: "'c \<Rightarrow> 'e \<Rightarrow> 'e option" and close :: "'e \<Rightarrow> 'e"
  assumes ident_sync: "sync c e = Some e' \<Longrightarrow> ident e' = ident e"
    and ident_close: "ident (close e) = ident e"
    and status_close: "status (close e) \<noteq> Unstaking"
begin

lemma ident_reconciled: "ident (reconciled_by ident key status sync close chain e) = ident e"
  by (auto simp: reconciled_by_def ident_close dest: ident_sync split: option.split)

lemma written_entity:
  assumes "hist_ok ident b t" "distinct (map key chain)"
    and "x \<in> set (chain_upserts key sync chain (live_map t) @ chain_dropped ident key status close b chain t)"
  shows "\<exists>e. live_map t (ident x) = Some e \<and> x = reconciled_by ident key status sync close chain e"
proof -
  consider c e where "c \<in> set chain" "live_map t (key c) = Some e" "sync c e = Some x"
    | e where "live_map t (ident e) = Some e" "status e = Unstaking" "chain_entry key chain (ident e) = None" "x = close e"
    using assms(3) by (auto simp: chain_upserts_mem chain_dropped_mem [OF assms(1)])
  then show ?thesis
  proof cases
    case 1
    then have "ident e = key c" by (simp add: live_map_ident [OF assms(1)])
    then have "chain_entry key chain (ident e) = Some c" using 1 chain_entry_mem [OF assms(2)] by simp
    with 1 \<open>ident e = key c\<close> show ?thesis by (simp add: reconciled_by_def ident_sync)
  next
    case 2
    then show ?thesis by (simp add: reconciled_by_def ident_close)
  qed
qed

lemma unwritten_entity:
  assumes "hist_ok ident b t" "distinct (map key chain)" "live_map t i = Some e"
    and "i \<notin> ident ` set (chain_upserts key sync chain (live_map t) @ chain_dropped ident key status close b chain t)"
  shows "reconciled_by ident key status sync close chain e = e"
proof -
  let ?ws = "set (chain_upserts key sync chain (live_map t) @ chain_dropped ident key status close b chain t)"
  have e: "ident e = i" using live_map_ident [OF assms(1,3)] .
  have new: "x \<notin> ?ws" if "ident x = ident e" for x using assms(4) that e by auto
  have "sync c e = None" if "chain_entry key chain i = Some c" for c
  proof (cases "sync c e")
    case (Some x)
    then have "x \<in> ?ws" using that assms(3) by (auto simp: chain_entry_mem [OF assms(2)] chain_upserts_mem)
    with new ident_sync [OF Some] show ?thesis by blast
  qed
  moreover have "status e \<noteq> Unstaking" if "chain_entry key chain i = None"
  proof
    assume "status e = Unstaking"
    then have "close e \<in> ?ws" using that assms(3) e by (auto simp: chain_dropped_mem [OF assms(1)])
    with new ident_close show False by blast
  qed
  ultimately show ?thesis using e by (simp add: reconciled_by_def split: option.split)
qed

lemma reconciled_rows:
  assumes "hist_ok ident b t" "distinct (map key chain)"
  shows "live_map (put_versions ident b (chain_upserts key sync chain (live_map t) @
      chain_dropped ident key status close b chain t) t) i =
    map_option (reconciled_by ident key status sync close chain) (live_map t i)"
  by (rule live_map_put_mapped [OF assms(1) written_entity [OF assms] unwritten_entity [OF assms]])

text \<open>A table that is the outcome of a reconciliation has nothing left to close.\<close>

lemma none_dropped:
  assumes "hist_ok ident b t'"
    and "\<And>i. live_map t' i = map_option (reconciled_by ident key status sync close chain) (live_map t i)"
  shows "chain_dropped ident key status close b chain t' = []"
proof -
  have "status e \<noteq> Unstaking"
    if e: "live_map t' (ident e) = Some e" "chain_entry key chain (ident e) = None" for e
  proof -
    obtain d where d: "e = reconciled_by ident key status sync close chain d"
      using e(1) assms(2) [of "ident e"] by auto
    then have "chain_entry key chain (ident d) = None" using e(2) by (simp add: ident_reconciled)
    then show ?thesis by (simp add: d reconciled_by_def status_close)
  qed
  then have "x \<notin> set (chain_dropped ident key status close b chain t')" for x
    using chain_dropped_mem [OF assms(1)] by blast
  then show ?thesis using hd_in_set by blast
qed

end

end
