(* ===== verification/Links.thy ===== *)
theory Links
  imports Store
begin

text \<open>
  Historical tables of links: a row joins an owner with an item (an application with a service it is
  staked for, or with a gateway it delegates to) and its id is made of both. The locale \<open>link_table\<close>
  holds what the handlers rely on when they list, remove or move the links of an owner; \<open>Applications\<close>
  interprets it for its services and its delegations. \<open>plain_key\<close> is the owners whose ids cannot be
  confused with the dash of the id.
\<close>

definition links_ok ::
  "('e \<Rightarrow> string) \<Rightarrow> ('e \<Rightarrow> string) \<Rightarrow> ('e \<Rightarrow> string) \<Rightarrow> (string \<Rightarrow> string \<Rightarrow> string) \<Rightarrow> (string \<Rightarrow> bool) \<Rightarrow> 'e set \<Rightarrow> bool" where
  "links_ok ident owner item link plain_key es \<longleftrightarrow>
     (\<forall>e \<in> es. ident e = link (owner e) (item e) \<and> plain_key (owner e))"

lemma links_ok_put:
  assumes "links_ok ident owner item link plain_key (entities t)"
    and "links_ok ident owner item link plain_key (set es)"
  shows "links_ok ident owner item link plain_key (entities (put_versions ident b es t))"
  using assms entities_put_versions [of ident b es t] by (auto simp: links_ok_def)

locale link_table =
  fixes ident :: "'e \<Rightarrow> string" and owner :: "'e \<Rightarrow> string" and item :: "'e \<Rightarrow> string"
    and link :: "string \<Rightarrow> string \<Rightarrow> string" and plain_key :: "string \<Rightarrow> bool"
  assumes link_inject: "plain_key a \<Longrightarrow> plain_key a' \<Longrightarrow> link a i = link a' i' \<longleftrightarrow> a = a' \<and> i = i'"
begin

lemma live_link:
  assumes "hist_ok ident b t" "links_ok ident owner item link plain_key (entities t)" "live_map t k = Some e"
  shows "ident e = k" "k = link (owner e) (item e)" "plain_key (owner e)"
  using assms(2) live_map_entities [OF assms(1,3)] live_map_ident [OF assms(1,3)] by (auto simp: links_ok_def)

lemma live_link_at:
  assumes "hist_ok ident b t" "links_ok ident owner item link plain_key (entities t)"
    and "live_map t (link a i) = Some e" "plain_key a"
  shows "owner e = a" "item e = i"
  using live_link [OF assms(1-3)] assms(4) by (auto simp: link_inject)

text \<open>The ids of the listed links of some owners or items.\<close>

lemma listed_idents:
  assumes "hist_ok ident b t" "links_ok ident owner item link plain_key (entities t)" "plain_key a"
    and q: "\<And>e. p e = q (owner e) (item e)"
  shows "link a i \<in> ident ` set (fetch_all b p t) \<longleftrightarrow> q a i \<and> live_map t (link a i) \<noteq> None"
proof
  assume "link a i \<in> ident ` set (fetch_all b p t)"
  then obtain e where "live_map t (link a i) = Some e" "p e" by (auto simp: fetch_all_iff [OF assms(1)])
  then show "q a i \<and> live_map t (link a i) \<noteq> None"
    using live_link_at [OF assms(1,2) _ assms(3)] by (auto simp: q)
next
  assume *: "q a i \<and> live_map t (link a i) \<noteq> None"
  then obtain e where e: "live_map t (link a i) = Some e" by blast
  have "ident e = link a i" "p e"
    using live_link(1) [OF assms(1,2) e] live_link_at [OF assms(1,2) e assms(3)] * by (simp_all add: q)
  with e show "link a i \<in> ident ` set (fetch_all b p t)"
    by (intro image_eqI [of _ _ e]) (simp_all add: fetch_all_iff [OF assms(1)])
qed

lemma links_dropped:
  assumes "hist_ok ident b t" "links_ok ident owner item link plain_key (entities t)" "plain_key a"
    and "\<And>e. p e = q (owner e) (item e)"
  shows "live_map (remove_versions b (map ident (fetch_all b p t)) t) (link a i) \<noteq> None \<longleftrightarrow>
    \<not> q a i \<and> live_map t (link a i) \<noteq> None"
  using listed_idents [where p = p and q = q and i = i, OF assms] by (auto simp: live_map_remove_versions [OF assms(1)])

lemma links_written:
  assumes "hist_ok ident b t" "links_ok ident owner item link plain_key (set es)" "plain_key a"
  shows "live_map (put_versions ident b es t) (link a i) \<noteq> None \<longleftrightarrow>
    (\<exists>e \<in> set es. owner e = a \<and> item e = i) \<or> live_map t (link a i) \<noteq> None"
proof -
  have "link a i \<in> ident ` set es \<longleftrightarrow> (\<exists>e \<in> set es. owner e = a \<and> item e = i)"
    using assms(2,3) by (force simp: links_ok_def link_inject image_iff)
  then show ?thesis by (simp only: live_map_put_dom [OF assms(1)])
qed

text \<open>The links of one owner are written for another one and removed.\<close>

lemma links_moved:
  assumes "hist_ok ident b t" "links_ok ident owner item link plain_key (entities t)"
    and "plain_key src" "plain_key dst" "src \<noteq> dst"
    and mk: "\<And>e. owner (mk e) = dst \<and> item (mk e) = item e \<and> ident (mk e) = link dst (item e)"
    and xs: "xs = fetch_all b (\<lambda>e. owner e = src) t"
    and t': "t' = remove_versions b (map ident xs) (put_versions ident b (map mk xs) t)"
  shows "live_map t' (link src i) = None"
    and "live_map t' (link dst i) \<noteq> None \<longleftrightarrow> live_map t (link dst i) \<noteq> None \<or> live_map t (link src i) \<noteq> None"
proof -
  have ok: "links_ok ident owner item link plain_key (set (map mk xs))"
    using mk assms(4) by (auto simp: links_ok_def)
  have listed: "link a i \<in> ident ` set xs \<longleftrightarrow> a = src \<and> live_map t (link a i) \<noteq> None" if "plain_key a" for a
    unfolding xs using that by (rule listed_idents [OF assms(1,2)]) (rule refl)
  have "(\<exists>e \<in> set xs. item e = i) \<longleftrightarrow> live_map t (link src i) \<noteq> None"
  proof
    assume "\<exists>e \<in> set xs. item e = i"
    then obtain e where e: "live_map t (ident e) = Some e" "owner e = src" "item e = i"
      by (auto simp: xs fetch_all_iff [OF assms(1)])
    then show "live_map t (link src i) \<noteq> None" using live_link(2) [OF assms(1,2) e(1)] by auto
  next
    assume "live_map t (link src i) \<noteq> None"
    then obtain e where e: "live_map t (link src i) = Some e" by blast
    then have "e \<in> set xs" "item e = i"
      using live_link(1) [OF assms(1,2) e] live_link_at [OF assms(1,2) e assms(3)]
      by (simp_all add: xs fetch_all_iff [OF assms(1)])
    then show "\<exists>e \<in> set xs. item e = i" by blast
  qed
  then have put: "live_map (put_versions ident b (map mk xs) t) (link a i) \<noteq> None \<longleftrightarrow>
      a = dst \<and> live_map t (link src i) \<noteq> None \<or> live_map t (link a i) \<noteq> None" if "plain_key a" for a
    unfolding links_written [OF assms(1) ok that] using mk by auto
  show "live_map t' (link src i) = None"
    and "live_map t' (link dst i) \<noteq> None \<longleftrightarrow> live_map t (link dst i) \<noteq> None \<or> live_map t (link src i) \<noteq> None"
    using listed [OF assms(3)] listed [OF assms(4)] put [OF assms(3)] put [OF assms(4)] assms(5)
    by (auto simp: t' live_map_remove_versions [OF hist_ok_put_versions [OF assms(1)]])
qed

end

end
