(* ===== verification/Applications.thy ===== *)
theory Applications
  imports Migration Json Reconcile Links
begin

text \<open>
  \<open>src/mappings/pocket/applications.ts\<close> with its readers of \<open>pocket/pagination.ts\<close>: the applications
  of the network, the services they are staked for and the gateways they delegate to. The tables
  whose current rows the handlers list are historical tables; the rows of messages and events are
  only written. A batch of messages or events is handled one by one: each handler reads the
  applications as they were before the batch, and the changed applications are written together at
  the end. \<open>b\<close> is the height of the block, which is its id and the historical unit.
  Entities saved through the store are written when the block ends, after the UPDATE statements
  the handlers send themselves.
\<close>

datatype app_unbonding_reason = AppElective | AppBelowMinimumStake | AppMigration | AppTransfer

record application =
  app_id :: string
  app_account_id :: string
  app_stake_amount :: int
  app_stake_denom :: string
  app_stake_status :: stake_status
  app_transferring_to :: "string option"
  app_transfer_end_height :: "int option"
  app_transfer_end_block :: "int option"
  app_unstaking_begin_block :: "int option"
  app_unstaking_end_block :: "int option"
  app_unstaking_reason :: "app_unbonding_reason option"
  app_unstaking_end_height :: "int option"
  app_destination :: "string option"
  app_source :: "string option"
  app_transferred_from_at :: "int option"

record app_service =
  as_id :: string
  as_service_id :: string
  as_application_id :: string

record app_gateway =
  ag_id :: string
  ag_gateway_id :: string
  ag_application_id :: string

text \<open>The service rows of a stake or claim message; \<open>mas_msg_id\<close> is its stake or claim message.\<close>

record msg_app_service =
  mas_id :: string
  mas_service_id :: string
  mas_msg_id :: string

record msg_stake_app =
  msa_id :: string
  msa_transaction_id :: string
  msa_block_id :: int
  msa_application_id :: string
  msa_stake_amount :: int
  msa_stake_denom :: string

record msg_claim_app =
  mca_id :: string
  mca_transaction_id :: string
  mca_block_id :: int
  mca_application_id :: string
  mca_stake :: "int \<times> string"
  mca_balance :: "int \<times> string"
  mca_shannon_signing :: string
  mca_morse_signature :: string
  mca_morse_public_key :: string
  mca_morse_src :: string

record msg_app_gateway =
  mag_id :: string
  mag_application_id :: string
  mag_gateway_id :: string
  mag_transaction_id :: string
  mag_block_id :: int

record msg_unstake_app =
  mua_id :: string
  mua_application_id :: string
  mua_transaction_id :: string
  mua_block_id :: int

record app_transfer =
  tr_id :: string
  tr_source :: string
  tr_destination :: string
  tr_transaction_id :: "string option"
  tr_block_id :: int
  tr_error :: "string option"

record app_unbonding =
  ub_id :: string
  ub_application_id :: string
  ub_block_id :: int
  ub_unstaking_end_height :: int
  ub_session_end_height :: int
  ub_reason :: int

record app_db =
  applications :: "application hrow list"
  app_services :: "app_service hrow list"
  app_gateways :: "app_gateway hrow list"
  msg_stake_apps :: "msg_stake_app hrow list"
  msg_stake_app_services :: "msg_app_service hrow list"
  msg_claim_apps :: "msg_claim_app hrow list"
  msg_claim_app_services :: "msg_app_service hrow list"
  msg_delegates :: "msg_app_gateway tbl"
  msg_undelegates :: "msg_app_gateway tbl"
  msg_unstake_apps :: "msg_unstake_app tbl"
  msg_transfers :: "app_transfer tbl"
  transfer_begins :: "app_transfer tbl"
  transfer_ends :: "app_transfer tbl"
  transfer_errors :: "app_transfer tbl"
  unbonding_begins :: "app_unbonding tbl"
  unbonding_ends :: "app_unbonding tbl"
  morse_claimables :: "morse_claimable hrow list"

subsection \<open>Readers\<close>

definition fetch_all_application_by_status :: "int \<Rightarrow> stake_status \<Rightarrow> app_db \<Rightarrow> application list" where
  "fetch_all_application_by_status b s st = fetch_all b (\<lambda>a. app_stake_status a = s) (applications st)"

definition fetch_all_application_service_by_application_id :: "int \<Rightarrow> string \<Rightarrow> app_db \<Rightarrow> app_service list" where
  "fetch_all_application_service_by_application_id b i st =
     fetch_all b (\<lambda>s. as_application_id s = i) (app_services st)"

definition fetch_all_application_gateway_by_application_id :: "int \<Rightarrow> string \<Rightarrow> app_db \<Rightarrow> app_gateway list" where
  "fetch_all_application_gateway_by_application_id b i st =
     fetch_all b (\<lambda>g. ag_application_id g = i) (app_gateways st)"

definition fetch_all_application_gateway_by_gateway_id :: "int \<Rightarrow> string \<Rightarrow> app_db \<Rightarrow> app_gateway list" where
  "fetch_all_application_gateway_by_gateway_id b i st =
     fetch_all b (\<lambda>g. ag_gateway_id g = i) (app_gateways st)"

definition get_application :: "string \<Rightarrow> app_db \<Rightarrow> application option" where
  "get_application i st = live_map (applications st) i"

definition save_applications :: "int \<Rightarrow> application list \<Rightarrow> app_db \<Rightarrow> app_db" where
  "save_applications b as st = st\<lparr>applications := put_versions app_id b as (applications st)\<rparr>"

subsection \<open>Stake and claim\<close>

fun get_app_unbonding_reason_from_sdk :: "int \<Rightarrow> app_unbonding_reason res" where
  "get_app_unbonding_reason_from_sdk item =
     (if item = 0 then Inr AppElective
      else if item = 1 then Inr AppBelowMinimumStake
      else if item = 2 then Inr AppMigration
      else throw (''Unknown ApplicationUnbondingReason='' @ show_int item))"

definition application_unbonding_reason_from_json :: "string \<Rightarrow> int" where
  "application_unbonding_reason_from_json s =
     (if s = ''APPLICATION_UNBONDING_REASON_ELECTIVE'' then 0
      else if s = ''APPLICATION_UNBONDING_REASON_BELOW_MIN_STAKE'' then 1
      else if s = ''APPLICATION_UNBONDING_REASON_MIGRATION'' then 2
      else - 1)"

text \<open>The staked application replaces the stored one, but for its transfer in progress.\<close>

definition stake_application ::
  "string \<Rightarrow> string \<Rightarrow> string list \<Rightarrow> int \<Rightarrow> string \<Rightarrow> app_db \<Rightarrow>
   application \<times> msg_app_service list \<times> app_service list" where
  "stake_application addr msg_id svcs amt den st =
     (let prev = get_application addr st in
      (\<lparr>app_id = addr, app_account_id = addr, app_stake_amount = amt, app_stake_denom = den,
        app_stake_status = Staked,
        app_transferring_to = Option.bind prev app_transferring_to,
        app_transfer_end_height = Option.bind prev app_transfer_end_height,
        app_transfer_end_block = None, app_unstaking_begin_block = None, app_unstaking_end_block = None,
        app_unstaking_reason = None, app_unstaking_end_height = None, app_destination = None,
        app_source = None, app_transferred_from_at = None\<rparr>,
       map (\<lambda>s. \<lparr>mas_id = get_msg_stake_service_id msg_id s, mas_service_id = s, mas_msg_id = msg_id\<rparr>) svcs,
       map (\<lambda>s. \<lparr>as_id = get_stake_service_id addr s, as_service_id = s, as_application_id = addr\<rparr>) svcs))"

definition stake_coin :: "coin option \<Rightarrow> (int \<times> string) res" where
  "stake_coin c = coin_or_zero c"

definition handle_app_msg_stake_one ::
  "int \<Rightarrow> cosmos_msg \<Rightarrow> app_db \<Rightarrow>
   (msg_stake_app \<times> application \<times> msg_app_service list \<times> app_service list) res" where
  "handle_app_msg_stake_one b msg st = (case decoded msg of
     StakeApplication addr stk svcs \<Rightarrow>
       map_res (\<lambda>(amt, den).
         (\<lparr>msa_id = message_id msg, msa_transaction_id = tx_hash (msg_tx msg), msa_block_id = b,
           msa_application_id = addr, msa_stake_amount = amt, msa_stake_denom = den\<rparr>,
          stake_application addr (message_id msg) svcs amt den st))
         (stake_coin stk)
   | _ \<Rightarrow> throw ''unexpected message'')"

definition handle_msg_claim_morse_application_one ::
  "crypto \<Rightarrow> int \<Rightarrow> cosmos_msg \<Rightarrow> app_db \<Rightarrow>
   (msg_claim_app \<times> application \<times> msg_app_service list \<times> app_service list) res" where
  "handle_msg_claim_morse_application_one c b msg st = (case decoded msg of
     ClaimMorseApplication dest signing key signature config \<Rightarrow>
       bind_res (event_coins ''pocket.migration.EventMorseApplicationClaimed''
           [''claimed_balance'', ''claimed_application_stake''] (tx_events (msg_tx msg))) (\<lambda>coins.
       bind_res (require ''[handleMsgClaimMorseApplication] stake coin not found in event''
           (map_of coins ''claimed_application_stake'')) (\<lambda>stk.
       bind_res (require ''[handleMsgClaimMorseApplication] balance coin not found in event''
           (map_of coins ''claimed_balance'')) (\<lambda>bal.
       bind_res (big_int (amount stk)) (\<lambda>stake_amount.
       bind_res (big_int (amount bal)) (\<lambda>balance_amount.
       bind_res (morse_address c key) (\<lambda>src.
       bind_res (require ''TypeError: serviceConfig is undefined'' config) (\<lambda>service.
         Inr (\<lparr>mca_id = message_id msg, mca_transaction_id = tx_hash (msg_tx msg), mca_block_id = b,
               mca_application_id = dest, mca_stake = (stake_amount, denom stk),
               mca_balance = (balance_amount, denom bal), mca_shannon_signing = signing,
               mca_morse_signature = c_to_hex c signature, mca_morse_public_key = c_to_hex c key,
               mca_morse_src = src\<rparr>,
              stake_application dest (message_id msg) [service]
                (stake_amount + (case get_application dest st of None \<Rightarrow> 0 | Some a \<Rightarrow> app_stake_amount a))
                (denom stk) st))))))))
   | _ \<Rightarrow> throw ''unexpected message'')"

text \<open>
  \<open>appServices\<close>: \<open>new Set(serviceId)\<close> is the set of the characters of the string, so the first
  service of an address enters as its characters; the later ones are added whole.
\<close>

definition js_string_set :: "string \<Rightarrow> string list" where
  "js_string_set s = js_set (map (\<lambda>c. [c]) s)"

definition note_service :: "(string \<times> string list) list \<Rightarrow> string \<times> string \<Rightarrow> (string \<times> string list) list" where
  "note_service d = (\<lambda>(addr, service). case map_of d addr of
     None \<Rightarrow> dict_set addr (js_string_set service) d
   | Some svcs \<Rightarrow> dict_set addr (add_unique service svcs) d)"

definition noted_services :: "(string \<times> string) list \<Rightarrow> (string \<times> string list) list" where
  "noted_services entries = foldl note_service [] entries"

text \<open>The rows of the \<open>UPDATE\<close>: current, of a noted application, with a service that was not noted.\<close>

definition dropped_service :: "(string \<times> string list) list \<Rightarrow> app_service \<Rightarrow> bool" where
  "dropped_service d s \<longleftrightarrow>
     list_ex (\<lambda>(addr, svcs). as_application_id s = addr \<and> as_service_id s \<notin> set svcs) d"

definition write_services ::
  "int \<Rightarrow> (string \<times> string) list \<Rightarrow> app_service list \<Rightarrow> app_service hrow list \<Rightarrow> app_service hrow list" where
  "write_services b entries rows t =
     put_versions as_id b rows (close_data b (dropped_service (noted_services entries)) t)"

definition msg_services :: "cosmos_msg \<Rightarrow> (string \<times> string) list" where
  "msg_services msg = (case decoded msg of
     StakeApplication addr _ svcs \<Rightarrow> map (\<lambda>s. (addr, s)) svcs
   | ClaimMorseApplication dest _ _ _ (Some s) \<Rightarrow> [(dest, s)]
   | _ \<Rightarrow> [])"

definition handle_app_msg_stake :: "int \<Rightarrow> cosmos_msg list \<Rightarrow> app_db \<Rightarrow> app_db res" where
  "handle_app_msg_stake b msgs st =
     bind_res (mapM_res (\<lambda>m. handle_app_msg_stake_one b m st) msgs) (\<lambda>rs.
     bind_res (bulk_rows msa_id (Some msa_block_id) b ByBlockId (map fst rs) (msg_stake_apps st)) (\<lambda>stakes.
     bind_res (bulk_rows mas_id None b ByBlockRange (concat (map (\<lambda>(_, _, ms, _). ms) rs))
         (msg_stake_app_services st)) (\<lambda>stake_services.
       Inr (save_applications b (map (\<lambda>(_, a, _, _). a) rs) st
         \<lparr>app_services := write_services b (concat (map msg_services msgs))
              (concat (map (\<lambda>(_, _, _, ss). ss) rs)) (app_services st),
          msg_stake_apps := stakes, msg_stake_app_services := stake_services\<rparr>))))"

definition claim_app_item :: "cosmos_msg \<Rightarrow> claim_item res" where
  "claim_app_item msg = (case decoded msg of
     ClaimMorseApplication dest _ key _ _ \<Rightarrow>
       Inr \<lparr>ci_public_key = key, ci_morse_address = None, ci_destination = dest,
            ci_transaction_hash = tx_hash (msg_tx msg), ci_claimed_msg_id = message_id msg\<rparr>
   | _ \<Rightarrow> throw ''unexpected message'')"

definition handle_msg_claim_morse_application ::
  "crypto \<Rightarrow> int \<Rightarrow> cosmos_msg list \<Rightarrow> app_db \<Rightarrow> app_db res" where
  "handle_msg_claim_morse_application c b msgs st =
     bind_res (mapM_res (\<lambda>m. handle_msg_claim_morse_application_one c b m st) msgs) (\<lambda>rs.
     bind_res (bulk_rows mca_id (Some mca_block_id) b ByBlockId (map fst rs) (msg_claim_apps st)) (\<lambda>claims.
     bind_res (bulk_rows mas_id None b ByBlockId (concat (map (\<lambda>(_, _, ms, _). ms) rs))
         (msg_claim_app_services st)) (\<lambda>claim_services.
     bind_res (mapM_res claim_app_item msgs) (\<lambda>items.
     bind_res (update_morse_claimable_accounts c b items) (\<lambda>ss.
       Inr (save_applications b (map (\<lambda>(_, a, _, _). a) rs) st
         \<lparr>app_services := write_services b (concat (map msg_services msgs))
              (concat (map (\<lambda>(_, _, _, ss). ss) rs)) (app_services st),
          msg_claim_apps := claims, msg_claim_app_services := claim_services,
          morse_claimables := run_all (\<lambda>_. None) ss (morse_claimables st)\<rparr>))))))"

subsection \<open>Delegation, unstake and transfer messages\<close>

definition handle_delegate_to_gateway_one :: "int \<Rightarrow> cosmos_msg \<Rightarrow> app_db \<Rightarrow> app_db res" where
  "handle_delegate_to_gateway_one b msg st = (case decoded msg of
     DelegateToGateway app gw \<Rightarrow>
       Inr (st\<lparr>app_gateways := put_versions ag_id b
              [\<lparr>ag_id = get_app_delegated_to_gateway_id app gw, ag_gateway_id = gw, ag_application_id = app\<rparr>]
              (app_gateways st),
            msg_delegates := save mag_id \<lparr>mag_id = message_id msg, mag_application_id = app, mag_gateway_id = gw,
              mag_transaction_id = tx_hash (msg_tx msg), mag_block_id = b\<rparr> (msg_delegates st)\<rparr>)
   | _ \<Rightarrow> throw ''unexpected message'')"

definition handle_undelegate_from_gateway_one :: "int \<Rightarrow> cosmos_msg \<Rightarrow> app_db \<Rightarrow> app_db res" where
  "handle_undelegate_from_gateway_one b msg st = (case decoded msg of
     UndelegateFromGateway app gw \<Rightarrow>
       Inr (st\<lparr>app_gateways := remove_versions b [get_app_delegated_to_gateway_id app gw] (app_gateways st),
            msg_undelegates := save mag_id \<lparr>mag_id = message_id msg, mag_application_id = app, mag_gateway_id = gw,
              mag_transaction_id = tx_hash (msg_tx msg), mag_block_id = b\<rparr> (msg_undelegates st)\<rparr>)
   | _ \<Rightarrow> throw ''unexpected message'')"

definition handle_unstake_application_one ::
  "int \<Rightarrow> cosmos_msg \<Rightarrow> app_db \<Rightarrow> (app_db \<times> application list) res" where
  "handle_unstake_application_one b msg st = (case decoded msg of
     UnstakeApplication addr \<Rightarrow>
       bind_res (require (''[handleUnstakeApplicationMsg] application not found for address '' @ addr)
           (get_application addr st)) (\<lambda>a.
         Inr (st\<lparr>msg_unstake_apps := save mua_id \<lparr>mua_id = message_id msg, mua_application_id = addr,
                mua_transaction_id = tx_hash (msg_tx msg), mua_block_id = b\<rparr> (msg_unstake_apps st)\<rparr>,
              [a\<lparr>app_unstaking_begin_block := Some b\<rparr>]))
   | _ \<Rightarrow> throw ''unexpected message'')"

definition handle_transfer_application_one ::
  "int \<Rightarrow> cosmos_msg \<Rightarrow> app_db \<Rightarrow> (app_db \<times> application list) res" where
  "handle_transfer_application_one b msg st = (case decoded msg of
     TransferApplication src dst \<Rightarrow>
       bind_res (require (''[handleTransferApplicationMsg] source application not found for address '' @ src)
           (get_application src st)) (\<lambda>a.
         Inr (st\<lparr>msg_transfers := save tr_id \<lparr>tr_id = message_id msg, tr_source = src, tr_destination = dst,
                tr_transaction_id = Some (tx_hash (msg_tx msg)), tr_block_id = b, tr_error = None\<rparr> (msg_transfers st)\<rparr>,
              [a\<lparr>app_transferring_to := Some dst\<rparr>]))
   | _ \<Rightarrow> throw ''unexpected message'')"

subsection \<open>Transfer events\<close>

text \<open>The begin event belongs to a transfer message; its height attribute is required.\<close>

definition handle_transfer_begin_one ::
  "int \<Rightarrow> cosmos_event \<Rightarrow> app_db \<Rightarrow> (app_db \<times> application list) res" where
  "handle_transfer_begin_one b ev st =
     bind_res (require_str ''[handleTransferApplicationBeginEvent] transferEndHeight not found''
         (case attr_first ''transfer_end_height'' (attributes (event ev)) of None \<Rightarrow> [] | Some v \<Rightarrow> v)) (\<lambda>text.
     bind_res (require ''TypeError: msg is undefined'' (event_msg ev)) (\<lambda>msg.
     (case decoded msg of
        TransferApplication src dst \<Rightarrow>
          bind_res (require (''[handleTransferApplicationBeginEvent] application not found for address '' @ src)
              (get_application src st)) (\<lambda>a.
          bind_res (big_int (strip_quotes text)) (\<lambda>h.
          bind_res (require ''TypeError: tx is undefined'' (event_tx ev)) (\<lambda>tx.
            Inr (st\<lparr>transfer_begins := save tr_id \<lparr>tr_id = get_event_id ev, tr_source = src, tr_destination = dst,
                   tr_transaction_id = Some (tx_hash tx), tr_block_id = b, tr_error = None\<rparr> (transfer_begins st)\<rparr>,
                 [a\<lparr>app_transfer_end_height := Some h\<rparr>]))))
      | _ \<Rightarrow> throw ''unexpected message'')))"

record transfer_attrs =
  ta_source :: "string option"
  ta_destination :: "string option"
  ta_error :: "string option"

text \<open>
  \<open>(JSON.parse(value)).address\<close>: invalid JSON throws, so does \<open>null\<close>; a value without an address
  reads \<open>undefined\<close>.
\<close>

definition json_address :: "string \<Rightarrow> string option res" where
  "json_address v = (case json_parse v of
     None \<Rightarrow> throw ''SyntaxError: invalid JSON''
   | Some JNull \<Rightarrow> throw ''TypeError: null has no address''
   | Some j \<Rightarrow> Inr (json_get_str ''address'' j))"

definition transfer_attribute :: "transfer_attrs \<Rightarrow> attribute \<Rightarrow> transfer_attrs res" where
  "transfer_attribute acc = (\<lambda>(k, v).
     if k = ''source_address'' then Inr (acc\<lparr>ta_source := Some (strip_quotes v)\<rparr>)
     else if k = ''destination_address'' then Inr (acc\<lparr>ta_destination := Some (strip_quotes v)\<rparr>)
     else if k = ''destination_application'' then map_res (\<lambda>a. acc\<lparr>ta_destination := a\<rparr>) (json_address v)
     else if k = ''error'' then Inr (acc\<lparr>ta_error := Some (strip_quotes v)\<rparr>)
     else Inr acc)"

definition read_transfer_attributes :: "attribute list \<Rightarrow> transfer_attrs res" where
  "read_transfer_attributes as =
     foldM_res transfer_attribute \<lparr>ta_source = None, ta_destination = None, ta_error = None\<rparr> as"

text \<open>\<open>undefined\<close> and the empty string are both rejected by \<open>if (!x)\<close>.\<close>

definition require_text :: "string \<Rightarrow> string option \<Rightarrow> string res" where
  "require_text msg s = require_str msg (case s of None \<Rightarrow> [] | Some t \<Rightarrow> t)"

definition transfer_source :: "int \<Rightarrow> string \<Rightarrow> application \<Rightarrow> application" where
  "transfer_source b dst a = a\<lparr>app_transferring_to := None, app_transfer_end_height := None,
     app_transfer_end_block := Some b, app_unstaking_reason := Some AppTransfer,
     app_unstaking_end_block := Some b, app_destination := Some dst\<rparr>"

text \<open>\<open>prev\<close> is the source's \<open>unstakingEndBlockId\<close> before the event; a block id of zero is falsy.\<close>

definition transfer_destination ::
  "int \<Rightarrow> string \<Rightarrow> string \<Rightarrow> application \<Rightarrow> application option \<Rightarrow> application" where
  "transfer_destination b src dst source dest =
     (let d = (case dest of Some d \<Rightarrow> d | None \<Rightarrow>
        \<lparr>app_id = dst, app_account_id = dst, app_stake_amount = app_stake_amount source,
         app_stake_denom = app_stake_denom source, app_stake_status = Staked, app_transferring_to = None,
         app_transfer_end_height = None, app_transfer_end_block = None, app_unstaking_begin_block = None,
         app_unstaking_end_block = None, app_unstaking_reason = None, app_unstaking_end_height = None,
         app_destination = None, app_source = None, app_transferred_from_at = None\<rparr>) in
      d\<lparr>app_source := Some src, app_transferred_from_at := Some b,
        app_unstaking_begin_block := app_unstaking_begin_block source,
        app_unstaking_end_block := (if app_unstaking_end_block d \<notin> {None, Some 0} then app_unstaking_end_block d
          else app_unstaking_end_block source)\<rparr>)"

definition handle_transfer_end_one ::
  "int \<Rightarrow> cosmos_event \<Rightarrow> app_db \<Rightarrow> (app_db \<times> application list) res" where
  "handle_transfer_end_one b ev st =
     bind_res (read_transfer_attributes
         (filter (\<lambda>(k, _). k \<noteq> ''error'') (attributes (event ev)))) (\<lambda>acc.
     bind_res (require_text ''[handleTransferApplicationEndEvent] event.event.attributes not found'' (ta_source acc)) (\<lambda>src0.
     bind_res (require_text ''[handleTransferApplicationMsg] destination application not in event'' (ta_destination acc)) (\<lambda>dst0.
     let src = strip_quotes src0; dst = strip_quotes dst0;
         services = fetch_all_application_service_by_application_id b src st;
         gateways = fetch_all_application_gateway_by_application_id b src st in
     bind_res (require (''[handleTransferApplicationMsg] source application not found for address '' @ src)
         (get_application src st)) (\<lambda>source.
       let dest = transfer_destination b src dst source (get_application dst st) in
       Inr (st\<lparr>transfer_ends := save tr_id \<lparr>tr_id = get_event_id ev, tr_source = src, tr_destination = app_id dest,
              tr_transaction_id = None, tr_block_id = b, tr_error = None\<rparr> (transfer_ends st),
            app_services := remove_versions b (map as_id services) (put_versions as_id b
              (map (\<lambda>s. \<lparr>as_id = get_stake_service_id (app_id dest) (as_service_id s),
                 as_service_id = as_service_id s, as_application_id = app_id dest\<rparr>) services) (app_services st)),
            app_gateways := remove_versions b (map ag_id gateways) (put_versions ag_id b
              (map (\<lambda>g. \<lparr>ag_id = get_app_delegated_to_gateway_id (app_id dest) (ag_gateway_id g),
                 ag_gateway_id = ag_gateway_id g, ag_application_id = app_id dest\<rparr>) gateways) (app_gateways st))\<rparr>,
          [transfer_source b dst source, dest])))))"

definition handle_transfer_error_one ::
  "int \<Rightarrow> cosmos_event \<Rightarrow> app_db \<Rightarrow> (app_db \<times> application list) res" where
  "handle_transfer_error_one b ev st =
     bind_res (read_transfer_attributes (attributes (event ev))) (\<lambda>acc.
     bind_res (require_text ''[handleTransferApplicationEndEvent] source_address not found in event'' (ta_source acc)) (\<lambda>src.
     bind_res (require_text ''[handleTransferApplicationErrorEvent] destination_address not found in event'' (ta_destination acc)) (\<lambda>dst.
     bind_res (require_text ''[handleTransferApplicationErrorEvent] error not found in event'' (ta_error acc)) (\<lambda>err.
     bind_res (require (''[handleTransferApplicationErrorEvent] application not found for address '' @ src)
         (get_application src st)) (\<lambda>a.
       Inr (st\<lparr>transfer_errors := save tr_id \<lparr>tr_id = get_event_id ev, tr_source = src, tr_destination = dst,
              tr_transaction_id = None, tr_block_id = b, tr_error = Some err\<rparr> (transfer_errors st)\<rparr>,
            [a\<lparr>app_transferring_to := None, app_transfer_end_height := None\<rparr>]))))))"

subsection \<open>Unbonding events\<close>

record unbonding_attrs =
  ua_end :: int
  ua_session :: int
  ua_reason :: "int option"
  ua_address :: "string option"

text \<open>
  The attributes of both unbonding events; \<open>use_address\<close> says whether the address is read from them
  (the begin event of an unstake message takes it from the message).
\<close>

definition unbonding_attribute :: "bool \<Rightarrow> unbonding_attrs \<Rightarrow> attribute \<Rightarrow> unbonding_attrs res" where
  "unbonding_attribute use_address acc = (\<lambda>(k, v).
     if k = ''unbonding_end_height'' then map_res (\<lambda>h. acc\<lparr>ua_end := h\<rparr>) (big_int (strip_quotes v))
     else if k = ''session_end_height'' then map_res (\<lambda>h. acc\<lparr>ua_session := h\<rparr>) (big_int (strip_quotes v))
     else if k = ''reason'' then Inr (acc\<lparr>ua_reason := Some (application_unbonding_reason_from_json (strip_quotes v))\<rparr>)
     else if use_address \<and> k = ''application_address'' then Inr (acc\<lparr>ua_address := Some (strip_quotes v)\<rparr>)
     else if use_address \<and> k = ''application'' then map_res (\<lambda>a. acc\<lparr>ua_address := a\<rparr>) (json_address v)
     else Inr acc)"

definition read_unbonding_attributes :: "bool \<Rightarrow> string option \<Rightarrow> attribute list \<Rightarrow> unbonding_attrs res" where
  "read_unbonding_attributes use_address addr as =
     foldM_res (unbonding_attribute use_address)
       \<lparr>ua_end = 0, ua_session = 0, ua_reason = None, ua_address = addr\<rparr> as"

text \<open>The address of the message an event belongs to.\<close>

definition msg_address :: "cosmos_msg \<Rightarrow> string option" where
  "msg_address msg = (case decoded msg of
     StakeApplication a _ _ \<Rightarrow> Some a | UnstakeApplication a \<Rightarrow> Some a
   | StakeGateway a _ \<Rightarrow> Some a | UnstakeGateway a \<Rightarrow> Some a | _ \<Rightarrow> None)"

definition nonzero :: "string \<Rightarrow> int \<Rightarrow> int res" where
  "nonzero msg h = (if h = 0 then throw msg else Inr h)"

definition handle_application_unbonding_begin_one ::
  "int \<Rightarrow> cosmos_event \<Rightarrow> app_db \<Rightarrow> (app_db \<times> application list) res" where
  "handle_application_unbonding_begin_one b ev st =
     bind_res (read_unbonding_attributes (event_msg ev = None)
         (case event_msg ev of None \<Rightarrow> Some [] | Some m \<Rightarrow> msg_address m) (attributes (event ev))) (\<lambda>acc.
     bind_res (nonzero ''[handleApplicationUnbondingBeginEvent] unbondingEndHeight not found in event'' (ua_end acc)) (\<lambda>end_height.
     bind_res (nonzero ''[handleApplicationUnbondingBeginEvent] sessionEndHeight not found in event'' (ua_session acc)) (\<lambda>session.
     bind_res (require ''[handleApplicationUnbondingBeginEvent] reason not found in event'' (ua_reason acc)) (\<lambda>reason.
     if ua_address acc = Some [] then throw ''[handleApplicationUnbondingBeginEvent] address not found in event''
     else
       bind_res (require ''[handleApplicationUnbondingBeginEvent] application not found for operator address''
           (Option.bind (ua_address acc) (\<lambda>addr. get_application addr st))) (\<lambda>a.
       bind_res (get_app_unbonding_reason_from_sdk reason) (\<lambda>r.
         Inr (st\<lparr>unbonding_begins := save ub_id \<lparr>ub_id = get_event_id ev,
                ub_application_id = (case ua_address acc of None \<Rightarrow> [] | Some addr \<Rightarrow> addr), ub_block_id = b,
                ub_unstaking_end_height = end_height, ub_session_end_height = session, ub_reason = reason\<rparr>
                (unbonding_begins st)\<rparr>,
              [a\<lparr>app_unstaking_end_height := Some end_height, app_unstaking_reason := Some r\<rparr>])))))))"

definition handle_application_unbonding_end_one ::
  "int \<Rightarrow> cosmos_event \<Rightarrow> app_db \<Rightarrow> (app_db \<times> application list) res" where
  "handle_application_unbonding_end_one b ev st =
     bind_res (read_unbonding_attributes True None (attributes (event ev))) (\<lambda>acc.
     bind_res (nonzero ''[handleApplicationUnbondingEndEvent] unbondingEndHeight not found in event'' (ua_end acc)) (\<lambda>end_height.
     bind_res (nonzero ''[handleApplicationUnbondingEndEvent] sessionEndHeight not found in event'' (ua_session acc)) (\<lambda>session.
     bind_res (require ''[handleApplicationUnbondingEndEvent] reason not found in event'' (ua_reason acc)) (\<lambda>reason.
     bind_res (require_text ''[handleApplicationUnbondingEndEvent] applicationAddress not found in event'' (ua_address acc)) (\<lambda>addr.
     bind_res (require (''[handleApplicationUnbondingEndEvent] application not found for address '' @ addr)
         (get_application addr st)) (\<lambda>a.
       Inr (st\<lparr>unbonding_ends := save ub_id \<lparr>ub_id = get_event_id ev, ub_application_id = addr, ub_block_id = b,
              ub_unstaking_end_height = end_height, ub_session_end_height = session, ub_reason = reason\<rparr>
              (unbonding_ends st),
            app_services := remove_versions b
              (map as_id (fetch_all_application_service_by_application_id b addr st)) (app_services st)\<rparr>,
            [a\<lparr>app_unstaking_end_block := Some b\<rparr>])))))))"

subsection \<open>Batches\<close>

text \<open>
  \<open>Promise.all(items.map(handler))\<close>, then one bulk write of the applications the handlers answered
  with. The handlers write other tables than the applications, so each of them reads the applications
  from before the batch.
\<close>

definition app_batch ::
  "('x \<Rightarrow> app_db \<Rightarrow> (app_db \<times> application list) res) \<Rightarrow> int \<Rightarrow> 'x list \<Rightarrow> app_db \<Rightarrow> app_db res" where
  "app_batch one b xs st =
     map_res (\<lambda>(st', as). if as \<noteq> [] then save_applications b as st' else st')
       (foldM_res (\<lambda>(st, as) x. map_res (\<lambda>(st', as'). (st', as @ as')) (one x st)) (st, []) xs)"

definition handle_delegate_to_gateway_msg :: "int \<Rightarrow> cosmos_msg list \<Rightarrow> app_db \<Rightarrow> app_db res" where
  "handle_delegate_to_gateway_msg b msgs st = foldM_res (\<lambda>st m. handle_delegate_to_gateway_one b m st) st msgs"

definition handle_undelegate_from_gateway_msg :: "int \<Rightarrow> cosmos_msg list \<Rightarrow> app_db \<Rightarrow> app_db res" where
  "handle_undelegate_from_gateway_msg b msgs st = foldM_res (\<lambda>st m. handle_undelegate_from_gateway_one b m st) st msgs"

definition handle_unstake_application_msg :: "int \<Rightarrow> cosmos_msg list \<Rightarrow> app_db \<Rightarrow> app_db res" where
  "handle_unstake_application_msg b = app_batch (handle_unstake_application_one b) b"

definition handle_transfer_application_msg :: "int \<Rightarrow> cosmos_msg list \<Rightarrow> app_db \<Rightarrow> app_db res" where
  "handle_transfer_application_msg b = app_batch (handle_transfer_application_one b) b"

definition handle_transfer_application_begin_event :: "int \<Rightarrow> cosmos_event list \<Rightarrow> app_db \<Rightarrow> app_db res" where
  "handle_transfer_application_begin_event b = app_batch (handle_transfer_begin_one b) b"

definition handle_transfer_application_end_event :: "int \<Rightarrow> cosmos_event list \<Rightarrow> app_db \<Rightarrow> app_db res" where
  "handle_transfer_application_end_event b = app_batch (handle_transfer_end_one b) b"

definition handle_transfer_application_error_event :: "int \<Rightarrow> cosmos_event list \<Rightarrow> app_db \<Rightarrow> app_db res" where
  "handle_transfer_application_error_event b = app_batch (handle_transfer_error_one b) b"

definition handle_application_unbonding_end_event :: "int \<Rightarrow> cosmos_event list \<Rightarrow> app_db \<Rightarrow> app_db res" where
  "handle_application_unbonding_end_event b = app_batch (handle_application_unbonding_end_one b) b"

definition handle_application_unbonding_begin_event :: "int \<Rightarrow> cosmos_event list \<Rightarrow> app_db \<Rightarrow> app_db res" where
  "handle_application_unbonding_begin_event b = app_batch (handle_application_unbonding_begin_one b) b"

subsection \<open>Reconciliation with the chain\<close>

record chain_app =
  ca_address :: string
  ca_stake :: "coin option"
  ca_unstake_session_end :: int

definition reconciled_app :: "chain_app \<Rightarrow> application \<Rightarrow> application res" where
  "reconciled_app ca a =
     map_res (\<lambda>amt. a\<lparr>app_stake_amount := amt,
         app_stake_denom := (case ca_stake ca of None \<Rightarrow> app_stake_denom a | Some c \<Rightarrow> denom c),
         app_stake_status := (if 0 < ca_unstake_session_end ca then Unstaking else Staked)\<rparr>)
       (big_int (case ca_stake ca of None \<Rightarrow> ''0'' | Some c \<Rightarrow> amount c))"

definition reconcile_applications :: "int \<Rightarrow> chain_app list \<Rightarrow> app_db \<Rightarrow> app_db res" where
  "reconcile_applications b chain st =
     bind_res (foldM_res (\<lambda>acc ca. case get_application (ca_address ca) st of
           None \<Rightarrow> Inr acc
         | Some a \<Rightarrow> map_res (\<lambda>a'. acc @ [a']) (reconciled_app ca a)) [] chain) (\<lambda>upserts.
       let seen = set (map ca_address chain);
           tracked = fetch_all_application_by_status b Staked st @ fetch_all_application_by_status b Unstaking st;
           closed = map (\<lambda>a. a\<lparr>app_stake_status := Unstaked, app_stake_amount := 0\<rparr>)
             (filter (\<lambda>a. app_id a \<notin> seen \<and> app_stake_status a = Unstaking) tracked) in
       Inr (if upserts @ closed \<noteq> [] then save_applications b (upserts @ closed) st else st))"

subsection \<open>Lemmas\<close>

lemma require_text_Some [simp]: "s \<noteq> [] \<Longrightarrow> require_text msg (Some s) = Inr s"
  by (cases s) (simp_all add: require_text_def)

text \<open>The tables are in order: live rows are unique and the ids are those the handlers compute.\<close>

definition services_ok :: "app_service hrow list \<Rightarrow> bool" where
  "services_ok t \<longleftrightarrow> list_all (\<lambda>r.
     as_id (row_data r) = get_stake_service_id (as_application_id (row_data r)) (as_service_id (row_data r)) \<and>
     CHR ''-'' \<notin> set (as_application_id (row_data r))) t"

definition gateways_ok :: "app_gateway hrow list \<Rightarrow> bool" where
  "gateways_ok t \<longleftrightarrow> list_all (\<lambda>r.
     ag_id (row_data r) = get_app_delegated_to_gateway_id (ag_application_id (row_data r)) (ag_gateway_id (row_data r)) \<and>
     CHR ''-'' \<notin> set (ag_application_id (row_data r))) t"

definition app_ok :: "int \<Rightarrow> app_db \<Rightarrow> bool" where
  "app_ok b st \<longleftrightarrow> hist_ok app_id b (applications st) \<and> hist_ok as_id b (app_services st) \<and>
     hist_ok ag_id b (app_gateways st) \<and> services_ok (app_services st) \<and> gateways_ok (app_gateways st)"

definition staked_for :: "app_db \<Rightarrow> string \<Rightarrow> string \<Rightarrow> bool" where
  "staked_for st addr svc \<longleftrightarrow> live_map (app_services st) (get_stake_service_id addr svc) \<noteq> None"

definition delegated :: "app_db \<Rightarrow> string \<Rightarrow> string \<Rightarrow> bool" where
  "delegated st addr gw \<longleftrightarrow> live_map (app_gateways st) (get_app_delegated_to_gateway_id addr gw) \<noteq> None"

definition plain :: "string \<Rightarrow> bool" where
  "plain s \<longleftrightarrow> CHR ''-'' \<notin> set s"

lemma services_ok_links:
  "services_ok t \<longleftrightarrow> links_ok as_id as_application_id as_service_id get_stake_service_id plain (entities t)"
  by (auto simp: services_ok_def links_ok_def entities_def list_all_iff plain_def)

lemma gateways_ok_links:
  "gateways_ok t \<longleftrightarrow> links_ok ag_id ag_application_id ag_gateway_id get_app_delegated_to_gateway_id plain (entities t)"
  by (auto simp: gateways_ok_def links_ok_def entities_def list_all_iff plain_def)

interpretation service_links: link_table as_id as_application_id as_service_id get_stake_service_id plain
  by unfold_locales (simp add: plain_def get_stake_service_id_inject)

interpretation gateway_links: link_table ag_id ag_application_id ag_gateway_id get_app_delegated_to_gateway_id plain
  by unfold_locales (simp add: plain_def get_app_delegated_to_gateway_id_def dash_inject)

lemma set_js_string_set [simp]: "set (js_string_set s) = (\<lambda>c. [c]) ` set s"
  by (simp add: js_string_set_def)

lemma noted_services_snoc: "noted_services (es @ [e]) = note_service (noted_services es) e"
  by (simp add: noted_services_def)

lemma noted_services_ok: "dict_ok (noted_services es)"
  by (induction es rule: rev_induct)
    (auto simp: noted_services_snoc note_service_def noted_services_def split: option.split)

lemma noted_services_at:
  "case map_of (noted_services es) addr of
     None \<Rightarrow> filter (\<lambda>e. fst e = addr) es = []
   | Some l \<Rightarrow> (\<exists>s ss. map snd (filter (\<lambda>e. fst e = addr) es) = s # ss \<and> set l = (\<lambda>c. [c]) ` set s \<union> set ss)"
proof (induction es rule: rev_induct)
  case Nil
  then show ?case by (simp add: noted_services_def)
next
  case (snoc e es)
  then show ?case
    by (cases e) (auto simp: noted_services_snoc note_service_def split: option.splits)
qed

lemma dropped_service_iff:
  "dropped_service (noted_services es) s \<longleftrightarrow>
     (\<exists>s1 ss. map snd (filter (\<lambda>e. fst e = as_application_id s) es) = s1 # ss \<and>
       as_service_id s \<notin> (\<lambda>c. [c]) ` set s1 \<union> set ss)"
proof -
  have "dropped_service (noted_services es) s \<longleftrightarrow>
      (\<exists>l. map_of (noted_services es) (as_application_id s) = Some l \<and> as_service_id s \<notin> set l)"
    using map_of_eq_Some_dict [OF noted_services_ok [of es]] by (auto simp: dropped_service_def list_ex_iff)
  then show ?thesis
    using noted_services_at [where es = es and addr = "as_application_id s"] by (auto split: option.splits)
qed

text \<open>The live services after a write: the written ones, and those the UPDATE spared.\<close>

lemma write_services_live:
  assumes "hist_ok as_id b t" "services_ok t" "plain a"
    and "links_ok as_id as_application_id as_service_id get_stake_service_id plain (set rows)"
  shows "live_map (write_services b es rows t) (get_stake_service_id a svc) \<noteq> None \<longleftrightarrow>
    (\<exists>s \<in> set rows. as_application_id s = a \<and> as_service_id s = svc) \<or>
    live_map t (get_stake_service_id a svc) \<noteq> None \<and>
      (\<forall>s1 ss. map snd (filter (\<lambda>e. fst e = a) es) = s1 # ss \<longrightarrow> svc \<in> (\<lambda>c. [c]) ` set s1 \<union> set ss)"
proof -
  have "live_map (close_data b (dropped_service (noted_services es)) t) (get_stake_service_id a svc) \<noteq> None \<longleftrightarrow>
      live_map t (get_stake_service_id a svc) \<noteq> None \<and>
      (\<forall>s1 ss. map snd (filter (\<lambda>e. fst e = a) es) = s1 # ss \<longrightarrow> svc \<in> (\<lambda>c. [c]) ` set s1 \<union> set ss)"
    using service_links.live_link_at [OF assms(1) _ _ assms(3), of svc] assms(2)
    by (auto simp: services_ok_links live_map_close_data(1) [OF assms(1)] dropped_service_iff split: option.splits)
  then show ?thesis
    unfolding write_services_def
      service_links.links_written [OF live_map_close_data(2) [OF assms(1)] assms(4,3)] by (rule arg_cong)
qed

text \<open>The messages of a stake batch, as the data they carry.\<close>

type_synonym stake_spec = "string \<times> int \<times> string \<times> string list"

definition stake_msg_of :: "cosmos_msg \<Rightarrow> stake_spec \<Rightarrow> bool" where
  "stake_msg_of m = (\<lambda>(addr, amt, den, svcs).
     decoded m = StakeApplication addr (Some \<lparr>amount = show_int amt, denom = den\<rparr>) svcs)"

definition staked_app :: "app_db \<Rightarrow> stake_spec \<Rightarrow> application" where
  "staked_app st = (\<lambda>(addr, amt, den, svcs). fst (stake_application addr [] svcs amt den st))"

definition spec_services :: "stake_spec \<Rightarrow> (string \<times> string) list" where
  "spec_services = (\<lambda>(addr, amt, den, svcs). map (Pair addr) svcs)"

definition service_row :: "string \<times> string \<Rightarrow> app_service" where
  "service_row = (\<lambda>(addr, s). \<lparr>as_id = get_stake_service_id addr s, as_service_id = s, as_application_id = addr\<rparr>)"

lemma service_row_mem:
  "(\<exists>s \<in> service_row ` P. as_application_id s = addr \<and> as_service_id s = svc) \<longleftrightarrow> (addr, svc) \<in> P"
  by (force simp: service_row_def)

lemma stake_rows:
  assumes "list_all2 stake_msg_of msgs specs"
  shows "\<exists>rs. mapM_res (\<lambda>m. handle_app_msg_stake_one b m st) msgs = Inr rs \<and>
    map (\<lambda>(_, a, _, _). a) rs = map (staked_app st) specs \<and>
    concat (map (\<lambda>(_, _, _, ss). ss) rs) = map service_row (concat (map spec_services specs)) \<and>
    concat (map msg_services msgs) = concat (map spec_services specs)"
  using assms
proof (induction msgs specs rule: list_all2_induct)
  case (Cons m msgs spec specs)
  obtain addr amt den svcs where spec: "spec = (addr, amt, den, svcs)" by (cases spec)
  then have m: "decoded m = StakeApplication addr (Some \<lparr>amount = show_int amt, denom = den\<rparr>) svcs"
    using Cons.hyps(1) by (simp add: stake_msg_of_def)
  show ?case
    using Cons.IH
    by (auto simp: handle_app_msg_stake_one_def m spec stake_coin_def coin_or_zero_def stake_application_def
        staked_app_def spec_services_def service_row_def msg_services_def Let_def)
qed simp

lemma filter_spec_services:
  assumes "distinct (map fst specs)"
  shows "map snd (filter (\<lambda>e. fst e = addr) (concat (map spec_services specs))) =
    (case map_of specs addr of None \<Rightarrow> [] | Some (_, _, svcs) \<Rightarrow> svcs)"
  using assms
proof (induction specs)
  case (Cons spec specs)
  obtain a amt den svcs where spec: "spec = (a, amt, den, svcs)" by (cases spec)
  have "filter (\<lambda>e. fst e = addr) (map (Pair a) svcs) = (if a = addr then map (Pair a) svcs else [])"
    by (auto simp: filter_empty_conv)
  moreover have "map_of specs a = None"
    using Cons.prems by (simp add: spec map_of_eq_None_iff)
  ultimately show ?case
    using Cons by (auto simp: spec spec_services_def comp_def)
qed simp

lemma spec_services_mem:
  "distinct (map fst specs) \<Longrightarrow> (addr, svc) \<in> set (concat (map spec_services specs)) \<longleftrightarrow>
     (\<exists>amt den svcs. map_of specs addr = Some (amt, den, svcs) \<and> svc \<in> set svcs)"
  by (force simp: spec_services_def)

lemma save_applications_simps [simp]:
  "app_services (save_applications b as st) = app_services st"
  "app_gateways (save_applications b as st) = app_gateways st"
  "applications (save_applications b as st) = put_versions app_id b as (applications st)"
  by (simp_all add: save_applications_def)

lemma staked_app_id [simp]: "app_id (staked_app st spec) = fst spec"
  by (cases spec) (simp add: staked_app_def stake_application_def Let_def)

lemma staked_apps_at:
  assumes "hist_ok app_id b (applications st)" "distinct (map fst specs)"
    and "applications st' = put_versions app_id b (map (staked_app st) specs) (applications st)"
  shows "get_application addr st' = (case map_of specs addr of None \<Rightarrow> get_application addr st
    | Some x \<Rightarrow> Some (staked_app st (addr, x)))"
proof (cases "map_of specs addr")
  case None
  then have "addr \<notin> app_id ` set (map (staked_app st) specs)" by (auto simp: map_of_eq_None_iff)
  with None show ?thesis by (simp add: get_application_def assms(3) live_map_put_other [OF assms(1)])
next
  case (Some x)
  then have "staked_app st (addr, x) \<in> set (map (staked_app st) specs)" by (auto dest: map_of_SomeD)
  moreover have "distinct (map app_id (map (staked_app st) specs))" using assms(2) by (simp add: comp_def)
  ultimately show ?thesis
    using live_map_put_in [OF assms(1), of "map (staked_app st) specs" "staked_app st (addr, x)"]
    by (simp add: Some get_application_def assms(3))
qed

lemma staked_services_at:
  assumes "hist_ok as_id b (app_services st)" "services_ok (app_services st)"
    and "distinct (map fst specs)" "list_all (plain \<circ> fst) specs" "plain addr"
    and "app_services st' = write_services b (concat (map spec_services specs))
        (map service_row (concat (map spec_services specs))) (app_services st)"
  shows "staked_for st' addr svc = (case map_of specs addr of
      None \<Rightarrow> staked_for st addr svc
    | Some (_, _, svcs) \<Rightarrow> svc \<in> set svcs \<or>
        staked_for st addr svc \<and> (svcs = [] \<or> (\<exists>c \<in> set (hd svcs). svc = [c])))"
proof -
  let ?es = "concat (map spec_services specs)"
  have rows: "links_ok as_id as_application_id as_service_id get_stake_service_id plain (set (map service_row ?es))"
    using assms(4) by (auto simp: links_ok_def service_row_def spec_services_def list_all_iff)
  have mem: "(\<exists>s \<in> set (map service_row ?es). as_application_id s = addr \<and> as_service_id s = svc)
      \<longleftrightarrow> (\<exists>amt den svcs. map_of specs addr = Some (amt, den, svcs) \<and> svc \<in> set svcs)"
    unfolding spec_services_mem [OF assms(3), symmetric] set_map service_row_mem by (rule refl)
  have *: "staked_for st' addr svc \<longleftrightarrow>
      (\<exists>amt den svcs. map_of specs addr = Some (amt, den, svcs) \<and> svc \<in> set svcs) \<or>
      staked_for st addr svc \<and> (\<forall>s1 ss. (case map_of specs addr of None \<Rightarrow> [] | Some (_, _, svcs) \<Rightarrow> svcs) = s1 # ss \<longrightarrow>
         svc \<in> (\<lambda>c. [c]) ` set s1 \<union> set ss)"
    unfolding staked_for_def assms(6) write_services_live [OF assms(1,2,5) rows] mem filter_spec_services [OF assms(3)]
    by (rule refl)
  then show ?thesis
  proof (cases "map_of specs addr")
    case (Some x)
    obtain amt den svcs where "x = (amt, den, svcs)" by (cases x)
    with * Some show ?thesis by (cases svcs) auto
  qed simp
qed

text \<open>
  C9: a batch of stake messages of different applications with decimal stakes succeeds. Every
  application named is staked with the message's coin and keeps a transfer in progress, the others
  are not touched. Its services become those of the message, with two exceptions the code makes: a
  message without services leaves the services alone, and a service already staked whose id is a
  single character of the first service's id survives.
\<close>

theorem handle_app_msg_stake_spec:
  assumes "app_ok b st" and "list_all2 stake_msg_of msgs specs"
    and "distinct (map fst specs)" and "list_all (plain \<circ> fst) specs"
  shows "\<exists>st'. handle_app_msg_stake b msgs st = Inr st' \<and>
    (\<forall>addr. case map_of specs addr of
       None \<Rightarrow> get_application addr st' = get_application addr st
     | Some (amt, den, svcs) \<Rightarrow>
         (\<exists>a. get_application addr st' = Some a \<and> app_stake_status a = Staked \<and> app_stake_amount a = amt \<and>
            app_stake_denom a = den \<and>
            app_transferring_to a = Option.bind (get_application addr st) app_transferring_to \<and>
            app_transfer_end_height a = Option.bind (get_application addr st) app_transfer_end_height)) \<and>
    (\<forall>addr svc. plain addr \<longrightarrow> staked_for st' addr svc =
       (case map_of specs addr of
          None \<Rightarrow> staked_for st addr svc
        | Some (_, _, svcs) \<Rightarrow> svc \<in> set svcs \<or>
            staked_for st addr svc \<and> (svcs = [] \<or> (\<exists>c \<in> set (hd svcs). svc = [c]))))"
proof -
  from stake_rows [OF assms(2), of b st] obtain rs where
    rs: "mapM_res (\<lambda>m. handle_app_msg_stake_one b m st) msgs = Inr rs"
    and as: "map (\<lambda>(_, a, _, _). a) rs = map (staked_app st) specs"
    and ss: "concat (map (\<lambda>(_, _, _, ss). ss) rs) = map service_row (concat (map spec_services specs))"
    and ms: "concat (map msg_services msgs) = concat (map spec_services specs)"
    by blast
  have ok: "hist_ok app_id b (applications st)" "hist_ok as_id b (app_services st)" "services_ok (app_services st)"
    using assms(1) by (simp_all add: app_ok_def)
  obtain st' where run: "handle_app_msg_stake b msgs st = Inr st'"
    and apps: "applications st' = put_versions app_id b (map (staked_app st) specs) (applications st)"
    and svcs: "app_services st' = write_services b (concat (map spec_services specs))
        (map service_row (concat (map spec_services specs))) (app_services st)"
    by (simp add: handle_app_msg_stake_def rs as ss ms)
  have "case map_of specs addr of
       None \<Rightarrow> get_application addr st' = get_application addr st
     | Some (amt, den, svcs) \<Rightarrow>
         (\<exists>a. get_application addr st' = Some a \<and> app_stake_status a = Staked \<and> app_stake_amount a = amt \<and>
            app_stake_denom a = den \<and>
            app_transferring_to a = Option.bind (get_application addr st) app_transferring_to \<and>
            app_transfer_end_height a = Option.bind (get_application addr st) app_transfer_end_height)" for addr
    unfolding staked_apps_at [OF ok(1) assms(3) apps]
    by (auto simp: staked_app_def stake_application_def Let_def split: option.split)
  moreover note staked_services_at [OF ok(2,3) assms(3,4) _ svcs]
  ultimately show ?thesis using run by blast
qed

definition tx_example :: cosmos_tx where
  "tx_example = \<lparr>tx_hash = ''AB'', tx_idx = 0, tx_code = 0, tx_events = []\<rparr>"

definition application_example :: "string \<Rightarrow> int \<Rightarrow> stake_status \<Rightarrow> application" where
  "application_example i amt status = \<lparr>app_id = i, app_account_id = i, app_stake_amount = amt,
     app_stake_denom = ''upokt'', app_stake_status = status, app_transferring_to = None,
     app_transfer_end_height = None, app_transfer_end_block = None, app_unstaking_begin_block = None,
     app_unstaking_end_block = None, app_unstaking_reason = None, app_unstaking_end_height = None,
     app_destination = None, app_source = None, app_transferred_from_at = None\<rparr>"

definition app_db_example :: app_db where
  "app_db_example =
     \<lparr>applications = [new_row app_id 3 (application_example ''a'' 5 Staked), new_row app_id 4 (application_example ''b'' 6 Unstaking)],
      app_services = map (new_row as_id 3 \<circ> service_row) [(''a'', ''eth''), (''a'', ''btc''), (''b'', ''eth'')],
      app_gateways = [new_row ag_id 3 \<lparr>ag_id = ''a-g'', ag_gateway_id = ''g'', ag_application_id = ''a''\<rparr>],
      msg_stake_apps = [], msg_stake_app_services = [], msg_claim_apps = [], msg_claim_app_services = [],
      msg_delegates = (\<lambda>_. None), msg_undelegates = (\<lambda>_. None), msg_unstake_apps = (\<lambda>_. None),
      msg_transfers = (\<lambda>_. None), transfer_begins = (\<lambda>_. None), transfer_ends = (\<lambda>_. None),
      transfer_errors = (\<lambda>_. None), unbonding_begins = (\<lambda>_. None), unbonding_ends = (\<lambda>_. None),
      morse_claimables = []\<rparr>"

lemma app_ok_example: "app_ok 7 app_db_example"
  by code_simp

definition stake_msg_example :: cosmos_msg where
  "stake_msg_example = \<lparr>msg_idx = 0, type_url = ''/pocket.application.MsgStakeApplication'',
     decoded = StakeApplication ''a'' (Some \<lparr>amount = ''9'', denom = ''upokt''\<rparr>) [''eth'', ''sol''],
     msg_tx = tx_example, msg_height = 7\<rparr>"

theorem handle_app_msg_stake_spec_witness:
  "\<exists>st' a. handle_app_msg_stake 7 [stake_msg_example] app_db_example = Inr st' \<and>
     get_application ''a'' st' = Some a \<and> app_stake_amount a = 9 \<and>
     staked_for st' ''a'' ''sol'' \<and> \<not> staked_for st' ''a'' ''btc'' \<and> staked_for st' ''b'' ''eth''"
proof -
  have specs: "list_all2 stake_msg_of [stake_msg_example] [(''a'', 9, ''upokt'', [''eth'', ''sol''])]" by code_simp
  have "staked_for app_db_example ''b'' ''eth''" "plain ''a''" "plain ''b''" by code_simp+
  note facts = this
  from handle_app_msg_stake_spec [OF app_ok_example specs] facts
  obtain st' where run: "handle_app_msg_stake 7 [stake_msg_example] app_db_example = Inr st'"
    and apps: "\<And>addr. case map_of [(''a'', 9, ''upokt'', [''eth'', ''sol''])] addr of
       None \<Rightarrow> get_application addr st' = get_application addr app_db_example
     | Some (amt, den, svcs) \<Rightarrow>
         (\<exists>a. get_application addr st' = Some a \<and> app_stake_status a = Staked \<and> app_stake_amount a = amt \<and>
            app_stake_denom a = den \<and>
            app_transferring_to a = Option.bind (get_application addr app_db_example) app_transferring_to \<and>
            app_transfer_end_height a = Option.bind (get_application addr app_db_example) app_transfer_end_height)"
    and services: "\<And>addr svc. plain addr \<Longrightarrow> staked_for st' addr svc =
       (case map_of [(''a'', 9, ''upokt'', [''eth'', ''sol''])] addr of
          None \<Rightarrow> staked_for app_db_example addr svc
        | Some (_, _, svcs) \<Rightarrow> svc \<in> set svcs \<or>
            staked_for app_db_example addr svc \<and> (svcs = [] \<or> (\<exists>c \<in> set (hd svcs). svc = [c])))"
    by (auto simp: comp_def)
  from apps [of "''a''"] services [of "''a''" "''sol''"] services [of "''a''" "''btc''"] services [of "''b''" "''eth''"]
  show ?thesis using run facts by auto
qed

text \<open>
  C38: the UPDATE of a stake message closes the row of the first service the message names (any id of
  two or more characters), although it is staked: the list of services to keep holds the characters of
  its id instead of the id. The row is written again at the same block.
\<close>

theorem stake_update_closes_first_service:
  assumes "hist_ok as_id b t" "services_ok t" "plain addr" "1 < length svc" "svc \<notin> set rest"
    and "live_map t (get_stake_service_id addr svc) = Some s"
  shows "live_map (close_data b (dropped_service (noted_services (map (Pair addr) (svc # rest)))) t)
           (get_stake_service_id addr svc) = None \<and>
    live_map (write_services b (map (Pair addr) (svc # rest)) (map service_row (map (Pair addr) (svc # rest))) t)
           (get_stake_service_id addr svc) \<noteq> None"
proof -
  have f: "filter (\<lambda>e. fst e = addr) (map (Pair addr) (svc # rest)) = map (Pair addr) (svc # rest)" by simp
  have "dropped_service (noted_services (map (Pair addr) (svc # rest))) s"
    using service_links.live_link_at [OF assms(1) assms(2) [unfolded services_ok_links] assms(6,3)] assms(4,5)
    unfolding dropped_service_iff f
    by (auto simp: comp_def)
  then have "live_map (close_data b (dropped_service (noted_services (map (Pair addr) (svc # rest)))) t)
           (get_stake_service_id addr svc) = None"
    by (simp add: live_map_close_data(1) [OF assms(1)] assms(6))
  moreover have "live_map (write_services b (map (Pair addr) (svc # rest)) (map service_row (map (Pair addr) (svc # rest))) t)
           (get_stake_service_id addr svc) \<noteq> None"
    unfolding write_services_def live_map_put_dom [OF live_map_close_data(2) [OF assms(1)]]
    by (simp add: service_row_def)
  ultimately show ?thesis by blast
qed

theorem stake_update_closes_first_service_witness:
  "live_map (close_data 7 (dropped_service (noted_services [(''a'', ''eth''), (''a'', ''sol'')])) (app_services app_db_example)) ''a-eth'' = None"
proof -
  have "hist_ok as_id 7 (app_services app_db_example)" "services_ok (app_services app_db_example)"
    using app_ok_example by (simp_all add: app_ok_def)
  moreover have "live_map (app_services app_db_example) (get_stake_service_id ''a'' ''eth'') = Some (service_row (''a'', ''eth''))"
    by code_simp
  ultimately show ?thesis
    using stake_update_closes_first_service [of 7 "app_services app_db_example" "''a''" "''eth''" "[''sol'']"]
    by (simp add: plain_def get_stake_service_id_def dash_def)
qed

text \<open>The service rows of a claim are never empty, and their table has no \<open>block_id\<close>.\<close>

lemma claim_morse_application_throws:
  assumes "msgs \<noteq> []"
  shows "\<exists>e. handle_msg_claim_morse_application c b msgs st = Inl e"
proof (rule ccontr)
  assume "\<not> ?thesis"
  then obtain st' where run: "handle_msg_claim_morse_application c b msgs st = Inr st'"
    by (cases "handle_msg_claim_morse_application c b msgs st") auto
  then obtain rs t where rs: "mapM_res (\<lambda>m. handle_msg_claim_morse_application_one c b m st) msgs = Inr rs"
    and t: "bulk_rows mas_id None b ByBlockId (concat (map (\<lambda>(_, _, ms, _). ms) rs)) (msg_claim_app_services st) = Inr t"
    by (auto simp: handle_msg_claim_morse_application_def res_eq_Inr)
  obtain m ms where "msgs = m # ms" using assms by (cases msgs) auto
  then obtain r rs' where "rs = r # rs'" "handle_msg_claim_morse_application_one c b m st = Inr r"
    using rs by (auto simp: res_eq_Inr)
  moreover from this(2) have "(\<lambda>(_, _, ms, _). ms) r \<noteq> []"
    by (auto simp: handle_msg_claim_morse_application_one_def res_eq_Inr stake_application_def Let_def
        split: decoded_msg.splits)
  ultimately have "concat (map (\<lambda>(_, _, ms, _). ms) rs) \<noteq> []" by auto
  with bulk_rows_no_column t show False by (metis throw_neq_Inr(1))
qed



text \<open>Reading the chain's applications into the stored ones.\<close>

definition chain_app_ok :: "(chain_app \<Rightarrow> int) \<Rightarrow> chain_app \<Rightarrow> bool" where
  "chain_app_ok val ca \<longleftrightarrow>
     (case ca_stake ca of None \<Rightarrow> val ca = 0 | Some c \<Rightarrow> amount c = show_int (val ca))"

definition chain_value :: "(chain_app \<Rightarrow> int) \<Rightarrow> chain_app \<Rightarrow> application \<Rightarrow> application" where
  "chain_value val ca a = a\<lparr>app_stake_amount := val ca,
     app_stake_denom := (case ca_stake ca of None \<Rightarrow> app_stake_denom a | Some c \<Rightarrow> denom c),
     app_stake_status := (if 0 < ca_unstake_session_end ca then Unstaking else Staked)\<rparr>"

definition closed_out :: "application \<Rightarrow> application" where
  "closed_out a = a\<lparr>app_stake_status := Unstaked, app_stake_amount := 0\<rparr>"

lemma big_int_zero: "big_int ''0'' = Inr 0"
  by code_simp

lemma reconciled_app_ok: "chain_app_ok val ca \<Longrightarrow> reconciled_app ca a = Inr (chain_value val ca a)"
  by (auto simp: big_int_zero reconciled_app_def chain_app_ok_def chain_value_def split: option.splits)

lemma reconcile_upserts:
  assumes "list_all (chain_app_ok val) chain"
  shows "foldM_res (\<lambda>acc ca. case get_application (ca_address ca) st of
           None \<Rightarrow> Inr acc
         | Some a \<Rightarrow> map_res (\<lambda>a'. acc @ [a']) (reconciled_app ca a)) acc chain =
    Inr (acc @ chain_upserts ca_address (\<lambda>ca a. Some (chain_value val ca a)) chain (live_map (applications st)))"
  using assms
  by (induction chain arbitrary: acc)
    (auto simp: reconciled_app_ok chain_upserts_Cons get_application_def split: option.split)

interpretation app_chain: reconciliation app_id ca_address app_stake_status
  "\<lambda>ca a. Some (chain_value val ca a)" closed_out for val
  by unfold_locales (auto simp: chain_value_def closed_out_def)

definition reconciled :: "(chain_app \<Rightarrow> int) \<Rightarrow> chain_app list \<Rightarrow> application \<Rightarrow> application" where
  "reconciled val chain a = (case map_of (map (\<lambda>ca. (ca_address ca, ca)) chain) (app_id a) of
     Some ca \<Rightarrow> chain_value val ca a
   | None \<Rightarrow> if app_stake_status a = Unstaking then closed_out a else a)"

lemma reconciled_by_app:
  "reconciled_by app_id ca_address app_stake_status (\<lambda>ca a. Some (chain_value val ca a)) closed_out chain =
     reconciled val chain"
  by (rule ext) (simp add: reconciled_by_def reconciled_def chain_entry_def split: option.split)

lemma reconcile_run:
  assumes "hist_ok app_id b (applications st)" "list_all (chain_app_ok val) chain" "distinct (map ca_address chain)"
  shows "\<exists>st'. reconcile_applications b chain st = Inr st' \<and> hist_ok app_id b (applications st') \<and>
    (\<forall>i. get_application i st' = map_option (reconciled val chain) (get_application i st))"
proof -
  let ?ws = "chain_upserts ca_address (\<lambda>ca a. Some (chain_value val ca a)) chain (live_map (applications st)) @
    chain_dropped app_id ca_address app_stake_status closed_out b chain (applications st)"
  define st' where "st' = (if ?ws \<noteq> [] then save_applications b ?ws st else st)"
  have "reconcile_applications b chain st = Inr st'"
    using reconcile_upserts [OF assms(2), of st "[]"]
    by (simp add: reconcile_applications_def st'_def chain_dropped_def closed_out_def [abs_def]
        fetch_all_application_by_status_def Let_def)
  moreover have tab: "applications st' = put_versions app_id b ?ws (applications st)"
    by (simp add: st'_def)
  moreover have "hist_ok app_id b (applications st')" using assms(1) by (simp add: tab)
  moreover have "get_application i st' = map_option (reconciled val chain) (get_application i st)" for i
    unfolding get_application_def tab app_chain.reconciled_rows [OF assms(1,3)] reconciled_by_app ..
  ultimately show ?thesis by blast
qed

lemma reconciled_idem:
  "reconciled val chain (reconciled val chain a) = reconciled val chain a"
  by (auto simp: reconciled_def chain_value_def closed_out_def split: option.split)

text \<open>
  C2: reconciling with the chain's applications (each listed once, with decimal stakes) gives every
  stored application that the chain lists exactly the chain's stake, denomination and status, marks the
  unstaking ones the chain no longer lists as unstaked with no stake, and leaves every other row alone,
  in particular staked ones the chain does not list. Doing it again changes nothing more.
\<close>

theorem reconcile_applications_spec:
  assumes "hist_ok app_id b (applications st)" "list_all (chain_app_ok val) chain" "distinct (map ca_address chain)"
  shows "\<exists>st' st''. reconcile_applications b chain st = Inr st' \<and> reconcile_applications b chain st' = Inr st'' \<and>
    (\<forall>i. get_application i st' = map_option (reconciled val chain) (get_application i st) \<and>
         get_application i st'' = get_application i st')"
proof -
  from reconcile_run [OF assms] obtain st' where st': "reconcile_applications b chain st = Inr st'"
    "hist_ok app_id b (applications st')"
    "\<And>i. get_application i st' = map_option (reconciled val chain) (get_application i st)" by blast
  from reconcile_run [OF st'(2) assms(2,3)] obtain st'' where "reconcile_applications b chain st' = Inr st''"
    "\<And>i. get_application i st'' = map_option (reconciled val chain) (get_application i st')" by blast
  with st' show ?thesis by (auto simp: option.map_comp comp_def reconciled_idem)
qed

theorem reconcile_applications_spec_witness:
  "\<exists>st'. reconcile_applications 7 [\<lparr>ca_address = ''a'', ca_stake = Some \<lparr>amount = ''8'', denom = ''upokt''\<rparr>, ca_unstake_session_end = 9\<rparr>]
       app_db_example = Inr st' \<and>
     map_option app_stake_status (get_application ''a'' st') = Some Unstaking \<and>
     map_option app_stake_amount (get_application ''b'' st') = Some 0"
proof -
  let ?chain = "[\<lparr>ca_address = ''a'', ca_stake = Some \<lparr>amount = ''8'', denom = ''upokt''\<rparr>, ca_unstake_session_end = 9\<rparr>]"
  have ok: "hist_ok app_id 7 (applications app_db_example)" using app_ok_example by (simp add: app_ok_def)
  have "list_all (chain_app_ok (\<lambda>_. 8)) ?chain" by code_simp
  from reconcile_applications_spec [OF ok this] obtain st' where
    "reconcile_applications 7 ?chain app_db_example = Inr st'"
    "\<And>i. get_application i st' = map_option (reconciled (\<lambda>_. 8) ?chain) (get_application i app_db_example)" by auto
  moreover have "get_application ''a'' app_db_example = Some (application_example ''a'' 5 Staked)"
    "get_application ''b'' app_db_example = Some (application_example ''b'' 6 Unstaking)" by code_simp+
  ultimately show ?thesis
    by (simp add: reconciled_def chain_value_def closed_out_def application_example_def)
qed

text \<open>A transfer that ended: the attributes name a stored source and another destination.\<close>

lemma transfer_end_tables:
  assumes "hist_ok app_id b (applications st)"
    and "read_transfer_attributes (filter (\<lambda>(k, _). k \<noteq> ''error'') (attributes (event ev))) =
      Inr \<lparr>ta_source = Some src, ta_destination = Some dst, ta_error = None\<rparr>"
    and "src \<noteq> []" "dst \<noteq> []" "strip_quotes src = src" "strip_quotes dst = dst" "get_application src st = Some source"
  defines "ss \<equiv> fetch_all b (\<lambda>s. as_application_id s = src) (app_services st)"
    and "gs \<equiv> fetch_all b (\<lambda>g. ag_application_id g = src) (app_gateways st)"
    and "dest \<equiv> transfer_destination b src dst source (get_application dst st)"
  shows "\<exists>st'. handle_transfer_application_end_event b [ev] st = Inr st' \<and> app_id dest = dst \<and>
    applications st' = put_versions app_id b [transfer_source b dst source, dest] (applications st) \<and>
    app_services st' = remove_versions b (map as_id ss)
      (put_versions as_id b (map (\<lambda>s. service_row (dst, as_service_id s)) ss) (app_services st)) \<and>
    app_gateways st' = remove_versions b (map ag_id gs)
      (put_versions ag_id b (map (\<lambda>g. \<lparr>ag_id = get_app_delegated_to_gateway_id dst (ag_gateway_id g),
         ag_gateway_id = ag_gateway_id g, ag_application_id = dst\<rparr>) gs) (app_gateways st))"
proof -
  have "app_id dest = dst"
    using live_map_ident [OF assms(1)]
    by (auto simp: dest_def transfer_destination_def get_application_def Let_def split: option.split)
  then show ?thesis
    using assms(2-7)
    by (simp add: handle_transfer_application_end_event_def app_batch_def handle_transfer_end_one_def
        fetch_all_application_service_by_application_id_def fetch_all_application_gateway_by_application_id_def
        Let_def save_applications_def ss_def gs_def dest_def service_row_def)
qed

lemma transfer_end_run:
  assumes "app_ok b st"
    and "read_transfer_attributes (filter (\<lambda>(k, _). k \<noteq> ''error'') (attributes (event ev))) =
      Inr \<lparr>ta_source = Some src, ta_destination = Some dst, ta_error = None\<rparr>"
    and "src \<noteq> []" "dst \<noteq> []" "strip_quotes src = src" "strip_quotes dst = dst"
    and "get_application src st = Some source" "src \<noteq> dst" "plain src" "plain dst"
  shows "\<exists>st' dest. handle_transfer_application_end_event b [ev] st = Inr st' \<and>
    dest = transfer_destination b src dst source (get_application dst st) \<and>
    get_application src st' = Some (transfer_source b dst source) \<and> get_application dst st' = Some dest \<and>
    (\<forall>svc. staked_for st' src svc = False \<and> staked_for st' dst svc = (staked_for st dst svc \<or> staked_for st src svc)) \<and>
    (\<forall>gw. delegated st' src gw = False \<and> delegated st' dst gw = (delegated st dst gw \<or> delegated st src gw))"
proof -
  have ok: "hist_ok app_id b (applications st)" "hist_ok as_id b (app_services st)" "services_ok (app_services st)"
    "hist_ok ag_id b (app_gateways st)" "gateways_ok (app_gateways st)"
    using assms(1) by (simp_all add: app_ok_def)
  obtain st' dest where run: "handle_transfer_application_end_event b [ev] st = Inr st'"
    and dest: "dest = transfer_destination b src dst source (get_application dst st)" "app_id dest = dst"
    and apps: "applications st' = put_versions app_id b [transfer_source b dst source, dest] (applications st)"
    and svcs: "app_services st' = remove_versions b (map as_id (fetch_all b (\<lambda>s. as_application_id s = src) (app_services st)))
      (put_versions as_id b (map (\<lambda>s. service_row (dst, as_service_id s))
        (fetch_all b (\<lambda>s. as_application_id s = src) (app_services st))) (app_services st))"
    and gws: "app_gateways st' = remove_versions b (map ag_id (fetch_all b (\<lambda>g. ag_application_id g = src) (app_gateways st)))
      (put_versions ag_id b (map (\<lambda>g. \<lparr>ag_id = get_app_delegated_to_gateway_id dst (ag_gateway_id g),
         ag_gateway_id = ag_gateway_id g, ag_application_id = dst\<rparr>)
        (fetch_all b (\<lambda>g. ag_application_id g = src) (app_gateways st))) (app_gateways st))"
    using transfer_end_tables [OF ok(1) assms(2-7)] by metis
  have "app_id source = src" using live_map_ident [OF ok(1)] assms(7) by (simp add: get_application_def)
  then have "get_application src st' = Some (transfer_source b dst source)" "get_application dst st' = Some dest"
    using dest(2) assms(8)
    by (simp_all add: get_application_def apps live_map_put_versions [OF ok(1)]) (simp_all add: transfer_source_def)
  moreover note service_links.links_moved [OF ok(2) ok(3) [unfolded services_ok_links] assms(9,10,8) _ refl svcs,
      folded staked_for_def]
  moreover note gateway_links.links_moved [OF ok(4) ok(5) [unfolded gateways_ok_links] assms(9,10,8) _ refl gws,
      folded delegated_def]
  ultimately show ?thesis
    using run dest(1) by (simp add: staked_for_def delegated_def service_row_def)
qed

text \<open>
  C5: when a transfer ends, the source keeps its stake and status (they are left to the
  reconciliation) and records its destination and the end of its unbonding; the destination exists,
  knows its source, and if it is new it is staked with the source's stake. All services and
  delegations of the source move to the destination, which keeps its own.
\<close>

theorem transfer_end_moves:
  assumes "app_ok b st"
    and "read_transfer_attributes (filter (\<lambda>(k, _). k \<noteq> ''error'') (attributes (event ev))) =
      Inr \<lparr>ta_source = Some src, ta_destination = Some dst, ta_error = None\<rparr>"
    and "src \<noteq> []" "dst \<noteq> []" "strip_quotes src = src" "strip_quotes dst = dst"
    and "get_application src st = Some source" "src \<noteq> dst" "plain src" "plain dst"
  shows "\<exists>st' s d. handle_transfer_application_end_event b [ev] st = Inr st' \<and>
    get_application src st' = Some s \<and> app_stake_status s = app_stake_status source \<and>
    app_stake_amount s = app_stake_amount source \<and> app_destination s = Some dst \<and>
    app_transferring_to s = None \<and> app_unstaking_end_block s = Some b \<and>
    get_application dst st' = Some d \<and> app_source d = Some src \<and> app_transferred_from_at d = Some b \<and>
    (case get_application dst st of
       None \<Rightarrow> app_stake_amount d = app_stake_amount source \<and> app_stake_status d = Staked
     | Some d0 \<Rightarrow> app_stake_amount d = app_stake_amount d0 \<and> app_stake_status d = app_stake_status d0) \<and>
    (\<forall>svc. \<not> staked_for st' src svc \<and> staked_for st' dst svc = (staked_for st dst svc \<or> staked_for st src svc)) \<and>
    (\<forall>gw. \<not> delegated st' src gw \<and> delegated st' dst gw = (delegated st dst gw \<or> delegated st src gw))"
proof -
  from transfer_end_run [OF assms] obtain st' where
    "handle_transfer_application_end_event b [ev] st = Inr st'"
    "get_application src st' = Some (transfer_source b dst source)"
    "get_application dst st' = Some (transfer_destination b src dst source (get_application dst st))"
    "\<forall>svc. staked_for st' src svc = False \<and> staked_for st' dst svc = (staked_for st dst svc \<or> staked_for st src svc)"
    "\<forall>gw. delegated st' src gw = False \<and> delegated st' dst gw = (delegated st dst gw \<or> delegated st src gw)"
    by blast
  then show ?thesis
    by (intro exI [of _ st'] exI [of _ "transfer_source b dst source"]
        exI [of _ "transfer_destination b src dst source (get_application dst st)"])
      (simp add: transfer_source_def transfer_destination_def Let_def split: option.split)
qed

definition event_example :: "string \<Rightarrow> attribute list \<Rightarrow> cosmos_event" where
  "event_example ty as = \<lparr>event_idx = 2, event_kind = KEndBlock, kind_text = ''EndBlock'',
     event = \<lparr>ev_type = ty, attributes = as\<rparr>, event_tx = None, event_msg = None, event_height = 7\<rparr>"

theorem transfer_end_moves_witness:
  "\<exists>st'. handle_transfer_application_end_event 7 [event_example ''pocket.application.EventTransferEnd''
       [(''source_address'', quoted ''a''), (''destination_address'', quoted ''c'')]] app_db_example = Inr st' \<and>
     staked_for st' ''c'' ''btc'' \<and> delegated st' ''c'' ''g'' \<and> \<not> staked_for st' ''a'' ''btc''"
proof -
  let ?ev = "event_example ''pocket.application.EventTransferEnd''
       [(''source_address'', quoted ''a''), (''destination_address'', quoted ''c'')]"
  have attrs: "read_transfer_attributes (filter (\<lambda>(k, _). k \<noteq> ''error'') (attributes (event ?ev))) =
      Inr \<lparr>ta_source = Some ''a'', ta_destination = Some ''c'', ta_error = None\<rparr>"
    by code_simp
  have src: "get_application ''a'' app_db_example = Some (application_example ''a'' 5 Staked)" by code_simp
  have facts: "strip_quotes ''a'' = ''a''" "strip_quotes ''c'' = ''c''" "plain ''a''" "plain ''c''"
    "staked_for app_db_example ''a'' ''btc''" "delegated app_db_example ''a'' ''g''" by code_simp+
  show ?thesis
    using transfer_end_moves [OF app_ok_example attrs _ _ facts(1,2) src _ facts(3,4)] facts(5,6) by auto
qed

text \<open>
  When the unbonding of an application ends, all its services are removed and the block of the end
  is recorded, while its stake and status are left to the reconciliation and the services of other
  applications stay.
\<close>

theorem unbonding_end_drops_services:
  assumes "app_ok b st"
    and "read_unbonding_attributes True None (attributes (event ev)) =
      Inr \<lparr>ua_end = e, ua_session = s, ua_reason = Some r, ua_address = Some addr\<rparr>"
    and "e \<noteq> 0" "s \<noteq> 0" "addr \<noteq> []" "plain addr" "get_application addr st = Some a"
  shows "\<exists>st'. handle_application_unbonding_end_event b [ev] st = Inr st' \<and>
    get_application addr st' = Some (a\<lparr>app_unstaking_end_block := Some b\<rparr>) \<and>
    (\<forall>addr' svc. plain addr' \<longrightarrow> staked_for st' addr' svc = (addr' \<noteq> addr \<and> staked_for st addr' svc))"
proof -
  have ok: "hist_ok app_id b (applications st)" "hist_ok as_id b (app_services st)" "services_ok (app_services st)"
    using assms(1) by (simp_all add: app_ok_def)
  obtain st' where run: "handle_application_unbonding_end_event b [ev] st = Inr st'"
    and apps: "applications st' = put_versions app_id b [a\<lparr>app_unstaking_end_block := Some b\<rparr>] (applications st)"
    and svcs: "app_services st' = remove_versions b
      (map as_id (fetch_all b (\<lambda>s. as_application_id s = addr) (app_services st))) (app_services st)"
    using assms(2-5,7)
    by (simp add: handle_application_unbonding_end_event_def app_batch_def fetch_all_application_service_by_application_id_def
        handle_application_unbonding_end_one_def nonzero_def save_applications_def)
  have "app_id a = addr" using live_map_ident [OF ok(1)] assms(7) by (simp add: get_application_def)
  then have "get_application addr st' = Some (a\<lparr>app_unstaking_end_block := Some b\<rparr>)"
    by (simp add: get_application_def apps live_map_put_one [OF ok(1)])
  moreover have "staked_for st' addr' svc = (addr' \<noteq> addr \<and> staked_for st addr' svc)" if "plain addr'" for addr' svc
    unfolding staked_for_def svcs
    by (rule service_links.links_dropped [OF ok(2) ok(3) [unfolded services_ok_links] that]) (rule refl)
  ultimately show ?thesis using run by blast
qed

theorem unbonding_end_drops_services_witness:
  "\<exists>st'. handle_application_unbonding_end_event 7 [event_example ''pocket.application.EventApplicationUnbondingEnd''
       [(''application_address'', quoted ''a''), (''reason'', quoted ''APPLICATION_UNBONDING_REASON_ELECTIVE''),
        (''session_end_height'', quoted ''6''), (''unbonding_end_height'', quoted ''7'')]] app_db_example = Inr st' \<and>
     \<not> staked_for st' ''a'' ''eth'' \<and> staked_for st' ''b'' ''eth''"
proof -
  let ?ev = "event_example ''pocket.application.EventApplicationUnbondingEnd''
       [(''application_address'', quoted ''a''), (''reason'', quoted ''APPLICATION_UNBONDING_REASON_ELECTIVE''),
        (''session_end_height'', quoted ''6''), (''unbonding_end_height'', quoted ''7'')]"
  have attrs: "read_unbonding_attributes True None (attributes (event ?ev)) =
      Inr \<lparr>ua_end = 7, ua_session = 6, ua_reason = Some 0, ua_address = Some ''a''\<rparr>"
    by code_simp
  have src: "get_application ''a'' app_db_example = Some (application_example ''a'' 5 Staked)" by code_simp
  have facts: "plain ''a''" "plain ''b''" "staked_for app_db_example ''b'' ''eth''" by code_simp+
  show ?thesis
    using unbonding_end_drops_services [OF app_ok_example attrs _ _ _ facts(1) src] facts by auto
qed

subsection \<open>Every reachable state is in order\<close>

lemma links_ok_remove [simp]:
  "services_ok (remove_versions b ids t) = services_ok t" "gateways_ok (remove_versions b ids u) = gateways_ok u"
  by (simp_all add: services_ok_links gateways_ok_links)

lemma services_ok_put:
  "services_ok t \<Longrightarrow> (\<And>s. s \<in> set ss \<Longrightarrow>
     as_id s = get_stake_service_id (as_application_id s) (as_service_id s) \<and> plain (as_application_id s)) \<Longrightarrow>
   services_ok (put_versions as_id b ss t)"
  unfolding services_ok_links by (rule links_ok_put) (auto simp: links_ok_def)

lemma gateways_ok_put:
  "gateways_ok t \<Longrightarrow> (\<And>g. g \<in> set gs \<Longrightarrow>
     ag_id g = get_app_delegated_to_gateway_id (ag_application_id g) (ag_gateway_id g) \<and> plain (ag_application_id g)) \<Longrightarrow>
   gateways_ok (put_versions ag_id b gs t)"
  unfolding gateways_ok_links by (rule links_ok_put) (auto simp: links_ok_def)

lemma app_ok_save [simp]: "app_ok b st \<Longrightarrow> app_ok b (save_applications b as st)"
  by (simp add: app_ok_def)

lemma app_batch_ok:
  assumes "app_batch one b xs st = Inr st'" "app_ok b st"
    and one: "\<And>x st st' as. x \<in> set xs \<Longrightarrow> app_ok b st \<Longrightarrow> one x st = Inr (st', as) \<Longrightarrow> app_ok b st'"
  shows "app_ok b st'"
proof -
  obtain s as where fold: "foldM_res (\<lambda>(st, as) x. map_res (\<lambda>(st', as'). (st', as @ as')) (one x st)) (st, []) xs = Inr (s, as)"
    and st': "st' = (if as \<noteq> [] then save_applications b as s else s)"
    using assms(1) by (auto simp: app_batch_def map_res_eq_Inr)
  have "app_ok b (fst (s, as))"
    by (rule foldM_res_invariant [where P = "\<lambda>p. app_ok b (fst p)", OF fold])
      (use assms(2) one in \<open>auto simp: map_res_eq_Inr\<close>)
  then show ?thesis by (simp add: st')
qed

text \<open>Addresses have no dash: they are bech32 strings.\<close>

definition plain_msg :: "cosmos_msg \<Rightarrow> bool" where
  "plain_msg m = (case decoded m of
     StakeApplication a _ _ \<Rightarrow> plain a | DelegateToGateway a _ \<Rightarrow> plain a | _ \<Rightarrow> True)"

definition plain_event :: "cosmos_event \<Rightarrow> bool" where
  "plain_event ev = (case read_transfer_attributes (filter (\<lambda>(k, _). k \<noteq> ''error'') (attributes (event ev))) of
     Inr acc \<Rightarrow> (case ta_destination acc of Some d \<Rightarrow> plain (strip_quotes d) | None \<Rightarrow> True) | Inl _ \<Rightarrow> True)"

inductive app_step :: "int \<times> app_db \<Rightarrow> int \<times> app_db \<Rightarrow> bool" where
  next_block: "b \<le> b' \<Longrightarrow> app_step (b, st) (b', st)"
| stake: "list_all plain_msg msgs \<Longrightarrow> handle_app_msg_stake b msgs st = Inr st' \<Longrightarrow> app_step (b, st) (b, st')"
| delegate: "list_all plain_msg msgs \<Longrightarrow> handle_delegate_to_gateway_msg b msgs st = Inr st' \<Longrightarrow> app_step (b, st) (b, st')"
| undelegate: "handle_undelegate_from_gateway_msg b msgs st = Inr st' \<Longrightarrow> app_step (b, st) (b, st')"
| unstake: "handle_unstake_application_msg b msgs st = Inr st' \<Longrightarrow> app_step (b, st) (b, st')"
| transfer: "handle_transfer_application_msg b msgs st = Inr st' \<Longrightarrow> app_step (b, st) (b, st')"
| transfer_begin: "handle_transfer_application_begin_event b evs st = Inr st' \<Longrightarrow> app_step (b, st) (b, st')"
| transfer_end: "list_all plain_event evs \<Longrightarrow> handle_transfer_application_end_event b evs st = Inr st' \<Longrightarrow>
    app_step (b, st) (b, st')"
| transfer_error: "handle_transfer_application_error_event b evs st = Inr st' \<Longrightarrow> app_step (b, st) (b, st')"
| unbonding_begin: "handle_application_unbonding_begin_event b evs st = Inr st' \<Longrightarrow> app_step (b, st) (b, st')"
| unbonding_end: "handle_application_unbonding_end_event b evs st = Inr st' \<Longrightarrow> app_step (b, st) (b, st')"
| reconcile: "reconcile_applications b chain st = Inr st' \<Longrightarrow> app_step (b, st) (b, st')"

inductive_cases app_stepE: "app_step (b, st) s"

lemma stake_services_plain:
  assumes "mapM_res (\<lambda>m. handle_app_msg_stake_one b m st) msgs = Inr rs" "list_all plain_msg msgs"
    and "s \<in> set (concat (map (\<lambda>(_, _, _, ss). ss) rs))"
  shows "as_id s = get_stake_service_id (as_application_id s) (as_service_id s) \<and> plain (as_application_id s)"
proof -
  obtain r where "r \<in> set rs" and s: "s \<in> set ((\<lambda>(_, _, _, ss). ss) r)" using assms(3) by auto
  then obtain m where "m \<in> set msgs" "handle_app_msg_stake_one b m st = Inr r"
    using mapM_res_mem [OF assms(1)] by blast
  then show ?thesis
    using assms(2) s
    by (auto simp: handle_app_msg_stake_one_def map_res_eq_Inr stake_application_def Let_def plain_msg_def
        list_all_iff split: decoded_msg.splits)
qed

lemma handle_app_msg_stake_ok:
  assumes "handle_app_msg_stake b msgs st = Inr st'" "list_all plain_msg msgs" "app_ok b st"
  shows "app_ok b st'"
proof -
  obtain rs where rs: "mapM_res (\<lambda>m. handle_app_msg_stake_one b m st) msgs = Inr rs"
    and st': "applications st' = put_versions app_id b (map (\<lambda>(_, a, _, _). a) rs) (applications st)"
      "app_services st' = write_services b (concat (map msg_services msgs)) (concat (map (\<lambda>(_, _, _, ss). ss) rs)) (app_services st)"
      "app_gateways st' = app_gateways st"
    using assms(1) by (auto simp: handle_app_msg_stake_def res_eq_Inr)
  have "services_ok (app_services st')"
    unfolding st'(2) write_services_def
    by (rule services_ok_put)
      (use assms(3) stake_services_plain [OF rs assms(2)] in \<open>simp_all add: app_ok_def services_ok_links\<close>)
  moreover have "hist_ok as_id b (app_services st')"
    unfolding st'(2) write_services_def
    using assms(3) by (intro hist_ok_put_versions live_map_close_data(2)) (simp add: app_ok_def)
  ultimately show ?thesis using assms(3) by (simp add: app_ok_def st')
qed

lemma delegate_ok:
  "handle_delegate_to_gateway_one b m st = Inr st' \<Longrightarrow> plain_msg m \<Longrightarrow> app_ok b st \<Longrightarrow> app_ok b st'"
  by (auto simp: handle_delegate_to_gateway_one_def app_ok_def plain_msg_def split: decoded_msg.splits
      intro!: gateways_ok_put)

lemma undelegate_ok: "handle_undelegate_from_gateway_one b m st = Inr st' \<Longrightarrow> app_ok b st \<Longrightarrow> app_ok b st'"
  by (auto simp: handle_undelegate_from_gateway_one_def app_ok_def split: decoded_msg.splits)

lemma transfer_end_ok:
  assumes "handle_transfer_end_one b ev st = Inr (st', as)" "plain_event ev" "app_ok b st"
  shows "app_ok b st'"
proof -
  obtain acc src0 dst0 source where *: "read_transfer_attributes (filter (\<lambda>(k, _). k \<noteq> ''error'') (attributes (event ev))) = Inr acc"
    "require_text ''[handleTransferApplicationMsg] destination application not in event'' (ta_destination acc) = Inr dst0"
    "get_application (strip_quotes src0) st = Some source"
    using assms(1) by (auto simp: handle_transfer_end_one_def res_eq_Inr Let_def)
  have "plain (strip_quotes dst0)"
    using *(1,2) assms(2)
    by (auto simp: plain_event_def require_text_def require_str_eq_Inr split: option.splits)
  moreover have "app_id (transfer_destination b x (strip_quotes dst0) y (get_application (strip_quotes dst0) st)) = strip_quotes dst0"
    for x y
    using live_map_ident [of app_id b "applications st"] assms(3)
    by (auto simp: transfer_destination_def get_application_def Let_def app_ok_def split: option.split)
  ultimately show ?thesis
    using assms(1,3) *(1,2)
    by (auto simp: handle_transfer_end_one_def res_eq_Inr Let_def app_ok_def
        intro!: services_ok_put gateways_ok_put)
qed

lemma unstake_one_ok: "handle_unstake_application_one b x st = Inr (st', as) \<Longrightarrow> app_ok b st \<Longrightarrow> app_ok b st'"
  by (auto simp: handle_unstake_application_one_def res_eq_Inr app_ok_def split: decoded_msg.splits)

lemma transfer_one_ok: "handle_transfer_application_one b x st = Inr (st', as) \<Longrightarrow> app_ok b st \<Longrightarrow> app_ok b st'"
  by (auto simp: handle_transfer_application_one_def res_eq_Inr app_ok_def split: decoded_msg.splits)

lemma transfer_begin_one_ok: "handle_transfer_begin_one b x st = Inr (st', as) \<Longrightarrow> app_ok b st \<Longrightarrow> app_ok b st'"
  by (cases "event_msg x"; cases "decoded (the (event_msg x))")
    (auto simp: handle_transfer_begin_one_def res_eq_Inr app_ok_def)

lemma transfer_error_one_ok: "handle_transfer_error_one b x st = Inr (st', as) \<Longrightarrow> app_ok b st \<Longrightarrow> app_ok b st'"
  by (auto simp: handle_transfer_error_one_def res_eq_Inr app_ok_def)

lemma unbonding_begin_one_ok: "handle_application_unbonding_begin_one b x st = Inr (st', as) \<Longrightarrow> app_ok b st \<Longrightarrow> app_ok b st'"
  by (auto simp: handle_application_unbonding_begin_one_def res_eq_Inr app_ok_def split: if_splits)

lemma unbonding_end_one_ok: "handle_application_unbonding_end_one b x st = Inr (st', as) \<Longrightarrow> app_ok b st \<Longrightarrow> app_ok b st'"
  by (auto simp: handle_application_unbonding_end_one_def res_eq_Inr app_ok_def)

lemma app_step_ok:
  assumes "app_step (b, st) (b', st')" "app_ok b st"
  shows "app_ok b' st'"
  using assms(1)
proof (cases rule: app_step.cases)
  case next_block
  then show ?thesis using assms(2) by (auto simp: app_ok_def intro: hist_ok_mono)
next
  case (stake msgs)
  then show ?thesis using assms(2) handle_app_msg_stake_ok by blast
next
  case (delegate msgs)
  have "app_ok b st'"
    by (rule foldM_res_invariant [where P = "app_ok b", OF delegate(3) [unfolded handle_delegate_to_gateway_msg_def]])
      (use assms(2) delegate(1,2) delegate_ok in \<open>auto simp: list_all_iff\<close>)
  then show ?thesis using delegate by simp
next
  case (undelegate msgs)
  have "app_ok b st'"
    by (rule foldM_res_invariant [where P = "app_ok b", OF undelegate(2) [unfolded handle_undelegate_from_gateway_msg_def]])
      (use assms(2) undelegate_ok in auto)
  then show ?thesis using undelegate by simp
next
  case (unstake msgs)
  then show ?thesis
    using app_batch_ok [OF unstake(2) [unfolded handle_unstake_application_msg_def] assms(2)] unstake_one_ok by auto
next
  case (transfer msgs)
  then show ?thesis
    using app_batch_ok [OF transfer(2) [unfolded handle_transfer_application_msg_def] assms(2)] transfer_one_ok by auto
next
  case (transfer_begin evs)
  then show ?thesis
    using app_batch_ok [OF transfer_begin(2) [unfolded handle_transfer_application_begin_event_def] assms(2)] transfer_begin_one_ok by auto
next
  case (transfer_end evs)
  then show ?thesis
    using app_batch_ok [OF transfer_end(3) [unfolded handle_transfer_application_end_event_def] assms(2)] transfer_end_ok
    by (auto simp: list_all_iff)
next
  case (transfer_error evs)
  then show ?thesis
    using app_batch_ok [OF transfer_error(2) [unfolded handle_transfer_application_error_event_def] assms(2)] transfer_error_one_ok by auto
next
  case (unbonding_begin evs)
  then show ?thesis
    using app_batch_ok [OF unbonding_begin(2) [unfolded handle_application_unbonding_begin_event_def] assms(2)] unbonding_begin_one_ok by auto
next
  case (unbonding_end evs)
  then show ?thesis
    using app_batch_ok [OF unbonding_end(2) [unfolded handle_application_unbonding_end_event_def] assms(2)] unbonding_end_one_ok by auto
next
  case (reconcile chain)
  then show ?thesis using assms(2)
    by (auto simp: reconcile_applications_def res_eq_Inr Let_def split: if_splits)
qed

text \<open>
  C15: whatever messages and events the handlers index, block after block, the application tables stay
  in order: an application, a service of an application and a delegation never have more than one
  current row, and every row has the id made of its application and its service or gateway.
\<close>

theorem app_steps_ok:
  assumes "app_step\<^sup>*\<^sup>* (b, st) (b', st')" and "app_ok b st"
  shows "app_ok b' st'"
  using assms
proof (induction rule: rtranclp_induct2)
  case refl
  then show ?case .
next
  case (step b1 st1 b2 st2)
  then show ?case using app_step_ok by blast
qed

definition delegate_msg_example :: cosmos_msg where
  "delegate_msg_example = \<lparr>msg_idx = 1, type_url = ''/pocket.application.MsgDelegateToGateway'',
     decoded = DelegateToGateway ''a'' ''h'', msg_tx = tx_example, msg_height = 7\<rparr>"

theorem app_steps_ok_witness:
  "\<exists>st'. handle_delegate_to_gateway_msg 7 [delegate_msg_example] app_db_example = Inr st' \<and> app_ok 8 st'"
proof -
  obtain st' where run: "handle_delegate_to_gateway_msg 7 [delegate_msg_example] app_db_example = Inr st'"
    by (simp add: handle_delegate_to_gateway_msg_def handle_delegate_to_gateway_one_def delegate_msg_example_def)
  have "list_all plain_msg [delegate_msg_example]" by code_simp
  then have "app_step (7, app_db_example) (7, st')" using run by (rule app_step.delegate)
  moreover have "app_step (7, st') (8, st')" by (rule app_step.next_block) simp
  ultimately have "app_step\<^sup>*\<^sup>* (7, app_db_example) (8, st')"
    by (rule converse_rtranclp_into_rtranclp [OF _ r_into_rtranclp])
  from app_steps_ok [OF this app_ok_example] run show ?thesis by blast
qed

end
