(* ===== verification/Gateways.thy ===== *)
theory Gateways
  imports Applications
begin

text \<open>
  \<open>src/mappings/pocket/gateways.ts\<close>. The gateways share the table of delegations with the
  applications: \<open>gw_apps\<close> holds the tables of \<open>Applications\<close>. Every handler reads the gateway it
  changes and saves it; the saves of a batch set the same fields to the same values for one gateway,
  so that the batch is the fold of its handlers. An event that is not of a transaction has no \<open>tx\<close>.
\<close>

record gateway =
  gw_id :: string
  gw_account_id :: string
  gw_stake_amount :: int
  gw_stake_denom :: string
  gw_stake_status :: stake_status
  gw_unstaking_end_height :: "int option"
  gw_unstaking_end_block :: "int option"
  gw_unstaking_begin_block :: "int option"

record msg_stake_gateway =
  msg_id :: string
  msg_gateway_id :: string
  msg_stake :: "int \<times> string"
  msg_block_id :: int
  msg_transaction_id :: string

record msg_unstake_gateway =
  mug_id :: string
  mug_gateway_id :: string
  mug_block_id :: int
  mug_transaction_id :: string

record gateway_unstaked =
  gu_id :: string
  gu_gateway_id :: string
  gu_block_id :: int
  gu_transaction_id :: string

record gateway_unbonding =
  gub_id :: string
  gub_end_height :: int
  gub_session_end_height :: int
  gub_gateway_id :: string
  gub_block_id :: int
  gub_transaction_id :: "string option"

record gateway_db =
  gateways :: "gateway hrow list"
  msg_stake_gateways :: "msg_stake_gateway tbl"
  msg_unstake_gateways :: "msg_unstake_gateway tbl"
  gateway_unstakes :: "gateway_unstaked tbl"
  gateway_unbonding_begins :: "gateway_unbonding tbl"
  gateway_unbonding_ends :: "gateway_unbonding tbl"
  gw_apps :: app_db

definition get_gateway :: "string \<Rightarrow> gateway_db \<Rightarrow> gateway option" where
  "get_gateway i st = live_map (gateways st) i"

definition save_gateway :: "int \<Rightarrow> gateway \<Rightarrow> gateway_db \<Rightarrow> gateway_db" where
  "save_gateway b g st = st\<lparr>gateways := put_versions gw_id b [g] (gateways st)\<rparr>"

definition fetch_all_gateway_by_status :: "int \<Rightarrow> stake_status \<Rightarrow> gateway_db \<Rightarrow> gateway list" where
  "fetch_all_gateway_by_status b s st = fetch_all b (\<lambda>g. gw_stake_status g = s) (gateways st)"

definition fetch_all_gateway_by_unstaking_end_block_id :: "int \<Rightarrow> int \<Rightarrow> gateway_db \<Rightarrow> gateway list" where
  "fetch_all_gateway_by_unstaking_end_block_id b n st =
     fetch_all b (\<lambda>g. gw_unstaking_end_block g = Some n) (gateways st)"

subsection \<open>Messages\<close>

definition handle_gateway_msg_stake_one :: "int \<Rightarrow> cosmos_msg \<Rightarrow> gateway_db \<Rightarrow> gateway_db res" where
  "handle_gateway_msg_stake_one b msg st = (case decoded msg of
     StakeGateway addr stk \<Rightarrow>
       bind_res (require ''[handleGatewayMsgStake] stake not provided in msg'' stk) (\<lambda>c.
       bind_res (big_int (amount c)) (\<lambda>amt.
         Inr (save_gateway b \<lparr>gw_id = addr, gw_account_id = addr, gw_stake_amount = amt, gw_stake_denom = denom c,
             gw_stake_status = Staked, gw_unstaking_end_height = None, gw_unstaking_end_block = None,
             gw_unstaking_begin_block = None\<rparr>
           (st\<lparr>msg_stake_gateways := save msg_id \<lparr>msg_id = message_id msg, msg_gateway_id = addr,
              msg_stake = (amt, denom c), msg_block_id = b, msg_transaction_id = tx_hash (msg_tx msg)\<rparr>
              (msg_stake_gateways st)\<rparr>))))
   | _ \<Rightarrow> throw ''unexpected message'')"

definition get_undelegates_for_unstaked_gateway :: "int \<Rightarrow> string \<Rightarrow> gateway_db \<Rightarrow> string list" where
  "get_undelegates_for_unstaked_gateway b gw st =
     map ag_id (fetch_all_application_gateway_by_gateway_id b gw (gw_apps st))"

definition handle_gateway_msg_unstake_one :: "int \<Rightarrow> cosmos_msg \<Rightarrow> gateway_db \<Rightarrow> gateway_db res" where
  "handle_gateway_msg_unstake_one b msg st = (case decoded msg of
     UnstakeGateway addr \<Rightarrow>
       bind_res (require (''[handleGatewayMsgUnstake] gateway not found with address: '' @ addr)
           (get_gateway addr st)) (\<lambda>g.
         Inr (save_gateway b (g\<lparr>gw_stake_status := Unstaking, gw_unstaking_begin_block := Some b\<rparr>)
           (st\<lparr>msg_unstake_gateways := save mug_id \<lparr>mug_id = message_id msg, mug_gateway_id = addr,
              mug_block_id = b, mug_transaction_id = tx_hash (msg_tx msg)\<rparr> (msg_unstake_gateways st)\<rparr>)))
   | _ \<Rightarrow> throw ''unexpected message'')"

subsection \<open>Events\<close>

text \<open>\<open>store.bulkRemove("ApplicationGateway", undelegates)\<close>.\<close>

definition remove_delegations :: "int \<Rightarrow> string list \<Rightarrow> gateway_db \<Rightarrow> gateway_db" where
  "remove_delegations b ids st =
     st\<lparr>gw_apps := (gw_apps st)\<lparr>app_gateways := remove_versions b ids (app_gateways (gw_apps st))\<rparr>\<rparr>"

definition handle_gateway_unstake_event_one :: "int \<Rightarrow> cosmos_event \<Rightarrow> gateway_db \<Rightarrow> gateway_db res" where
  "handle_gateway_unstake_event_one b ev st =
     bind_res (require_text ''[handleGatewayUnstakeEvent] gateway not provided in event''
         (attr_first ''gateway'' (attributes (event ev)))) (\<lambda>text.
     bind_res (json_address text) (\<lambda>a.
     bind_res (require_text ''[handleGatewayUnstakeEvent] address not provided in gateway event'' a) (\<lambda>addr.
     bind_res (require (''[handleGatewayMsgUnstake] gateway not found with address: '' @ addr)
         (get_gateway addr st)) (\<lambda>g.
     bind_res (require ''TypeError: tx is undefined'' (event_tx ev)) (\<lambda>tx.
       Inr (remove_delegations b (get_undelegates_for_unstaked_gateway b addr st)
         (save_gateway b (g\<lparr>gw_unstaking_end_block := Some b, gw_stake_status := Unstaked, gw_stake_amount := 0\<rparr>)
           (st\<lparr>gateway_unstakes := save gu_id \<lparr>gu_id = get_event_id ev, gu_gateway_id = addr, gu_block_id = b,
              gu_transaction_id = tx_hash tx\<rparr> (gateway_unstakes st)\<rparr>))))))))"

text \<open>The attributes of both unbonding events: \<open>null\<close> heights and address to begin with.\<close>

record gateway_attrs =
  gx_end :: "int option"
  gx_session :: "int option"
  gx_address :: "string option"

definition gateway_attribute :: "gateway_attrs \<Rightarrow> attribute \<Rightarrow> gateway_attrs res" where
  "gateway_attribute acc = (\<lambda>(k, v).
     if k = ''unbonding_end_height'' then map_res (\<lambda>h. acc\<lparr>gx_end := Some h\<rparr>) (big_int (strip_quotes v))
     else if k = ''session_end_height'' then map_res (\<lambda>h. acc\<lparr>gx_session := Some h\<rparr>) (big_int (strip_quotes v))
     else if k = ''gateway_address'' then Inr (acc\<lparr>gx_address := Some (strip_quotes v)\<rparr>)
     else if k = ''gateway'' then map_res (\<lambda>a. acc\<lparr>gx_address := a\<rparr>) (json_address v)
     else Inr acc)"

text \<open>\<open>who\<close> is the prefix of the handler's error texts. Zero and \<open>null\<close> heights are both falsy.\<close>

definition read_gateway_attributes :: "string \<Rightarrow> attribute list \<Rightarrow> (int \<times> int \<times> string) res" where
  "read_gateway_attributes who as =
     bind_res (foldM_res gateway_attribute \<lparr>gx_end = None, gx_session = None, gx_address = None\<rparr> as) (\<lambda>acc.
     bind_res (nonzero (who @ '' unstakingEndHeight not found in event'') (case gx_end acc of None \<Rightarrow> 0 | Some h \<Rightarrow> h)) (\<lambda>e.
     bind_res (nonzero (who @ '' sessionEndHeight not found in event'') (case gx_session acc of None \<Rightarrow> 0 | Some h \<Rightarrow> h)) (\<lambda>s.
     bind_res (require_text (who @ '' gatewayAddress not found in event'') (gx_address acc)) (\<lambda>addr.
       Inr (e, s, addr)))))"

definition handle_event_gateway_unbonding_begin_one :: "int \<Rightarrow> cosmos_event \<Rightarrow> gateway_db \<Rightarrow> gateway_db res" where
  "handle_event_gateway_unbonding_begin_one b ev st =
     bind_res (read_gateway_attributes ''[handleEventGatewayUnbondingBegin]'' (attributes (event ev))) (\<lambda>(e, s, addr).
     bind_res (require (''[handleEventGatewayUnbondingBegin] gateway not found for address '' @ addr)
         (get_gateway addr st)) (\<lambda>g.
     bind_res (require ''TypeError: tx is undefined'' (event_tx ev)) (\<lambda>tx.
       Inr (save_gateway b (g\<lparr>gw_unstaking_end_height := Some e\<rparr>)
         (st\<lparr>gateway_unbonding_begins := save gub_id \<lparr>gub_id = get_event_id ev, gub_end_height = e,
            gub_session_end_height = s, gub_gateway_id = gw_id g, gub_block_id = b,
            gub_transaction_id = Some (tx_hash tx)\<rparr> (gateway_unbonding_begins st)\<rparr>)))))"

text \<open>The end event writes the height of the event, not the block of the handler, as the end block.\<close>

definition handle_event_gateway_unbonding_end_one :: "int \<Rightarrow> cosmos_event \<Rightarrow> gateway_db \<Rightarrow> gateway_db res" where
  "handle_event_gateway_unbonding_end_one b ev st =
     bind_res (read_gateway_attributes ''[handleEventGatewayUnbondingEnd]'' (attributes (event ev))) (\<lambda>(e, s, addr).
     bind_res (require (''[handleEventGatewayUnbondingEnd] gateway not found for address '' @ addr)
         (get_gateway addr st)) (\<lambda>g.
       Inr (remove_delegations b (get_undelegates_for_unstaked_gateway b addr st)
         (save_gateway b (g\<lparr>gw_unstaking_end_block := Some e, gw_stake_status := Unstaked, gw_stake_amount := 0\<rparr>)
           (st\<lparr>gateway_unbonding_ends := save gub_id \<lparr>gub_id = get_event_id ev, gub_end_height = e,
              gub_session_end_height = s, gub_gateway_id = gw_id g, gub_block_id = b,
              gub_transaction_id = None\<rparr> (gateway_unbonding_ends st)\<rparr>)))))"

subsection \<open>Batches\<close>

definition handle_gateway_msg_stake :: "int \<Rightarrow> cosmos_msg list \<Rightarrow> gateway_db \<Rightarrow> gateway_db res" where
  "handle_gateway_msg_stake b msgs st = foldM_res (\<lambda>st m. handle_gateway_msg_stake_one b m st) st msgs"

definition handle_gateway_msg_unstake :: "int \<Rightarrow> cosmos_msg list \<Rightarrow> gateway_db \<Rightarrow> gateway_db res" where
  "handle_gateway_msg_unstake b msgs st = foldM_res (\<lambda>st m. handle_gateway_msg_unstake_one b m st) st msgs"

definition handle_gateway_unstake_event :: "int \<Rightarrow> cosmos_event list \<Rightarrow> gateway_db \<Rightarrow> gateway_db res" where
  "handle_gateway_unstake_event b evs st = foldM_res (\<lambda>st e. handle_gateway_unstake_event_one b e st) st evs"

definition handle_event_gateway_unbonding_begin :: "int \<Rightarrow> cosmos_event list \<Rightarrow> gateway_db \<Rightarrow> gateway_db res" where
  "handle_event_gateway_unbonding_begin b evs st =
     foldM_res (\<lambda>st e. handle_event_gateway_unbonding_begin_one b e st) st evs"

definition handle_event_gateway_unbonding_end :: "int \<Rightarrow> cosmos_event list \<Rightarrow> gateway_db \<Rightarrow> gateway_db res" where
  "handle_event_gateway_unbonding_end b evs st =
     foldM_res (\<lambda>st e. handle_event_gateway_unbonding_end_one b e st) st evs"

subsection \<open>Lemmas\<close>

lemma save_gateway_simps [simp]:
  "gw_apps (save_gateway b g st) = gw_apps st"
  "gateways (save_gateway b g st) = put_versions gw_id b [g] (gateways st)"
  by (simp_all add: save_gateway_def)

lemma remove_delegations_simps [simp]:
  "gateways (remove_delegations b ids st) = gateways st"
  "app_gateways (gw_apps (remove_delegations b ids st)) = remove_versions b ids (app_gateways (gw_apps st))"
  "applications (gw_apps (remove_delegations b ids st)) = applications (gw_apps st)"
  "app_services (gw_apps (remove_delegations b ids st)) = app_services (gw_apps st)"
  by (simp_all add: remove_delegations_def)

definition gateway_ok :: "int \<Rightarrow> gateway_db \<Rightarrow> bool" where
  "gateway_ok b st \<longleftrightarrow> hist_ok gw_id b (gateways st) \<and> app_ok b (gw_apps st)"

lemma remove_delegations_ok [simp]: "app_ok b (gw_apps st) \<Longrightarrow> app_ok b (gw_apps (remove_delegations b ids st))"
  by (simp add: app_ok_def)

text \<open>Removing the delegations of a gateway leaves exactly those to the others.\<close>

lemma undelegated:
  assumes "app_ok b (gw_apps st)" and "plain app" and that: "gw_apps st' = gw_apps st"
  shows "delegated (gw_apps (remove_delegations b (get_undelegates_for_unstaked_gateway b gw st) st')) app gw' \<longleftrightarrow>
    gw' \<noteq> gw \<and> delegated (gw_apps st) app gw'"
proof -
  have ok: "hist_ok ag_id b (app_gateways (gw_apps st))" "gateways_ok (app_gateways (gw_apps st))"
    using assms(1) by (simp_all add: app_ok_def)
  show ?thesis
    unfolding delegated_def remove_delegations_simps that get_undelegates_for_unstaked_gateway_def
      fetch_all_application_gateway_by_gateway_id_def
    by (rule gateway_links.links_dropped [OF ok(1) ok(2) [unfolded gateways_ok_links] assms(2)]) (rule refl)
qed

subsection \<open>Properties\<close>

text \<open>
  When the unbonding of a gateway ends, it is unstaked with no stake left, every delegation to it
  is removed, and the delegations to other gateways and all other gateways stay.
\<close>

theorem gateway_unbonding_end_spec:
  assumes "gateway_ok b st"
    and "read_gateway_attributes ''[handleEventGatewayUnbondingEnd]'' (attributes (event ev)) = Inr (e, s, addr)"
    and "get_gateway addr st = Some g"
  shows "\<exists>st'. handle_event_gateway_unbonding_end b [ev] st = Inr st' \<and>
    get_gateway addr st' = Some (g\<lparr>gw_unstaking_end_block := Some e, gw_stake_status := Unstaked, gw_stake_amount := 0\<rparr>) \<and>
    (\<forall>i. i \<noteq> addr \<longrightarrow> get_gateway i st' = get_gateway i st) \<and>
    (\<forall>app gw. plain app \<longrightarrow> delegated (gw_apps st') app gw = (gw \<noteq> addr \<and> delegated (gw_apps st) app gw)) \<and>
    gateway_ok b st'"
proof -
  have ok: "hist_ok gw_id b (gateways st)" "app_ok b (gw_apps st)" using assms(1) by (simp_all add: gateway_ok_def)
  have gid: "gw_id g = addr" using live_map_ident [OF ok(1)] assms(3) by (simp add: get_gateway_def)
  show ?thesis
    using assms(2,3) gid live_map_put_one [OF ok(1)] ok
    by (simp add: handle_event_gateway_unbonding_end_def handle_event_gateway_unbonding_end_one_def
        get_gateway_def undelegated gateway_ok_def)
qed

definition gateway_example :: "string \<Rightarrow> gateway" where
  "gateway_example a = \<lparr>gw_id = a, gw_account_id = a, gw_stake_amount = 5, gw_stake_denom = ''upokt'',
     gw_stake_status = Unstaking, gw_unstaking_end_height = None, gw_unstaking_end_block = None,
     gw_unstaking_begin_block = None\<rparr>"

definition gateway_db_example :: gateway_db where
  "gateway_db_example = \<lparr>gateways = map (new_row gw_id 1) (map gateway_example [''g'', ''h'']),
     msg_stake_gateways = (\<lambda>_. None), msg_unstake_gateways = (\<lambda>_. None), gateway_unstakes = (\<lambda>_. None),
     gateway_unbonding_begins = (\<lambda>_. None), gateway_unbonding_ends = (\<lambda>_. None), gw_apps = app_db_example\<rparr>"

lemma gateway_ok_example: "gateway_ok 7 gateway_db_example"
proof -
  have "hist_ok gw_id 7 (gateways gateway_db_example)" by code_simp
  then show ?thesis using app_ok_example by (simp add: gateway_ok_def gateway_db_example_def)
qed

theorem gateway_unbonding_end_spec_witness:
  "\<exists>st'. handle_event_gateway_unbonding_end 7 [event_example ''pocket.gateway.EventGatewayUnbondingEnd''
       [(''gateway_address'', quoted ''g''), (''session_end_height'', quoted ''6''),
        (''unbonding_end_height'', quoted ''7'')]] gateway_db_example = Inr st' \<and>
     delegated app_db_example ''a'' ''g'' \<and> \<not> delegated (gw_apps st') ''a'' ''g''"
proof -
  let ?ev = "event_example ''pocket.gateway.EventGatewayUnbondingEnd''
       [(''gateway_address'', quoted ''g''), (''session_end_height'', quoted ''6''),
        (''unbonding_end_height'', quoted ''7'')]"
  have attrs: "read_gateway_attributes ''[handleEventGatewayUnbondingEnd]'' (attributes (event ?ev)) = Inr (7, 6, ''g'')"
    by code_simp
  have g: "get_gateway ''g'' gateway_db_example = Some (gateway_example ''g'')" by code_simp
  have facts: "plain ''a''" "delegated app_db_example ''a'' ''g''" by code_simp+
  show ?thesis
    using gateway_unbonding_end_spec [OF gateway_ok_example attrs g] facts by auto
qed

subsection \<open>An unstaked gateway has no stake\<close>

inductive gateway_step :: "int \<times> gateway_db \<Rightarrow> int \<times> gateway_db \<Rightarrow> bool" where
  gw_next: "b \<le> b' \<Longrightarrow> gateway_step (b, st) (b', st)"
| gw_stake: "handle_gateway_msg_stake b msgs st = Inr st' \<Longrightarrow> gateway_step (b, st) (b, st')"
| gw_unstake: "handle_gateway_msg_unstake b msgs st = Inr st' \<Longrightarrow> gateway_step (b, st) (b, st')"
| gw_unstaked: "handle_gateway_unstake_event b evs st = Inr st' \<Longrightarrow> gateway_step (b, st) (b, st')"
| gw_begin: "handle_event_gateway_unbonding_begin b evs st = Inr st' \<Longrightarrow> gateway_step (b, st) (b, st')"
| gw_end: "handle_event_gateway_unbonding_end b evs st = Inr st' \<Longrightarrow> gateway_step (b, st) (b, st')"
| gw_app: "app_step (b, gw_apps st) (b', a) \<Longrightarrow> b \<le> b' \<Longrightarrow> gateway_step (b, st) (b', st\<lparr>gw_apps := a\<rparr>)"

inductive_simps gateway_step_simps: "gateway_step (b, st) s"

definition settled :: "gateway \<Rightarrow> bool" where
  "settled g \<longleftrightarrow> (gw_stake_status g = Unstaked \<longrightarrow> gw_stake_amount g = 0)"

definition gateways_settled :: "gateway_db \<Rightarrow> bool" where
  "gateways_settled st \<longleftrightarrow> (\<forall>i g. get_gateway i st = Some g \<longrightarrow> settled g)"

lemma settled_updates [simp]:
  "settled (g\<lparr>gw_unstaking_end_block := e, gw_stake_status := Unstaked, gw_stake_amount := 0\<rparr>)"
  "settled (g\<lparr>gw_stake_status := Unstaking, gw_unstaking_begin_block := e\<rparr>)"
  "settled (g\<lparr>gw_unstaking_end_height := e\<rparr>) = settled g"
  by (simp_all add: settled_def)

lemma gateways_settled_save:
  assumes "hist_ok gw_id b (gateways st)" "gateways_settled st" "settled g"
  shows "gateways_settled (save_gateway b g st)"
  using assms(2,3) live_map_put_one [OF assms(1)]
  by (simp add: gateways_settled_def get_gateway_def)

lemma gateways_settled_cong: "gateways st = gateways st' \<Longrightarrow> gateways_settled st = gateways_settled st'"
  by (simp add: gateways_settled_def get_gateway_def)

definition gw_inv :: "int \<Rightarrow> gateway_db \<Rightarrow> bool" where
  "gw_inv b st \<longleftrightarrow> gateway_ok b st \<and> gateways_settled st"

lemma gw_inv_save:
  assumes "gw_inv b st" "gateways st' = gateways st" "gw_apps st' = gw_apps st" "settled g"
  shows "gw_inv b (save_gateway b g st')" "gw_inv b (remove_delegations b ids (save_gateway b g st'))"
proof -
  have ok: "hist_ok gw_id b (gateways st')" "gateways_settled st'" "app_ok b (gw_apps st')"
    using assms gateways_settled_cong [of st' st] by (simp_all add: gw_inv_def gateway_ok_def)
  then show "gw_inv b (save_gateway b g st')"
    using gateways_settled_save [OF ok(1,2) assms(4)] by (simp add: gw_inv_def gateway_ok_def)
  then show "gw_inv b (remove_delegations b ids (save_gateway b g st'))"
    using gateways_settled_cong [of "remove_delegations b ids (save_gateway b g st')" "save_gateway b g st'"]
    by (simp add: gw_inv_def gateway_ok_def)
qed

lemma gw_inv_get: "gw_inv b st \<Longrightarrow> get_gateway i st = Some g \<Longrightarrow> settled g"
  by (auto simp: gw_inv_def gateways_settled_def)

lemma gateway_one_inv:
  assumes "gw_inv b st"
  shows "handle_gateway_msg_stake_one b msg st = Inr st' \<Longrightarrow> gw_inv b st'"
    and "handle_gateway_msg_unstake_one b msg st = Inr st' \<Longrightarrow> gw_inv b st'"
    and "handle_gateway_unstake_event_one b ev st = Inr st' \<Longrightarrow> gw_inv b st'"
    and "handle_event_gateway_unbonding_begin_one b ev st = Inr st' \<Longrightarrow> gw_inv b st'"
    and "handle_event_gateway_unbonding_end_one b ev st = Inr st' \<Longrightarrow> gw_inv b st'"
  using gw_inv_get [OF assms]
  by (auto simp: handle_gateway_msg_stake_one_def handle_gateway_msg_unstake_one_def
      handle_gateway_unstake_event_one_def handle_event_gateway_unbonding_begin_one_def
      handle_event_gateway_unbonding_end_one_def res_eq_Inr settled_def
      split: decoded_msg.splits intro!: gw_inv_save [OF assms])

lemma gateway_step_inv:
  assumes "gateway_step (b, st) (b', st')" "gw_inv b st"
  shows "gw_inv b' st'"
  using assms(1)
proof (cases rule: gateway_step.cases)
  case gw_next
  then show ?thesis using assms(2) by (auto simp: gw_inv_def gateway_ok_def app_ok_def intro: hist_ok_mono)
next
  case (gw_app a)
  then show ?thesis
    using assms(2) app_step_ok
    by (auto simp: gw_inv_def gateway_ok_def gateways_settled_def get_gateway_def intro: hist_ok_mono)
qed (use assms(2) in \<open>auto simp: handle_gateway_msg_stake_def handle_gateway_msg_unstake_def
    handle_gateway_unstake_event_def handle_event_gateway_unbonding_begin_def handle_event_gateway_unbonding_end_def
    elim!: foldM_res_invariant [where P = "gw_inv b"] intro: gateway_one_inv\<close>)

text \<open>
  Along any sequence of indexed gateway and application messages and events, an unstaked gateway
  has no stake, and the gateways and their delegations keep one current row each.
\<close>

theorem gateway_steps_inv:
  assumes "gateway_step\<^sup>*\<^sup>* (b, st) (b', st')" and "gateway_ok b st"
    and "\<And>i g. get_gateway i st = Some g \<Longrightarrow> gw_stake_status g = Unstaked \<Longrightarrow> gw_stake_amount g = 0"
    and "get_gateway i st' = Some g" and "gw_stake_status g = Unstaked"
  shows "gw_stake_amount g = 0 \<and> gateway_ok b' st'"
proof -
  have "gw_inv b st" using assms(2,3) by (auto simp: gw_inv_def gateways_settled_def settled_def)
  with assms(1) have "gw_inv b' st'"
    by (induction rule: rtranclp_induct2) (blast intro: gateway_step_inv)+
  then show ?thesis
    using assms(4,5) gw_inv_get by (force simp: gw_inv_def settled_def)
qed

definition unbonded_event_example :: cosmos_event where
  "unbonded_event_example = event_example ''pocket.gateway.EventGatewayUnbondingEnd''
     [(''gateway'', [CHR 0x7B] @ quoted ''address'' @ '':'' @ quoted ''h'' @ [CHR 0x7D]),
      (''session_end_height'', quoted ''6''), (''unbonding_end_height'', quoted ''7'')]"

theorem gateway_steps_inv_witness:
  "case handle_event_gateway_unbonding_end 7 [unbonded_event_example] gateway_db_example of
     Inr st' \<Rightarrow> (\<exists>g. get_gateway ''h'' st' = Some g \<and> gw_stake_status g = Unstaked \<and> gw_stake_amount g = 0) \<and>
       gateway_ok 7 st'
   | Inl _ \<Rightarrow> False"
proof -
  have "case handle_event_gateway_unbonding_end 7 [unbonded_event_example] gateway_db_example of
     Inr st' \<Rightarrow> (case get_gateway ''h'' st' of Some g \<Rightarrow> gw_stake_status g = Unstaked | None \<Rightarrow> False) | Inl _ \<Rightarrow> False"
    by code_simp
  then obtain st' g where run: "handle_event_gateway_unbonding_end 7 [unbonded_event_example] gateway_db_example = Inr st'"
    and g: "get_gateway ''h'' st' = Some g" "gw_stake_status g = Unstaked"
    by (auto split: sum.splits option.splits)
  have reach: "gateway_step\<^sup>*\<^sup>* (7, gateway_db_example) (7, st')"
    using gateway_step.gw_end [OF run] by (rule r_into_rtranclp)
  have start: "gw_stake_amount g' = 0" if "get_gateway i gateway_db_example = Some g'" "gw_stake_status g' = Unstaked" for i g'
    using that by (auto simp: get_gateway_def gateway_db_example_def live_map_def gateway_example_def new_row_def
        split: if_splits)
  show ?thesis
    using gateway_steps_inv [OF reach gateway_ok_example start g] g run by auto
qed

end
