(* ===== verification/Services.thy ===== *)
theory Services
  imports Ids Store
begin

text \<open>
  \<open>src/mappings/pocket/services.ts\<close>: the services and the updates of their relay mining difficulty.
  The store of services is written only through entities, so the table is a map. The four difficulty
  fields of a service are absent until they are set.
\<close>

record service =
  svc_id :: string
  svc_compute_units :: int
  svc_name :: string
  svc_owner :: string
  svc_prev_target :: "string option"
  svc_new_target :: "string option"
  svc_prev_ema :: "int option"
  svc_new_ema :: "int option"

record msg_add_service =
  mad_msg_id :: string
  mad_name :: string
  mad_owner :: string
  mad_service :: string
  mad_compute_units :: int
  mad_block_id :: int
  mad_transaction_id :: string

record difficulty_updated =
  du_id :: string
  du_service_id :: string
  du_prev_target :: string
  du_new_target :: string
  du_prev_ema :: int
  du_new_ema :: int
  du_block_id :: int

record service_db =
  services :: "service tbl"
  msg_add_services :: "msg_add_service tbl"
  difficulty_updates :: "difficulty_updated tbl"

definition handle_msg_add_service_one :: "int \<Rightarrow> cosmos_msg \<Rightarrow> service_db \<Rightarrow> service_db res" where
  "handle_msg_add_service_one b msg st = (case decoded msg of
     AddService owner i name units \<Rightarrow>
       Inr (st\<lparr>services := save svc_id \<lparr>svc_id = i, svc_compute_units = int units, svc_name = name, svc_owner = owner,
              svc_prev_target = None, svc_new_target = None, svc_prev_ema = None, svc_new_ema = None\<rparr> (services st),
            msg_add_services := save mad_msg_id \<lparr>mad_msg_id = message_id msg, mad_name = name, mad_owner = owner,
              mad_service = i, mad_compute_units = int units, mad_block_id = b,
              mad_transaction_id = tx_hash (msg_tx msg)\<rparr> (msg_add_services st)\<rparr>)
   | _ \<Rightarrow> throw ''unexpected message'')"

record difficulty_acc =
  da_service :: string
  da_prev_target :: string
  da_new_target :: string
  da_prev_ema :: "int option"
  da_new_ema :: "int option"

definition difficulty_attribute :: "difficulty_acc \<Rightarrow> attribute \<Rightarrow> difficulty_acc res" where
  "difficulty_attribute acc = (\<lambda>(k, v). let value = strip_quotes v in
     if k = ''service_id'' then Inr (acc\<lparr>da_service := value\<rparr>)
     else if k = ''prev_target_hash_hex_encoded'' then Inr (acc\<lparr>da_prev_target := value\<rparr>)
     else if k = ''new_target_hash_hex_encoded'' then Inr (acc\<lparr>da_new_target := value\<rparr>)
     else if k = ''prev_num_relays_ema'' then map_res (\<lambda>n. acc\<lparr>da_prev_ema := Some n\<rparr>) (big_int value)
     else if k = ''new_num_relays_ema'' then map_res (\<lambda>n. acc\<lparr>da_new_ema := Some n\<rparr>) (big_int value)
     else Inr acc)"

text \<open>\<open>if (!ema)\<close>: absent and zero are both falsy.\<close>

definition require_ema :: "string \<Rightarrow> int option \<Rightarrow> int res" where
  "require_ema msg x = (case x of None \<Rightarrow> throw msg | Some n \<Rightarrow> if n = 0 then throw msg else Inr n)"

definition handle_event_relay_mining_difficulty_updated_one :: "int \<Rightarrow> cosmos_event \<Rightarrow> difficulty_updated res" where
  "handle_event_relay_mining_difficulty_updated_one b ev =
     bind_res (foldM_res difficulty_attribute
         \<lparr>da_service = [], da_prev_target = [], da_new_target = [], da_prev_ema = None, da_new_ema = None\<rparr>
         (attributes (event ev))) (\<lambda>acc.
     bind_res (require_str ''[handleEventRelayMiningDifficultyUpdated] serviceId not found in event'' (da_service acc)) (\<lambda>service.
     bind_res (require_str ''[handleEventRelayMiningDifficultyUpdated] prevTargetHashHexEncoded not found in event''
         (da_prev_target acc)) (\<lambda>prev_target.
     bind_res (require_str ''[handleEventRelayMiningDifficultyUpdated] newTargetHashHexEncoded not found in event''
         (da_new_target acc)) (\<lambda>new_target.
     bind_res (require_ema ''[handleEventRelayMiningDifficultyUpdated] prevNumRelaysEma not found in event''
         (da_prev_ema acc)) (\<lambda>prev_ema.
     bind_res (require_ema ''[handleEventRelayMiningDifficultyUpdated] newNumRelaysEma not found in event''
         (da_new_ema acc)) (\<lambda>new_ema.
       Inr \<lparr>du_id = get_event_id ev, du_service_id = service, du_prev_target = prev_target,
            du_new_target = new_target, du_prev_ema = prev_ema, du_new_ema = new_ema, du_block_id = b\<rparr>))))))"

definition update_relay_mining_difficulty_of_service :: "difficulty_updated \<Rightarrow> service_db \<Rightarrow> service_db res" where
  "update_relay_mining_difficulty_of_service d st =
     map_res (\<lambda>s. st\<lparr>services := save svc_id (s\<lparr>svc_prev_target := Some (du_prev_target d),
          svc_new_target := Some (du_new_target d), svc_prev_ema := Some (du_prev_ema d),
          svc_new_ema := Some (du_new_ema d)\<rparr>) (services st)\<rparr>)
       (require (''[handleEventRelayMiningDifficultyUpdated] service not found for id '' @ du_service_id d)
         (services st (du_service_id d)))"

definition handle_msg_add_service :: "int \<Rightarrow> cosmos_msg list \<Rightarrow> service_db \<Rightarrow> service_db res" where
  "handle_msg_add_service b msgs st = foldM_res (\<lambda>st m. handle_msg_add_service_one b m st) st msgs"

text \<open>Only the events are stored: nothing calls the update of the service's own fields.\<close>

definition handle_event_relay_mining_difficulty_updated ::
  "int \<Rightarrow> cosmos_event list \<Rightarrow> service_db \<Rightarrow> service_db res" where
  "handle_event_relay_mining_difficulty_updated b evs st =
     map_res (\<lambda>ds. st\<lparr>difficulty_updates := bulk_create du_id ds (difficulty_updates st)\<rparr>)
       (mapM_res (handle_event_relay_mining_difficulty_updated_one b) evs)"

end
