(* ===== verification/Float64.thy ===== *)
theory Float64
  imports Complex_Main "HOL-Library.Log_Nat"
begin

text \<open>
  JavaScript's \<open>number\<close> where the source computes with fractions: a double is its rational value,
  \<open>dbl\<close> rounds to the nearest double, ties to even, with gradual underflow. Every operation of the
  source is the exact operation followed by \<open>dbl\<close>. A value whose magnitude is \<open>2 ^ 1024\<close> or more
  after rounding is \<open>Infinity\<close> in the source; \<open>overflows\<close> recognises it.
\<close>

definition round_half_even :: "rat \<Rightarrow> int" where
  "round_half_even x =
     (let f = \<lfloor>x\<rfloor>; d = x - of_int f in
      if d < 1 / 2 then f else if 1 / 2 < d then f + 1 else if even f then f else f + 1)"

definition flog2 :: "rat \<Rightarrow> int" where
  "flog2 x = (case quotient_of x of (p, q) \<Rightarrow>
     let e = bitlen p - bitlen q in if 2 powi e \<le> x then e else e - 1)"

definition ulp :: "rat \<Rightarrow> rat" where
  "ulp x = 2 powi (max (flog2 \<bar>x\<bar>) (- 1022) - 52)"

definition dbl :: "rat \<Rightarrow> rat" where
  "dbl x = (if x = 0 then 0 else of_int (round_half_even (x / ulp x)) * ulp x)"

definition overflows :: "rat \<Rightarrow> bool" where
  "overflows x \<longleftrightarrow> 2 ^ 1024 \<le> \<bar>x\<bar>"

text \<open>\<open>Math.round\<close> and \<open>Math.ceil\<close>.\<close>

definition math_round :: "rat \<Rightarrow> int" where
  "math_round x = \<lfloor>x + 1 / 2\<rfloor>"

subsection \<open>Exactness\<close>

lemma round_half_even_int [simp]: "round_half_even (of_int n) = n"
  by (simp add: round_half_even_def)

lemma round_half_even_bound: "\<bar>of_int (round_half_even x) - x\<bar> \<le> 1 / 2"
  using floor_correct [of x] by (auto simp: round_half_even_def Let_def abs_le_iff)

lemma ulp_pos [simp]: "0 < ulp x" "ulp x \<noteq> 0"
  by (simp_all add: ulp_def)

lemma dbl_error: "\<bar>dbl x - x\<bar> \<le> ulp x / 2"
proof (cases "x = 0")
  case False
  have "dbl x - x = (of_int (round_half_even (x / ulp x)) - x / ulp x) * ulp x"
    using False by (simp add: dbl_def field_simps)
  then have "\<bar>dbl x - x\<bar> = \<bar>of_int (round_half_even (x / ulp x)) - x / ulp x\<bar> * ulp x"
    by (simp add: abs_mult less_imp_le)
  also have "\<dots> \<le> (1 / 2) * ulp x"
    by (intro mult_right_mono round_half_even_bound) (simp add: less_imp_le)
  finally show ?thesis by simp
qed (simp add: dbl_def less_imp_le)

lemma bitlen_bounds: "0 < p \<Longrightarrow> 2 ^ nat (bitlen p - 1) \<le> p \<and> p < 2 ^ nat (bitlen p)"
  using bitlen_bounds [of p] by simp

lemma flog2_lower: "0 < x \<Longrightarrow> 2 powi flog2 x \<le> x"
proof -
  assume "0 < x"
  obtain p q where pq: "quotient_of x = (p, q)" by (cases "quotient_of x")
  then have q: "0 < q" and x: "x = of_int p / of_int q"
    using quotient_of_denom_pos quotient_of_div by blast+
  with \<open>0 < x\<close> have p: "0 < p" by (simp add: zero_less_divide_iff)
  have bp: "1 \<le> bitlen p" and bq: "1 \<le> bitlen q"
    using p q by (simp_all add: bitlen_def floorlog_def)
  have "2 powi (bitlen p - bitlen q - 1) = (2 ^ nat (bitlen p - 1) :: rat) / 2 ^ nat (bitlen q)"
  proof -
    have "2 powi (bitlen p - bitlen q - 1) = 2 powi (bitlen p - 1) / (2 powi bitlen q :: rat)"
      by (simp flip: power_int_diff add: algebra_simps)
    then show ?thesis using bp bq by (simp add: power_int_def)
  qed
  also have "\<dots> \<le> of_int p / of_int q"
  proof (rule frac_le)
    show "(2 ^ nat (bitlen p - 1) :: rat) \<le> of_int p"
      using bitlen_bounds [OF p] by (metis of_int_le_iff of_int_numeral of_int_power)
    show "of_int q \<le> (2 ^ nat (bitlen q) :: rat)"
      using bitlen_bounds [OF q] by (metis less_imp_le of_int_le_iff of_int_numeral of_int_power)
  qed (use p q in simp_all)
  also have "of_int p / of_int q = x" by (simp add: x)
  finally show ?thesis by (simp add: flog2_def pq Let_def)
qed

lemma powi_diff: "(2 :: rat) powi (a - b) = 2 powi a / 2 powi b"
  by (simp add: power_int_diff)

text \<open>A number with a 53-bit significand and an exponent in range is a double.\<close>

lemma dbl_exact:
  assumes "\<bar>m\<bar> \<le> 2 ^ 53" and "- 1074 \<le> k"
  shows "dbl (of_int m * 2 powi k) = of_int m * 2 powi k"
proof (cases "m = 0")
  case False
  define x :: rat where "x = of_int m * 2 powi k"
  define e where "e = max (flog2 \<bar>x\<bar>) (- 1022)"
  have x0: "x \<noteq> 0" using False by (simp add: x_def)
  have ulp: "ulp x = 2 powi (e - 52)" by (simp add: ulp_def e_def)
  have "\<exists>n. x / ulp x = of_int n"
  proof (cases "e - 52 \<le> k")
    case True
    have "x / ulp x = of_int m * 2 powi (k - (e - 52))"
      unfolding ulp unfolding x_def by (simp only: powi_diff) simp
    also have "\<dots> = of_int (m * 2 ^ nat (k - (e - 52)))"
      using True by (simp add: power_int_def)
    finally show ?thesis by blast
  next
    case False
    then have e: "e = flog2 \<bar>x\<bar>" using assms(2) by (simp add: e_def)
    have "2 powi e \<le> \<bar>x\<bar>" using x0 by (simp add: e flog2_lower)
    also have "\<bar>x\<bar> = of_int \<bar>m\<bar> * 2 powi k" by (simp add: x_def abs_mult)
    finally have le: "2 powi e \<le> of_int \<bar>m\<bar> * (2 powi k :: rat)" .
    have "2 powi e = 2 powi (e - k) * (2 powi k :: rat)"
      by (simp flip: power_int_add)
    with le have "2 powi (e - k) \<le> (of_int \<bar>m\<bar> :: rat)" by simp
    moreover have "2 powi (e - k) = (of_int (2 ^ nat (e - k)) :: rat)"
      using False by (simp add: power_int_def)
    ultimately have m: "2 ^ nat (e - k) \<le> \<bar>m\<bar>" by (metis of_int_le_iff)
    with assms(1) have "(2 :: int) ^ nat (e - k) \<le> 2 ^ 53" by linarith
    then have "nat (e - k) \<le> 53" by (rule power_le_imp_le_exp [rotated]) simp
    with False have ek: "e = k + 53" by arith
    with m assms(1) have "\<bar>m\<bar> = 2 ^ 53" by simp
    then have "m = 2 ^ 53 \<or> m = - (2 ^ 53)" by arith
    moreover have "x / ulp x = of_int m * 2 powi (k - (e - 52))"
      unfolding ulp unfolding x_def by (simp only: powi_diff) simp
    ultimately have "x / ulp x = of_int (2 ^ 52) \<or> x / ulp x = of_int (- (2 ^ 52))"
      by (elim disjE) (simp_all add: ek power_int_minus)
    then show ?thesis by blast
  qed
  then obtain n where "x / ulp x = of_int n" by blast
  then have "dbl x = x / ulp x * ulp x" by (simp add: dbl_def x0)
  then show ?thesis by (simp add: x_def)
qed (simp add: dbl_def)

lemma dbl_int: "\<bar>m\<bar> \<le> 2 ^ 53 \<Longrightarrow> dbl (of_int m) = of_int m"
  using dbl_exact [of m 0] by simp

lemma dbl_0 [simp]: "dbl 0 = 0"
  by (simp add: dbl_def)

lemma math_round_int [simp]: "math_round (of_int n) = n"
  by (simp add: math_round_def floor_eq_iff)

lemma dbl_nonneg: "0 \<le> x \<Longrightarrow> 0 \<le> dbl x"
proof -
  assume "0 \<le> x"
  then have "0 \<le> x / ulp x" by (simp add: less_imp_le)
  then have "0 \<le> round_half_even (x / ulp x)"
    by (auto simp: round_half_even_def Let_def le_floor_iff)
  then show ?thesis by (simp add: dbl_def less_imp_le)
qed

end
