(* ===== verification/JsNumber.thy ===== *)
theory JsNumber
  imports Float64 JsString
begin

text \<open>
  Reading and writing JavaScript numbers: \<open>Number(s)\<close>, \<open>parseFloat(s)\<close>, \<open>parseInt(s)\<close> and
  \<open>n.toString()\<close> of an integral number. A value is the double's rational; \<open>None\<close> is \<open>NaN\<close> or an
  infinity, which the callers treat alike: \<open>BigInt\<close> of either throws.
\<close>

text \<open>The exponent part of a literal, zero when there is none, and the rest of the text.\<close>

definition exponent_part :: "string \<Rightarrow> int \<times> string" where
  "exponent_part r = (case r of
     [] \<Rightarrow> (0, r)
   | c # t \<Rightarrow> (if c = CHR ''e'' \<or> c = CHR ''E'' then
       (let (neg, u) = (case t of [] \<Rightarrow> (False, t)
            | d # u \<Rightarrow> if d = CHR ''-'' then (True, u) else if d = CHR ''+'' then (False, u) else (False, t));
            ds = takeWhile is_digit u in
        if ds = [] then (0, r)
        else ((if neg then - int (parse_nat ds) else int (parse_nat ds)), drop (length ds) u))
       else (0, r)))"

text \<open>The longest unsigned decimal literal at the start of the text, with the rest.\<close>

definition decimal_part :: "string \<Rightarrow> (rat \<times> string) option" where
  "decimal_part s =
     (let i = takeWhile is_digit s; r = drop (length i) s;
          (f, r1) = (case r of [] \<Rightarrow> ([], r)
            | c # t \<Rightarrow> if c = CHR ''.'' then (takeWhile is_digit t, dropWhile is_digit t) else ([], r)) in
      if i = [] \<and> f = [] then None
      else let (e, r2) = exponent_part r1 in
        Some (of_nat (parse_nat (i @ f)) * 10 powi (e - int (length f)), r2))"

definition signed_part :: "string \<Rightarrow> (rat \<times> string) option" where
  "signed_part s = (case s of
     [] \<Rightarrow> None
   | c # t \<Rightarrow> if c = CHR ''-'' then map_option (\<lambda>(x, r). (- x, r)) (decimal_part t)
       else if c = CHR ''+'' then decimal_part t else decimal_part s)"

definition finite_dbl :: "rat \<Rightarrow> rat option" where
  "finite_dbl x = (if overflows (dbl x) then None else Some (dbl x))"

definition js_number :: "string \<Rightarrow> rat option" where
  "js_number s =
     (let t = trim s in
      if t = [] then Some 0
      else if take 2 t \<in> {''0x'', ''0X'', ''0o'', ''0O'', ''0b'', ''0B''} then
        Option.bind (int_literal t) (\<lambda>n. finite_dbl (of_int n))
      else case signed_part t of Some (x, []) \<Rightarrow> finite_dbl x | _ \<Rightarrow> None)"

definition parse_float :: "string \<Rightarrow> rat option" where
  "parse_float s = Option.bind (signed_part (dropWhile is_space s)) (\<lambda>(x, _). finite_dbl x)"

text \<open>
  \<open>parseInt(s)\<close>: an optional sign, then hexadecimal digits after \<open>0x\<close> or decimal digits. The result
  is only compared with small numbers, so that its rounding above \<open>2 ^ 53\<close> does not matter.
\<close>

definition parse_int :: "string \<Rightarrow> int option" where
  "parse_int s =
     (let t = dropWhile is_space s;
          (neg, u) = (case t of [] \<Rightarrow> (False, t)
            | d # u \<Rightarrow> if d = CHR ''-'' then (True, u) else if d = CHR ''+'' then (False, u) else (False, t));
          v = (if take 2 u \<in> {''0x'', ''0X''} then radix_literal 16 (takeWhile (\<lambda>c. radix_val c < 16) (drop 2 u))
               else dec_literal (takeWhile is_digit u)) in
      if neg then map_option uminus v else v)"

text \<open>
  \<open>BigInt(x)\<close> of a number is an error unless it is an integer. \<open>x.toString()\<close> of an integral number
  of \<open>10 ^ 21\<close> or more has an exponent; \<open>int_text\<close> marks it by one, which \<open>BigInt\<close> does not read.
\<close>

definition big_int_of_number :: "rat option \<Rightarrow> int res" where
  "big_int_of_number x = (case x of
     None \<Rightarrow> throw ''RangeError: The number cannot be converted to a BigInt''
   | Some q \<Rightarrow> if of_int \<lfloor>q\<rfloor> = q then Inr \<lfloor>q\<rfloor>
       else throw ''RangeError: The number cannot be converted to a BigInt'')"

definition int_text :: "int \<Rightarrow> string" where
  "int_text n = (if \<bar>n\<bar> < 10 ^ 21 then show_int n else show_int n @ ''e+'')"

lemma big_int_of_number_int [simp]: "big_int_of_number (Some (of_int n)) = Inr n"
  by (simp add: big_int_of_number_def)

lemma js_number_radix_free: "is_digit c \<Longrightarrow> list_all is_digit ds \<Longrightarrow>
    take 2 (c # ds) \<notin> {''0x'', ''0X'', ''0o'', ''0O'', ''0b'', ''0B''}"
  by (cases ds) (auto simp: is_digit_def)

lemma trim_digits: "list_all is_digit ds \<Longrightarrow> trim ds = ds"
proof -
  assume "list_all is_digit ds"
  then have "dropWhile is_space xs = xs" if "set xs \<subseteq> set ds" for xs
    using that by (cases xs) (auto simp: list_all_iff dest: digit_not_space)
  then show ?thesis by (simp add: trim_def)
qed

lemma decimal_part_digits:
  assumes "list_all is_digit ds" "ds \<noteq> []"
  shows "decimal_part ds = Some (of_nat (parse_nat ds), [])"
proof -
  have all: "takeWhile is_digit ds = ds"
    using assms(1) by (subst takeWhile_eq_all_conv) (simp add: list_all_iff)
  then show ?thesis using assms(2) by (simp add: decimal_part_def exponent_part_def all del: takeWhile_eq_all_conv)
qed

lemma signed_part_digits:
  assumes "list_all is_digit ds" "ds \<noteq> []"
  shows "signed_part ds = Some (of_nat (parse_nat ds), [])"
proof -
  obtain c cs where ds: "ds = c # cs" using assms(2) by (cases ds) auto
  have "c \<noteq> CHR ''-''" "c \<noteq> CHR ''+''" using assms(1) by (auto simp: ds is_digit_def)
  then show ?thesis using decimal_part_digits [OF assms] by (simp add: signed_part_def ds)
qed

text \<open>An integer up to \<open>2 ^ 53\<close> is a double.\<close>

lemma finite_dbl_int:
  assumes "\<bar>n\<bar> \<le> 2 ^ 53"
  shows "finite_dbl (of_int n) = Some (of_int n)"
proof -
  have "\<bar>of_int n :: rat\<bar> \<le> of_int (2 ^ 53)"
    using assms by (simp only: of_int_le_iff flip: of_int_abs)
  also have "\<dots> < 2 ^ 1024" by simp
  finally show ?thesis using dbl_int [OF assms] by (simp add: finite_dbl_def overflows_def)
qed

text \<open>A decimal integer below \<open>2 ^ 53\<close> is read exactly.\<close>

lemma js_number_digits:
  assumes "list_all is_digit ds" "ds \<noteq> []" "int (parse_nat ds) \<le> 2 ^ 53"
  shows "js_number ds = Some (of_int (int (parse_nat ds)))"
proof -
  let ?n = "int (parse_nat ds)"
  have "finite_dbl (of_int ?n) = Some (of_int ?n)"
    by (rule finite_dbl_int) (use assms(3) in simp)
  then have fin: "finite_dbl (of_nat (parse_nat ds)) = Some (of_int ?n)" by simp
  have radix: "take 2 ds \<notin> {''0x'', ''0X'', ''0o'', ''0O'', ''0b'', ''0B''}"
    using assms(1,2) js_number_radix_free by (cases ds) (auto simp: list_all_iff)
  show ?thesis
    unfolding js_number_def trim_digits [OF assms(1)] Let_def
    using assms(2) radix signed_part_digits [OF assms(1,2)] fin
    by (simp del: of_int_of_nat_eq insert_iff)
qed

end
