(* ===== verification/Claims.thy ===== *)
theory Claims
  imports Primitives JsNumber
begin

text \<open>
  The reading of claim events in \<open>src/mappings/pocket/relays.ts\<close>: the proof status, the reasons of
  settlement operations and \<open>getAttributes\<close>. A claim or proof is kept as the JSON it comes as; a claim
  collected from single attributes is built as the same JSON. A field whose value is not of the type
  of the proto field reads as absent.
\<close>

subsection \<open>JSON values\<close>

definition json_falsy :: "json option \<Rightarrow> bool" where
  "json_falsy j \<longleftrightarrow> (case j of None \<Rightarrow> True | Some JNull \<Rightarrow> True | Some (JBool b) \<Rightarrow> \<not> b | Some (JStr s) \<Rightarrow> s = []
     | Some (JNum s) \<Rightarrow> js_number s = Some 0 | Some _ \<Rightarrow> False)"

text \<open>\<open>isEmpty\<close> of lodash: nothing to enumerate.\<close>

definition json_is_empty :: "json \<Rightarrow> bool" where
  "json_is_empty j \<longleftrightarrow> (case j of JStr s \<Rightarrow> s = [] | JArr xs \<Rightarrow> xs = [] | JObj kvs \<Rightarrow> kvs = [] | _ \<Rightarrow> True)"

definition parse_json :: "string \<Rightarrow> json res" where
  "parse_json s = require ''SyntaxError: invalid JSON'' (json_parse s)"

text \<open>\<open>j?.key || ""\<close> of a text field.\<close>

definition text_or_empty :: "string option \<Rightarrow> string" where
  "text_or_empty s = (case s of None \<Rightarrow> [] | Some t \<Rightarrow> t)"

definition header_field :: "string \<Rightarrow> json \<Rightarrow> string" where
  "header_field k claim = text_or_empty (Option.bind (json_get ''session_header'' claim) (json_get_str k))"

text \<open>\<open>BigInt(header?.height?.toString() || 0)\<close>; a number keeps its literal.\<close>

definition json_scalar_text :: "json \<Rightarrow> string option" where
  "json_scalar_text j = (case j of JStr s \<Rightarrow> Some s | JNum s \<Rightarrow> Some s | JNull \<Rightarrow> None | _ \<Rightarrow> Some ''[object Object]'')"

definition header_height :: "string \<Rightarrow> json \<Rightarrow> int res" where
  "header_height k claim =
     big_int (text_or_empty (Option.bind (Option.bind (json_get ''session_header'' claim) (json_get k)) json_scalar_text))"

subsection \<open>Enumerations\<close>

datatype claim_proof_status = PendingValidation | Validated | Invalid

text \<open>The number of a literal, when it is an integer.\<close>

definition json_number_value :: "string \<Rightarrow> int option" where
  "json_number_value s = (case js_number s of None \<Rightarrow> None
     | Some q \<Rightarrow> if of_int \<lfloor>q\<rfloor> = q then Some \<lfloor>q\<rfloor> else None)"

text \<open>Every falsy item has no status, the number zero included.\<close>

definition get_claim_proof_status_from_sdk :: "json option \<Rightarrow> claim_proof_status option res" where
  "get_claim_proof_status_from_sdk item =
     (if json_falsy item then Inr None
      else case item of
        Some (JNum s) \<Rightarrow> (case json_number_value s of
            Some n \<Rightarrow> if n = 1 then Inr (Some Validated) else if n = 2 then Inr (Some Invalid)
              else throw ''Unknown ClaimProofStatus''
          | None \<Rightarrow> throw ''Unknown ClaimProofStatus'')
      | Some (JStr s) \<Rightarrow> (if s = ''PENDING_VALIDATION'' then Inr (Some PendingValidation)
          else if s = ''VALIDATED'' then Inr (Some Validated)
          else if s = ''INVALID'' then Inr (Some Invalid) else throw ''Unknown ClaimProofStatus'')
      | _ \<Rightarrow> throw ''Unknown ClaimProofStatus'')"

text \<open>\<open>claimProofStatusFromJSON\<close> of a number: an unknown one is \<open>UNRECOGNIZED\<close>, minus one.\<close>

definition claim_proof_status_from_json :: "rat option \<Rightarrow> int" where
  "claim_proof_status_from_json n =
     (if n = Some 0 then 0 else if n = Some 1 then 1 else if n = Some 2 then 2 else - 1)"

datatype proof_requirement = NotRequired | Probabilistic | Threshold

definition proof_requirement_from_json :: "(int option + string) \<Rightarrow> proof_requirement option" where
  "proof_requirement_from_json v = (case v of
     Inl n \<Rightarrow> (if n = Some 0 then Some NotRequired else if n = Some 1 then Some Probabilistic
       else if n = Some 2 then Some Threshold else None)
   | Inr s \<Rightarrow> (if s = ''NOT_REQUIRED'' then Some NotRequired else if s = ''PROBABILISTIC'' then Some Probabilistic
       else if s = ''THRESHOLD'' then Some Threshold else None))"

datatype expiration_reason = ExpirationUnspecified | ProofMissing | ProofInvalid

definition claim_expiration_reason_from_json :: "string \<Rightarrow> expiration_reason option" where
  "claim_expiration_reason_from_json s =
     (if s = ''EXPIRATION_REASON_UNSPECIFIED'' then Some ExpirationUnspecified
      else if s = ''PROOF_MISSING'' then Some ProofMissing
      else if s = ''PROOF_INVALID'' then Some ProofInvalid else None)"

text \<open>
  The reasons of settlement operations: the chain's name and number (minus one: no number of its own),
  and the name under which the entities store it, shortened where the chain's is too long.
\<close>

definition op_reasons :: "(string \<times> int \<times> string) list" where
  "op_reasons = [
     (''UNSPECIFIED'', 0, ''UNSPECIFIED''),
     (''TLM_RELAY_BURN_EQUALS_MINT_SUPPLIER_STAKE_MINT'', 1, ''TLM_RELAY_BURN_EQUALS_MINT_SUPPLIER_STAKE_MINT''),
     (''TLM_RELAY_BURN_EQUALS_MINT_APPLICATION_STAKE_BURN'', 2, ''TLM_RELAY_BURN_EQUALS_MINT_APPLICATION_STAKE_BURN''),
     (''TLM_GLOBAL_MINT_INFLATION'', 3, ''TLM_GLOBAL_MINT_INFLATION''),
     (''TLM_RELAY_BURN_EQUALS_MINT_SUPPLIER_SHAREHOLDER_REWARD_DISTRIBUTION'', 4,
        ''TLM_RELAY_BURN_EQUALS_MINT_SUPPLIER_SHAREHOLDER_RD''),
     (''TLM_GLOBAL_MINT_DAO_REWARD_DISTRIBUTION'', 5, ''TLM_GLOBAL_MINT_DAO_REWARD_DISTRIBUTION''),
     (''TLM_GLOBAL_MINT_PROPOSER_REWARD_DISTRIBUTION'', 6, ''TLM_GLOBAL_MINT_PROPOSER_REWARD_DISTRIBUTION''),
     (''TLM_GLOBAL_MINT_SUPPLIER_SHAREHOLDER_REWARD_DISTRIBUTION'', 7,
        ''TLM_GLOBAL_MINT_SUPPLIER_SHAREHOLDER_REWARD_DISTRIBUTION''),
     (''TLM_GLOBAL_MINT_SOURCE_OWNER_REWARD_DISTRIBUTION'', 8, ''TLM_GLOBAL_MINT_SOURCE_OWNER_REWARD_DISTRIBUTION''),
     (''TLM_GLOBAL_MINT_APPLICATION_REWARD_DISTRIBUTION'', 9, ''TLM_GLOBAL_MINT_APPLICATION_REWARD_DISTRIBUTION''),
     (''TLM_GLOBAL_MINT_REIMBURSEMENT_REQUEST_ESCROW_DAO_TRANSFER'', 10,
        ''TLM_GLOBAL_MINT_REIMBURSEMENT_REQUEST_ESCROW_DAO_TRANSFER''),
     (''UNSPECIFIED_TLM_SUPPLIER_SLASH_MODULE_TRANSFER'', 11, ''UNSPECIFIED_TLM_SUPPLIER_SLASH_MODULE_TRANSFER''),
     (''UNSPECIFIED_TLM_SUPPLIER_SLASH_STAKE_BURN'', 12, ''UNSPECIFIED_TLM_SUPPLIER_SLASH_STAKE_BURN''),
     (''TLM_GLOBAL_MINT_SUPPLIER_SHAREHOLDER_REWARD_MODULE_TRANSFER'', 13,
        ''TLM_GLOBAL_MINT_SUPPLIER_SHAREHOLDER_REWARD_MODULE_TRANSFER''),
     (''TLM_GLOBAL_MINT_REIMBURSEMENT_REQUEST_ESCROW_MODULE_TRANSFER'', 14,
        ''TLM_GLOBAL_MINT_REIMBURSEMENT_REQUEST_ESCROW_MODULE_TRANSFER''),
     (''TLM_RELAY_BURN_EQUALS_MINT_DAO_REWARD_DISTRIBUTION'', 15, ''TLM_RELAY_BURN_EQUALS_MINT_DAO_REWARD_DISTRIBUTION''),
     (''TLM_RELAY_BURN_EQUALS_MINT_SOURCE_OWNER_REWARD_DISTRIBUTION'', 17,
        ''TLM_RELAY_BURN_EQUALS_MINT_SOURCE_OWNER_RD''),
     (''TLM_RELAY_BURN_EQUALS_MINT_APPLICATION_REWARD_DISTRIBUTION'', 18,
        ''TLM_RELAY_BURN_EQUALS_MINT_APPLICATION_RD''),
     (''TLM_RELAY_BURN_EQUALS_MINT_TOKENOMICS_CLAIM_DISTRIBUTION_MINT'', 19,
        ''TLM_RELAY_BURN_EQUALS_MINT_TOKENOMICS_MINT''),
     (''TLM_RELAY_BURN_EQUALS_MINT_VALIDATOR_REWARD_DISTRIBUTION'', 20,
        ''TLM_RELAY_BURN_EQUALS_MINT_VALIDATOR_RD''),
     (''TLM_RELAY_BURN_EQUALS_MINT_DELEGATOR_REWARD_DISTRIBUTION'', 23,
        ''TLM_RELAY_BURN_EQUALS_MINT_DELEGATOR_RD''),
     (''TLM_GLOBAL_MINT_VALIDATOR_REWARD_DISTRIBUTION'', 21, ''TLM_GLOBAL_MINT_VALIDATOR_REWARD_DISTRIBUTION''),
     (''TLM_GLOBAL_MINT_DELEGATOR_REWARD_DISTRIBUTION'', 24, ''TLM_GLOBAL_MINT_DELEGATOR_REWARD_DISTRIBUTION'')]"

definition find_reason :: "json \<Rightarrow> (string \<times> int \<times> string) option" where
  "find_reason item = (case item of
     JStr s \<Rightarrow> find (\<lambda>(name, _). name = s) op_reasons
   | JNum s \<Rightarrow> Option.bind (json_number_value s) (\<lambda>n. find (\<lambda>(_, k, _). k = n) op_reasons)
   | _ \<Rightarrow> None)"

definition get_settlement_op_reason_from_sdk :: "json \<Rightarrow> string" where
  "get_settlement_op_reason_from_sdk item = (case find_reason item of None \<Rightarrow> ''UNSPECIFIED'' | Some (_, _, r) \<Rightarrow> r)"

text \<open>\<open>settlementOpReasonFromJSON\<close> of the client: the number of the reason; it does not know number 6.\<close>

definition settlement_op_reason_from_json :: "json \<Rightarrow> int" where
  "settlement_op_reason_from_json item =
     (case find_reason item of None \<Rightarrow> - 1 | Some (_, n, _) \<Rightarrow> if n = 6 then - 1 else n)"

subsection \<open>The attributes of a claim event\<close>

record claim_attrs =
  at_claim :: json
  at_proof :: json
  at_num_relays :: int
  at_claimed_units :: int
  at_estimated_units :: int
  at_claimed :: "coin option"
  at_requirement :: proof_requirement
  at_expiration :: expiration_reason
  at_penalty :: "coin option"
  at_failure :: "string option"
  at_status :: "claim_proof_status option"
  at_result :: "json option"
  at_distribution :: "json option"
  at_detailed :: "json option"
  at_settled :: "coin option"
  at_mint_ratio :: "string option"
  at_supplier_owner :: "string option"
  at_chain_estimated :: "int option"
  at_minted :: "coin option"
  at_overservicing :: "coin option"
  at_deflation :: "coin option"
  at_stake_after_slash :: "coin option"

text \<open>The claim collected from single attributes; its session header always exists.\<close>

record new_claim =
  nc_supplier :: "string option"
  nc_service :: "string option"
  nc_application :: "string option"
  nc_session_end :: "int option"
  nc_session :: "string option"
  nc_status :: "int option"

definition json_field :: "string \<Rightarrow> json option \<Rightarrow> (string \<times> json) list" where
  "json_field k v = (case v of None \<Rightarrow> [] | Some j \<Rightarrow> [(k, j)])"

definition new_claim_json :: "new_claim \<Rightarrow> json" where
  "new_claim_json c = JObj
     ((''session_header'', JObj (json_field ''service_id'' (map_option JStr (nc_service c)) @
         json_field ''application_address'' (map_option JStr (nc_application c)) @
         json_field ''session_end_block_height'' (map_option (JNum \<circ> show_int) (nc_session_end c)) @
         json_field ''session_start_block_height'' (map_option (\<lambda>_. JNum ''0'') (nc_session_end c)) @
         json_field ''session_id'' (map_option JStr (nc_session c)))) #
      json_field ''supplier_operator_address'' (map_option JStr (nc_supplier c)) @
      json_field ''proof_validation_status'' (map_option (JNum \<circ> show_int) (nc_status c)))"

definition empty_attrs :: claim_attrs where
  "empty_attrs = \<lparr>at_claim = JObj [], at_proof = JObj [], at_num_relays = 0, at_claimed_units = 0,
     at_estimated_units = 0, at_claimed = None, at_requirement = NotRequired,
     at_expiration = ExpirationUnspecified, at_penalty = None, at_failure = None, at_status = None,
     at_result = None, at_distribution = None, at_detailed = None, at_settled = None, at_mint_ratio = None,
     at_supplier_owner = None, at_chain_estimated = None, at_minted = None, at_overservicing = None,
     at_deflation = None, at_stake_after_slash = None\<rparr>"

definition empty_claim :: new_claim where
  "empty_claim = \<lparr>nc_supplier = None, nc_service = None, nc_application = None, nc_session_end = None,
     nc_session = None, nc_status = None\<rparr>"

text \<open>The attributes that make up the new claim.\<close>

definition claim_attribute :: "new_claim \<Rightarrow> attribute \<Rightarrow> new_claim res" where
  "claim_attribute c = (\<lambda>(k, v). let p = parse_attribute v in
     if k = ''supplier_operator_address'' then Inr (c\<lparr>nc_supplier := Some p\<rparr>)
     else if k = ''service_id'' then Inr (c\<lparr>nc_service := Some p\<rparr>)
     else if k = ''application_address'' then Inr (c\<lparr>nc_application := Some p\<rparr>)
     else if k = ''session_end_block_height'' then
       map_res (\<lambda>h. c\<lparr>nc_session_end := Some h, nc_session := Some (text_or_empty (nc_session c))\<rparr>) (big_int p)
     else if k = ''session_id'' then Inr (c\<lparr>nc_session := Some p\<rparr>)
     else if k = ''claim_proof_status_int'' then
       Inr (c\<lparr>nc_status := Some (claim_proof_status_from_json (js_number p))\<rparr>)
     else Inr c)"

definition event_attribute :: "claim_attrs \<Rightarrow> attribute \<Rightarrow> claim_attrs res" where
  "event_attribute a = (\<lambda>(k, v).
     let p = parse_attribute v; coin = get_denom_and_amount v; json = parse_json v in
     if k = ''proof'' then map_res (\<lambda>j. a\<lparr>at_proof := j\<rparr>) json
     else if k = ''claim'' then map_res (\<lambda>j. a\<lparr>at_claim := j\<rparr>) json
     else if k = ''claim_proof_status_int'' then
       map_res (\<lambda>s. a\<lparr>at_status := s\<rparr>)
         (get_claim_proof_status_from_sdk (Some (JNum (show_int (claim_proof_status_from_json (js_number p))))))
     else if k = ''num_relays'' then map_res (\<lambda>n. a\<lparr>at_num_relays := n\<rparr>) (big_int p)
     else if k = ''num_compute_units'' \<or> k = ''num_claimed_compute_units'' then
       map_res (\<lambda>n. a\<lparr>at_claimed_units := n\<rparr>) (big_int p)
     else if k = ''num_estimated_compute_units'' then map_res (\<lambda>n. a\<lparr>at_estimated_units := n\<rparr>) (big_int p)
     else if k = ''claimed_upokt'' then map_res (\<lambda>c. a\<lparr>at_claimed := Some c\<rparr>) coin
     else if k = ''settlement_result'' then map_res (\<lambda>j. a\<lparr>at_result := Some j\<rparr>) json
     else if k = ''reward_distribution'' then map_res (\<lambda>j. a\<lparr>at_distribution := Some j\<rparr>) json
     else if k = ''reward_distribution_detailed'' then map_res (\<lambda>j. a\<lparr>at_detailed := Some j\<rparr>) json
     else if k = ''settled_upokt'' then map_res (\<lambda>c. a\<lparr>at_settled := Some c\<rparr>) coin
     else if k = ''mint_ratio'' then Inr (a\<lparr>at_mint_ratio := Some p\<rparr>)
     else if k = ''supplier_owner_address'' then Inr (a\<lparr>at_supplier_owner := Some p\<rparr>)
     else if k = ''num_estimated_relays'' then map_res (\<lambda>n. a\<lparr>at_chain_estimated := Some n\<rparr>) (big_int p)
     else if k = ''minted_upokt'' then map_res (\<lambda>c. a\<lparr>at_minted := Some c\<rparr>) coin
     else if k = ''overservicing_loss_upokt'' then map_res (\<lambda>c. a\<lparr>at_overservicing := Some c\<rparr>) coin
     else if k = ''deflation_loss_upokt'' then map_res (\<lambda>c. a\<lparr>at_deflation := Some c\<rparr>) coin
     else if k = ''proof_missing_penalty'' then map_res (\<lambda>c. a\<lparr>at_penalty := Some c\<rparr>) coin
     else if k = ''supplier_stake_after_slash'' then map_res (\<lambda>c. a\<lparr>at_stake_after_slash := Some c\<rparr>) coin
     else if k = ''failure_reason'' then Inr (a\<lparr>at_failure := Some p\<rparr>)
     else if k = ''proof_status'' then
       map_res (\<lambda>s. a\<lparr>at_status := s\<rparr>) (get_claim_proof_status_from_sdk (Some (JStr p)))
     else if k = ''proof_requirement_int'' then
       map_res (\<lambda>r. a\<lparr>at_requirement := r\<rparr>)
         (require ''Unknown ProofRequirementReason'' (proof_requirement_from_json (Inl (parse_int p))))
     else if k = ''proof_requirement'' then
       map_res (\<lambda>r. a\<lparr>at_requirement := r\<rparr>)
         (require ''Unknown ProofRequirementReason'' (proof_requirement_from_json (Inr p)))
     else if k = ''expiration_reason'' then
       map_res (\<lambda>r. a\<lparr>at_expiration := r\<rparr>)
         (require ''Unknown ClaimExpirationReason'' (claim_expiration_reason_from_json p))
     else Inr a)"

definition get_attributes :: "attribute list \<Rightarrow> claim_attrs res" where
  "get_attributes as =
     map_res (\<lambda>(c, a). if json_is_empty (at_claim a) \<and> (nc_supplier c \<noteq> None \<or> nc_status c \<noteq> None)
         then a\<lparr>at_claim := new_claim_json c\<rparr> else a)
       (foldM_res (\<lambda>(c, a) kv. bind_res (claim_attribute c kv) (\<lambda>c'. map_res (Pair c') (event_attribute a kv)))
         (empty_claim, empty_attrs) as)"

text \<open>Reading a property of \<open>null\<close> throws: \<open>const {session_header} = claim\<close>.\<close>

definition claim_object :: "json \<Rightarrow> json res" where
  "claim_object claim = (if claim = JNull then throw ''TypeError: claim is null'' else Inr claim)"

subsection \<open>Derived amounts\<close>

text \<open>
  The relays estimated from the compute units, before the chain emitted their number: doubles
  divided and rounded. Zero relays and zero compute units per relay give zero.
\<close>

definition compute_num_estimated_relays :: "int option \<Rightarrow> int \<Rightarrow> int \<Rightarrow> int \<Rightarrow> int res" where
  "compute_num_estimated_relays chain estimated_units claimed_units relays = (case chain of
     Some n \<Rightarrow> Inr n
   | None \<Rightarrow>
       if relays = 0 then Inr 0
       else let cupr = \<lfloor>dbl (dbl (of_int claimed_units) / dbl (of_int relays))\<rfloor> in
         if cupr = 0 then Inr 0
         else Inr (math_round (dbl (dbl (of_int estimated_units) / of_int cupr))))"

text \<open>\<open>BigInt(x)\<close> of an absent value throws.\<close>

definition big_int_opt :: "string option \<Rightarrow> int res" where
  "big_int_opt x = (case x of None \<Rightarrow> throw ''TypeError: Cannot convert undefined to a BigInt'' | Some s \<Rightarrow> big_int s)"

text \<open>A coin assembled by the source; either part may be \<open>undefined\<close>.\<close>

record part_coin =
  pc_amount :: "string option"
  pc_denom :: "string option"

definition compute_deflation_loss :: "coin option \<Rightarrow> string option \<Rightarrow> part_coin option \<Rightarrow> int res" where
  "compute_deflation_loss loss burn minted = (case loss of
     Some c \<Rightarrow> big_int (amount c)
   | None \<Rightarrow> bind_res (big_int_opt burn) (\<lambda>n.
       map_res (\<lambda>m. n - m) (big_int (text_or_empty (Option.bind minted pc_amount)))))"

definition compute_overservicing_loss :: "coin option \<Rightarrow> string option \<Rightarrow> string option \<Rightarrow> int res" where
  "compute_overservicing_loss loss claimed burn = (case loss of
     Some c \<Rightarrow> big_int (amount c)
   | None \<Rightarrow> if claimed = burn then Inr 0
       else bind_res (big_int_opt claimed) (\<lambda>n. map_res (\<lambda>m. n - m) (big_int_opt burn)))"

end
