(* ===== verification/Coins.thy ===== *)
theory Coins
  imports Chain Float64
begin

text \<open>
  \<open>src/cosmjs/utils.ts\<close>: the coin lists of bank and tokenomics events. A part of the list is digits, an
  optional fraction and a denomination; the fraction, which some chain versions sent, is scaled by
  \<open>10 ^ 18\<close> in double arithmetic. The regular expression is written as the one way it can match: a
  denomination starts with a letter, so the digits and the fraction end where their longest run ends.
\<close>

fun split_on :: "char \<Rightarrow> string \<Rightarrow> string list" where
  "split_on c [] = [[]]"
| "split_on c (x # xs) =
     (if x = c then [] # split_on c xs
      else (case split_on c xs of [] \<Rightarrow> [[x]] | p # ps \<Rightarrow> (x # p) # ps))"

definition is_denom :: "string \<Rightarrow> bool" where
  "is_denom s \<longleftrightarrow> s \<noteq> [] \<and> is_letter (hd s) \<and>
     list_all (\<lambda>c. is_letter c \<or> is_digit c \<or> c = CHR ''/'') s \<and> 3 \<le> length s \<and> length s \<le> 128"

text \<open>\<open>match[1]\<close> with the fraction group \<open>match[2]\<close> as a flag, and \<open>match[3]\<close>.\<close>

definition match_part :: "string \<Rightarrow> (string \<times> bool \<times> string) option" where
  "match_part s =
     (let n = takeWhile is_digit s; r = dropWhile is_digit s;
          f = (if r \<noteq> [] \<and> hd r = CHR ''.'' then CHR ''.'' # takeWhile is_digit (tl r) else []);
          d = (if f = [] then r else dropWhile is_digit (tl r)) in
      if (n \<noteq> [] \<or> 2 \<le> length f) \<and> is_denom d then Some (n @ f, n \<noteq> [] \<and> f \<noteq> [], d) else None)"

text \<open>\<open>Number(s)\<close> of digits, a point and digits.\<close>

definition decimal_value :: "string \<Rightarrow> rat" where
  "decimal_value s =
     (let n = takeWhile is_digit s; f = drop 1 (dropWhile is_digit s) in
      of_nat (parse_nat n) + of_nat (parse_nat f) / 10 ^ length f)"

definition cosmos_decimal_to_big_int :: "string \<Rightarrow> int res" where
  "cosmos_decimal_to_big_int s =
     (let num = dbl (decimal_value s); y = dbl (num * 10 ^ 18) in
      if overflows num \<or> overflows y
      then throw ''RangeError: Infinity cannot be converted to a BigInt''
      else Inr (math_round y))"

definition parse_coin_part :: "string \<Rightarrow> string \<Rightarrow> coin res" where
  "parse_coin_part input part = (case match_part part of
     None \<Rightarrow> throw (''Got an invalid coin string. Value='' @ input)
   | Some (num, fraction, d) \<Rightarrow>
       map_res (\<lambda>a. \<lparr>amount = a, denom = d\<rparr>)
         (if fraction then map_res show_int (cosmos_decimal_to_big_int num) else Inr num))"

definition parse_coins :: "string \<Rightarrow> coin list res" where
  "parse_coins input =
     mapM_res (parse_coin_part input)
       (filter (\<lambda>p. p \<noteq> []) (split_on (CHR '','') (filter (\<lambda>c. \<not> is_space c) input)))"

subsection \<open>Lemmas\<close>

lemma split_on_nonempty [simp]: "split_on c s \<noteq> []"
  by (induction s) (auto split: list.splits)

lemma split_on_none: "c \<notin> set s \<Longrightarrow> split_on c s = [s]"
  by (induction s) auto

lemma split_on_append: "c \<notin> set s \<Longrightarrow> split_on c (s @ c # t) = s # split_on c t"
  by (induction s) auto

fun join :: "char \<Rightarrow> string list \<Rightarrow> string" where
  "join c [] = []"
| "join c [s] = s"
| "join c (s # ss) = s @ c # join c ss"

lemma split_on_join: "ss \<noteq> [] \<Longrightarrow> list_all (\<lambda>s. c \<notin> set s) ss \<Longrightarrow> split_on c (join c ss) = ss"
  by (induction c ss rule: join.induct) (auto simp: split_on_none split_on_append)

lemma set_join: "set (join c ss) \<subseteq> insert c (\<Union> (set ` set ss))"
  by (induction c ss rule: join.induct) auto

definition coin_ok :: "coin \<Rightarrow> bool" where
  "coin_ok c \<longleftrightarrow> amount c \<noteq> [] \<and> list_all is_digit (amount c) \<and> is_denom (denom c)"

definition coin_text :: "coin \<Rightarrow> string" where
  "coin_text c = amount c @ denom c"

lemma is_denom_Cons: "is_denom d \<Longrightarrow> \<exists>c r. d = c # r \<and> is_letter c"
  by (cases d) (auto simp: is_denom_def)

lemma match_part_int:
  assumes "n \<noteq> []" and "list_all is_digit n" and "is_denom d"
  shows "match_part (n @ d) = Some (n, False, d)"
proof -
  obtain c r where d: "d = c # r" "is_letter c" using is_denom_Cons [OF assms(3)] by blast
  then have c: "\<not> is_digit c" "c \<noteq> CHR ''.''"
    using digit_not_letter by (auto simp: is_letter_def)
  have "takeWhile is_digit (n @ d) = n" "dropWhile is_digit (n @ d) = d"
    using assms(2) c by (simp_all add: d takeWhile_append2 dropWhile_append2 list_all_iff)
  then show ?thesis using assms c by (simp add: match_part_def d)
qed

lemma coin_text_chars:
  assumes "coin_ok c" and "x \<in> set (coin_text c)"
  shows "\<not> is_space x" and "x \<noteq> CHR '',''"
  using assms
  by (auto simp: coin_ok_def coin_text_def is_denom_def list_all_iff is_space_def is_digit_def is_letter_def)

lemma parse_coin_part_text: "coin_ok c \<Longrightarrow> parse_coin_part s (coin_text c) = Inr c"
  by (simp add: parse_coin_part_def coin_text_def coin_ok_def match_part_int)

lemma parse_coins_text:
  assumes "list_all coin_ok cs" and "filter (\<lambda>c. \<not> is_space c) s = join (CHR '','') (map coin_text cs)"
  shows "parse_coins s = Inr cs"
proof (cases "cs = []")
  case False
  have "split_on (CHR '','') (join (CHR '','') (map coin_text cs)) = map coin_text cs"
    using assms(1) coin_text_chars(2) False by (intro split_on_join) (fastforce simp: list_all_iff)+
  moreover have "filter (\<lambda>p. p \<noteq> []) (map coin_text cs) = map coin_text cs"
    using assms(1) by (auto simp: filter_id_conv list_all_iff coin_ok_def coin_text_def)
  moreover have "mapM_res (parse_coin_part s) (map coin_text cs) = Inr cs"
    using assms(1) by (induction cs) (simp_all add: parse_coin_part_text)
  ultimately show ?thesis by (simp add: parse_coins_def assms(2))
qed (use assms in \<open>simp add: parse_coins_def\<close>)

lemma parse_coins_one: "coin_ok c \<Longrightarrow> parse_coins (coin_text c) = Inr [c]"
  using coin_text_chars(1) [of c] by (intro parse_coins_text) (auto simp: filter_id_conv)

text \<open>
  C34: parsing the comma-separated text of a list of coins with integer amounts gives the list back,
  with every amount kept digit by digit; blanks between and inside the parts do not matter.
\<close>

theorem parse_coins_roundtrip:
  assumes "list_all coin_ok cs" and "filter (\<lambda>c. \<not> is_space c) s = join (CHR '','') (map coin_text cs)"
  shows "parse_coins s = Inr cs"
  by (rule parse_coins_text [OF assms])

theorem parse_coins_roundtrip_witness:
  "parse_coins ''819966000ucosm, 700000000ibc/A1'' =
     Inr [\<lparr>amount = ''819966000'', denom = ''ucosm''\<rparr>, \<lparr>amount = ''700000000'', denom = ''ibc/A1''\<rparr>]"
  by (rule parse_coins_roundtrip) code_simp+

end
