(* ===== verification/Settlement.thy ===== *)
theory Settlement
  imports Claims Store Coins
begin

text \<open>
  The settlement of claims in \<open>src/mappings/pocket/relays.ts\<close>: the mints, burns and transfers of a
  settled claim, built from the settlement result, from the detailed reward distribution or from the
  plain distribution of its event, its entity with the amounts lost to overservicing and deflation,
  and the summary of the transfers of a block. An \<open>undefined\<close> written into SQL text or an id is the
  text \<open>undefined\<close>. The mint ratio is kept as the number whose text the source stores.
\<close>

subsection \<open>The parts of a settlement\<close>

record transfer =
  mt_id :: string
  mt_claim_id :: string
  mt_block :: int
  mt_reason :: string
  mt_recipient :: string
  mt_amount :: int
  mt_denom :: string

text \<open>\<open>mb_reason\<close> is the number of the chain's enumeration.\<close>

record mint_burn =
  mb_reason :: int
  mb_module :: "string option"
  mb_amount :: int
  mb_denom :: "string option"

record mod_transfer =
  mm_reason :: int
  mm_sender :: "string option"
  mm_recipient :: "string option"
  mm_amount :: int
  mm_denom :: "string option"

record settlement_parts =
  sp_transfers :: "transfer list"
  sp_mints :: "mint_burn list"
  sp_burns :: "mint_burn list"
  sp_mod_transfers :: "mod_transfer list"
  sp_minted :: "part_coin option"

definition text_or_undefined :: "string option \<Rightarrow> string" where
  "text_or_undefined s = (case s of None \<Rightarrow> ''undefined'' | Some t \<Rightarrow> t)"

definition reason_number :: "string \<Rightarrow> int" where
  "reason_number name = settlement_op_reason_from_json (JStr name)"

definition mint_of :: "string \<Rightarrow> int \<Rightarrow> coin option \<Rightarrow> mint_burn" where
  "mint_of name n claimed =
     \<lparr>mb_reason = reason_number name, mb_module = Some [], mb_amount = n, mb_denom = map_option denom claimed\<rparr>"

definition to_part :: "coin \<Rightarrow> part_coin" where
  "to_part c = \<lparr>pc_amount = Some (amount c), pc_denom = Some (denom c)\<rparr>"

text \<open>\<open>items?.map(f) || []\<close>: a missing field gives no items, a field without \<open>map\<close> is an error.\<close>

definition map_items :: "(nat \<Rightarrow> json \<Rightarrow> 'a res) \<Rightarrow> json option \<Rightarrow> 'a list res" where
  "map_items f j = (case j of
     None \<Rightarrow> Inr [] | Some JNull \<Rightarrow> Inr []
   | Some (JArr xs) \<Rightarrow> mapM_res (\<lambda>(i, x). f i x) (enumerate 0 xs)
   | Some _ \<Rightarrow> throw ''TypeError: map is not a function'')"

text \<open>\<open>item.coin\<close> with its amount as a \<open>BigInt\<close>.\<close>

definition item_coin :: "json \<Rightarrow> (int \<times> string option) res" where
  "item_coin item =
     bind_res (require ''TypeError: coin is undefined'' (json_get ''coin'' item)) (\<lambda>c.
       map_res (\<lambda>n. (n, json_get_str ''denom'' c))
         (big_int_opt (Option.bind (json_get ''amount'' c) json_scalar_text)))"

definition item_reason :: "json \<Rightarrow> json" where
  "item_reason item = (case json_get ''op_reason'' item of None \<Rightarrow> JNull | Some j \<Rightarrow> j)"

definition result_transfer :: "string \<Rightarrow> int \<Rightarrow> nat \<Rightarrow> json \<Rightarrow> transfer res" where
  "result_transfer event_id b i item =
     map_res (\<lambda>(n, d). \<lparr>mt_id = dash event_id (show_nat i), mt_claim_id = event_id, mt_block = b,
         mt_reason = get_settlement_op_reason_from_sdk (item_reason item),
         mt_recipient = text_or_undefined (json_get_str ''RecipientAddress'' item),
         mt_amount = n, mt_denom = text_or_undefined d\<rparr>)
       (item_coin item)"

definition result_mint :: "json \<Rightarrow> mint_burn res" where
  "result_mint item =
     map_res (\<lambda>(n, d). \<lparr>mb_reason = settlement_op_reason_from_json (item_reason item),
         mb_module = json_get_str ''DestinationModule'' item, mb_amount = n, mb_denom = d\<rparr>)
       (item_coin item)"

definition result_mod_transfer :: "json \<Rightarrow> mod_transfer res" where
  "result_mod_transfer item =
     map_res (\<lambda>(n, d). \<lparr>mm_reason = settlement_op_reason_from_json (item_reason item),
         mm_sender = json_get_str ''SenderModule'' item, mm_recipient = json_get_str ''RecipientModule'' item,
         mm_amount = n, mm_denom = d\<rparr>)
       (item_coin item)"

definition build_settlement_from_result ::
  "json \<Rightarrow> string \<Rightarrow> int \<Rightarrow> string option \<Rightarrow> coin option \<Rightarrow> coin option \<Rightarrow> settlement_parts res" where
  "build_settlement_from_result result event_id b burn claimed minted =
     bind_res (map_items (result_transfer event_id b) (json_get ''mod_to_acct_transfers'' result)) (\<lambda>transfers.
     bind_res (map_items (\<lambda>_. result_mint) (json_get ''mints'' result)) (\<lambda>mints.
     bind_res (map_items (\<lambda>_. result_mint) (json_get ''burns'' result)) (\<lambda>burns.
     bind_res (map_items (\<lambda>_. result_mod_transfer) (json_get ''mod_to_mod_transfers'' result)) (\<lambda>mods.
       Inr \<lparr>sp_transfers = transfers, sp_mints = mints, sp_burns = burns, sp_mod_transfers = mods,
            sp_minted = Some (case minted of Some c \<Rightarrow> to_part c
              | None \<Rightarrow> \<lparr>pc_amount = burn, pc_denom = map_option denom claimed\<rparr>)\<rparr>))))"

definition reward_transfer :: "string \<Rightarrow> int \<Rightarrow> nat \<Rightarrow> string \<Rightarrow> string \<Rightarrow> string \<Rightarrow> transfer res" where
  "reward_transfer event_id b i recipient reason text =
     bind_res (get_denom_and_amount text) (\<lambda>c.
       map_res (\<lambda>n. \<lparr>mt_id = dash event_id (show_nat i), mt_claim_id = event_id, mt_block = b, mt_reason = reason,
           mt_recipient = recipient, mt_amount = n, mt_denom = denom c\<rparr>)
         (big_int (amount c)))"

definition detailed_transfer :: "string \<Rightarrow> int \<Rightarrow> nat \<Rightarrow> json \<Rightarrow> transfer res" where
  "detailed_transfer event_id b i item =
     bind_res (require ''TypeError: amount is not a string'' (json_get_str ''amount'' item)) (\<lambda>text.
       reward_transfer event_id b i (text_or_undefined (json_get_str ''recipient_address'' item))
         (get_settlement_op_reason_from_sdk (item_reason item)) text)"

definition amount_with_reason :: "string \<Rightarrow> transfer list \<Rightarrow> int" where
  "amount_with_reason reason ts = sum_list (map mt_amount (filter (\<lambda>t. mt_reason t = reason) ts))"

text \<open>The two global mints are only recorded when they are positive. The distribution is not \<open>null\<close> here.\<close>

definition build_settlement_from_detailed_distribution ::
  "json \<Rightarrow> string \<Rightarrow> int \<Rightarrow> string option \<Rightarrow> coin option \<Rightarrow> coin option \<Rightarrow> settlement_parts res" where
  "build_settlement_from_detailed_distribution detailed event_id b burn claimed minted =
     bind_res (map_items (detailed_transfer event_id b) (Some detailed)) (\<lambda>transfers.
       let inflation = amount_with_reason ''TLM_GLOBAL_MINT_DAO_REWARD_DISTRIBUTION'' transfers;
           reimbursement = amount_with_reason ''TLM_GLOBAL_MINT_REIMBURSEMENT_REQUEST_ESCROW_DAO_TRANSFER'' transfers;
           resolved = (case minted of Some c \<Rightarrow> to_part c | None \<Rightarrow> \<lparr>pc_amount = burn, pc_denom = map_option denom claimed\<rparr>) in
       bind_res (big_int_opt burn) (\<lambda>burned.
       bind_res (big_int_opt (pc_amount resolved)) (\<lambda>m.
         Inr \<lparr>sp_transfers = transfers,
              sp_mints = [mint_of ''TLM_RELAY_BURN_EQUALS_MINT_TOKENOMICS_CLAIM_DISTRIBUTION_MINT'' m claimed] @
                (if 0 < inflation then [mint_of ''TLM_GLOBAL_MINT_DAO_REWARD_DISTRIBUTION'' inflation claimed] else []) @
                (if 0 < reimbursement then
                  [mint_of ''TLM_GLOBAL_MINT_REIMBURSEMENT_REQUEST_ESCROW_DAO_TRANSFER'' reimbursement claimed] else []),
              sp_burns = [mint_of ''TLM_RELAY_BURN_EQUALS_MINT_APPLICATION_STAKE_BURN'' burned claimed],
              sp_mod_transfers = [], sp_minted = Some resolved\<rparr>)))"

text \<open>
  The amount minted for the burn: the chain's, or the burn scaled by the mint ratio in doubles and
  rounded down. What the rewards exceed it by was minted twice, for inflation and reimbursement.
\<close>

definition minted_after_ratio :: "string option \<Rightarrow> rat option \<Rightarrow> part_coin option \<Rightarrow> int res" where
  "minted_after_ratio burn ratio minted = big_int_of_number (case minted of
     Some c \<Rightarrow> Option.bind (pc_amount c) js_number
   | None \<Rightarrow> (case (Option.bind burn js_number, ratio) of
       (Some x, Some r) \<Rightarrow> map_option (\<lambda>y. of_int \<lfloor>y\<rfloor>) (finite_dbl (x * r)) | _ \<Rightarrow> None))"

definition build_burns_and_mints_from_reward_total ::
  "int \<Rightarrow> string option \<Rightarrow> rat option \<Rightarrow> coin option \<Rightarrow> part_coin option \<Rightarrow>
   (mint_burn list \<times> mint_burn list \<times> part_coin) res" where
  "build_burns_and_mints_from_reward_total rewards burn ratio claimed minted =
     bind_res (minted_after_ratio burn ratio minted) (\<lambda>m.
       if rewards - m < 0 then throw ''inflationAndReimbursementMint is negative''
       else let half = (rewards - m) div 2 in
         map_res (\<lambda>burned.
           ([mint_of ''TLM_RELAY_BURN_EQUALS_MINT_APPLICATION_STAKE_BURN'' burned claimed],
            [mint_of ''TLM_GLOBAL_MINT_INFLATION'' half claimed,
             mint_of ''TLM_GLOBAL_MINT_REIMBURSEMENT_REQUEST_ESCROW_DAO_TRANSFER'' half claimed,
             mint_of ''TLM_RELAY_BURN_EQUALS_MINT_SUPPLIER_STAKE_MINT'' m claimed],
            case minted of Some c \<Rightarrow> c
            | None \<Rightarrow> \<lparr>pc_amount = Some (int_text m), pc_denom = map_option denom claimed\<rparr>))
           (big_int_opt burn))"

text \<open>\<open>Object.entries\<close>: the last value of a repeated key counts, at the place of the first.\<close>

definition json_entries :: "json \<Rightarrow> (string \<times> json) list" where
  "json_entries j = (case j of
     JObj kvs \<Rightarrow> foldl (\<lambda>d (k, v). dict_set k v d) [] kvs
   | JArr xs \<Rightarrow> map (\<lambda>(i, x). (show_nat i, x)) (enumerate 0 xs)
   | JStr s \<Rightarrow> map (\<lambda>(i, c). (show_nat i, JStr [c])) (enumerate 0 s)
   | _ \<Rightarrow> [])"

definition build_settlement_from_distribution ::
  "json \<Rightarrow> string \<Rightarrow> int \<Rightarrow> string option \<Rightarrow> rat option \<Rightarrow> coin option \<Rightarrow> settlement_parts res" where
  "build_settlement_from_distribution distribution event_id b burn ratio claimed =
     bind_res (mapM_res (\<lambda>(i, addr, v). case v of
           JStr text \<Rightarrow> reward_transfer event_id b i addr ''UNSPECIFIED'' text
         | _ \<Rightarrow> throw ''TypeError: coin is not a string'')
         (enumerate 0 (json_entries distribution))) (\<lambda>transfers.
       map_res (\<lambda>(burns, mints, minted).
           \<lparr>sp_transfers = transfers, sp_mints = mints, sp_burns = burns, sp_mod_transfers = [], sp_minted = Some minted\<rparr>)
         (build_burns_and_mints_from_reward_total (sum_list (map mt_amount transfers)) burn ratio claimed None))"

definition resolve_settlement_parts ::
  "claim_attrs \<Rightarrow> string \<Rightarrow> int \<Rightarrow> string option \<Rightarrow> rat option \<Rightarrow> settlement_parts res" where
  "resolve_settlement_parts a event_id b burn ratio =
     (if \<not> json_falsy (at_result a) then
        build_settlement_from_result (the (at_result a)) event_id b burn (at_claimed a) (at_minted a)
      else if \<not> json_falsy (at_detailed a) then
        build_settlement_from_detailed_distribution (the (at_detailed a)) event_id b burn (at_claimed a) (at_minted a)
      else if \<not> json_falsy (at_distribution a) then
        build_settlement_from_distribution (the (at_distribution a)) event_id b burn ratio (at_claimed a)
      else Inr \<lparr>sp_transfers = [], sp_mints = [], sp_burns = [], sp_mod_transfers = [],
        sp_minted = map_option to_part (at_minted a)\<rparr>)"

subsection \<open>The settled claim\<close>

record claim_settled =
  cs_id :: string
  cs_supplier :: "string option"
  cs_application :: string
  cs_service :: string
  cs_session :: string
  cs_session_start :: int
  cs_session_end :: int
  cs_num_relays :: int
  cs_num_estimated_relays :: int
  cs_claimed_units :: int
  cs_estimated_units :: int
  cs_claimed_denom :: string
  cs_claimed_amount :: int
  cs_status :: "claim_proof_status option"
  cs_transaction_id :: "string option"
  cs_block_id :: int
  cs_requirement :: proof_requirement
  cs_mints :: "mint_burn list"
  cs_burns :: "mint_burn list"
  cs_mod_transfers :: "mod_transfer list"
  cs_settled_amount :: int
  cs_settled_denom :: "string option"
  cs_mint_ratio :: "rat option"
  cs_supplier_owner :: "string option"
  cs_minted_amount :: "int option"
  cs_minted_denom :: "string option"
  cs_overservicing :: int
  cs_overservicing_denom :: "string option"
  cs_deflation :: int
  cs_deflation_denom :: "string option"

text \<open>\<open>x?.denom || claimed.denom\<close>.\<close>

definition denom_or :: "string option \<Rightarrow> coin option \<Rightarrow> string option" where
  "denom_or d claimed = (if text_or_empty d = [] then map_option denom claimed else d)"

definition build_claim_settled_props ::
  "int \<Rightarrow> cosmos_event \<Rightarrow> claim_attrs \<Rightarrow> settlement_parts \<Rightarrow> string option \<Rightarrow> rat option \<Rightarrow> claim_settled res" where
  "build_claim_settled_props b ev a parts burn ratio =
     bind_res (claim_object (at_claim a)) (\<lambda>claim.
     bind_res (compute_num_estimated_relays (at_chain_estimated a) (at_estimated_units a) (at_claimed_units a)
         (at_num_relays a)) (\<lambda>estimated.
     bind_res (compute_overservicing_loss (at_overservicing a) (map_option amount (at_claimed a)) burn) (\<lambda>over.
     bind_res (compute_deflation_loss (at_deflation a) burn (sp_minted parts)) (\<lambda>deflation.
     bind_res (header_height ''session_start_block_height'' claim) (\<lambda>session_start.
     bind_res (header_height ''session_end_block_height'' claim) (\<lambda>session_end.
     bind_res (get_claim_proof_status_from_sdk (json_get ''proof_validation_status'' claim)) (\<lambda>status.
     bind_res (big_int_opt burn) (\<lambda>settled_amount.
     bind_res (case sp_minted parts of None \<Rightarrow> Inr None
         | Some c \<Rightarrow> map_res Some (big_int_opt (pc_amount c))) (\<lambda>minted.
       Inr \<lparr>cs_id = get_event_id ev, cs_supplier = json_get_str ''supplier_operator_address'' claim,
            cs_application = header_field ''application_address'' claim,
            cs_service = header_field ''service_id'' claim, cs_session = header_field ''session_id'' claim,
            cs_session_start = session_start, cs_session_end = session_end, cs_num_relays = at_num_relays a,
            cs_num_estimated_relays = estimated, cs_claimed_units = at_claimed_units a,
            cs_estimated_units = at_estimated_units a,
            cs_claimed_denom = text_or_empty (map_option denom (at_claimed a)), cs_claimed_amount = settled_amount,
            cs_status = status, cs_transaction_id = map_option tx_hash (event_tx ev), cs_block_id = b,
            cs_requirement = at_requirement a, cs_mints = sp_mints parts, cs_burns = sp_burns parts,
            cs_mod_transfers = sp_mod_transfers parts, cs_settled_amount = settled_amount,
            cs_settled_denom = denom_or (map_option denom (at_settled a)) (at_claimed a), cs_mint_ratio = ratio,
            cs_supplier_owner = at_supplier_owner a, cs_minted_amount = minted,
            cs_minted_denom = denom_or (Option.bind (sp_minted parts) pc_denom) (at_claimed a),
            cs_overservicing = over,
            cs_overservicing_denom = denom_or (map_option denom (at_overservicing a)) (at_claimed a),
            cs_deflation = deflation,
            cs_deflation_denom = denom_or (map_option denom (at_deflation a)) (at_claimed a)\<rparr>)))))))))"

text \<open>
  The burn that took effect: the settled amount of the event, else the burn of the overserviced
  application, else the claimed amount. \<open>burns\<close> are the effective burns by application and supplier.
\<close>

definition effective_burn :: "(string \<times> string) list \<Rightarrow> claim_attrs \<Rightarrow> json \<Rightarrow> string option" where
  "effective_burn burns a claim = (case at_settled a of
     Some c \<Rightarrow> Some (amount c)
   | None \<Rightarrow>
      (let key = dash (header_field ''application_address'' claim)
           (text_or_undefined (json_get_str ''supplier_operator_address'' claim)) in
       if text_or_empty (map_of burns key) = [] then map_option amount (at_claimed a) else map_of burns key))"

definition handle_event_claim_settled_one ::
  "int \<Rightarrow> rat option \<Rightarrow> (string \<times> string) list \<Rightarrow> cosmos_event \<Rightarrow> (claim_settled \<times> transfer list) res" where
  "handle_event_claim_settled_one b ratio burns ev =
     bind_res (get_attributes (attributes (event ev))) (\<lambda>a.
     bind_res (claim_object (at_claim a)) (\<lambda>claim.
     let mint_ratio = (if text_or_empty (at_mint_ratio a) = [] then ratio
           else parse_float (text_or_empty (at_mint_ratio a)));
         burn = effective_burn burns a claim in
     bind_res (resolve_settlement_parts a (get_event_id ev) b burn mint_ratio) (\<lambda>parts.
       map_res (\<lambda>props. (props, sp_transfers parts)) (build_claim_settled_props b ev a parts burn mint_ratio))))"

subsection \<open>The summary of transfers\<close>

record transfer_summary =
  ts_id :: string
  ts_block :: int
  ts_recipient :: string
  ts_reason :: string
  ts_denom :: string
  ts_service :: string
  ts_amount :: int
  ts_count :: int

definition bar :: "string list \<Rightarrow> string" where
  "bar parts = join (CHR ''|'') parts"

definition transfer_key :: "(string \<Rightarrow> string option) \<Rightarrow> transfer \<Rightarrow> string" where
  "transfer_key service_of t =
     bar [mt_recipient t, mt_reason t, mt_denom t, text_or_empty (service_of (mt_claim_id t))]"

definition summary_id :: "int \<Rightarrow> transfer \<Rightarrow> string \<Rightarrow> string" where
  "summary_id b t service =
     dash (show_int b) (dash (mt_recipient t) (dash (mt_reason t) (dash (mt_denom t) service)))"

definition summarize_step ::
  "int \<Rightarrow> (string \<Rightarrow> string option) \<Rightarrow> (string \<times> transfer_summary) list \<Rightarrow> transfer \<Rightarrow>
   (string \<times> transfer_summary) list" where
  "summarize_step b service_of grouped t =
     (let service = text_or_empty (service_of (mt_claim_id t)); key = transfer_key service_of t in
      case map_of grouped key of
        Some s \<Rightarrow> dict_set key (s\<lparr>ts_amount := ts_amount s + mt_amount t, ts_count := ts_count s + 1\<rparr>) grouped
      | None \<Rightarrow> dict_set key \<lparr>ts_id = summary_id b t service, ts_block = b, ts_recipient = mt_recipient t,
          ts_reason = mt_reason t, ts_denom = mt_denom t, ts_service = service, ts_amount = mt_amount t,
          ts_count = 1\<rparr> grouped)"

definition summarize_transfers :: "transfer list \<Rightarrow> (string \<Rightarrow> string option) \<Rightarrow> transfer_summary list" where
  "summarize_transfers ts service_of = (case ts of
     [] \<Rightarrow> []
   | t # _ \<Rightarrow> map snd (foldl (summarize_step (mt_block t) service_of) [] ts))"

subsection \<open>Lemmas on the summary\<close>

definition group_row :: "int \<Rightarrow> (string \<Rightarrow> string option) \<Rightarrow> transfer list \<Rightarrow> transfer_summary" where
  "group_row b service_of g =
     (let t = hd g; service = text_or_empty (service_of (mt_claim_id t)) in
      \<lparr>ts_id = summary_id b t service, ts_block = b, ts_recipient = mt_recipient t, ts_reason = mt_reason t,
       ts_denom = mt_denom t, ts_service = service, ts_amount = sum_list (map mt_amount g), ts_count = int (length g)\<rparr>)"

abbreviation with_key :: "(string \<Rightarrow> string option) \<Rightarrow> string \<Rightarrow> transfer list \<Rightarrow> transfer list" where
  "with_key service_of k ts \<equiv> filter (\<lambda>t. transfer_key service_of t = k) ts"

lemma group_row_snoc:
  "g \<noteq> [] \<Longrightarrow> group_row b service_of (g @ [t]) =
     (group_row b service_of g)\<lparr>ts_amount := sum_list (map mt_amount g) + mt_amount t, ts_count := int (length g) + 1\<rparr>"
  by (simp add: group_row_def Let_def)

lemma group_row_amounts [simp]:
  "ts_amount (group_row b service_of g) = sum_list (map mt_amount g)"
  "ts_count (group_row b service_of g) = int (length g)"
  by (simp_all add: group_row_def Let_def)

lemma summarize_step_new:
  "map_of d (transfer_key service_of t) = None \<Longrightarrow>
     summarize_step b service_of d t = dict_set (transfer_key service_of t) (group_row b service_of [t]) d"
  by (simp add: summarize_step_def group_row_def Let_def)

lemma summarize_step_old:
  "map_of d (transfer_key service_of t) = Some s \<Longrightarrow>
     summarize_step b service_of d t = dict_set (transfer_key service_of t)
       (s\<lparr>ts_amount := ts_amount s + mt_amount t, ts_count := ts_count s + 1\<rparr>) d"
  by (simp add: summarize_step_def Let_def)

text \<open>One row per key, the sum of the transfers with the key.\<close>

lemma summarize_fold:
  "dict_ok (foldl (summarize_step b service_of) [] ts) \<and>
   map_of (foldl (summarize_step b service_of) [] ts) k =
     (if with_key service_of k ts = [] then None else Some (group_row b service_of (with_key service_of k ts)))"
proof (induction ts arbitrary: k rule: rev_induct)
  case (snoc t ts)
  define d where "d = foldl (summarize_step b service_of) [] ts"
  let ?k = "transfer_key service_of t"
  have ok: "dict_ok d" using snoc by (simp add: d_def)
  have IH: "map_of d k = (if with_key service_of k ts = [] then None
      else Some (group_row b service_of (with_key service_of k ts)))" for k
    using snoc by (simp add: d_def)
  show ?case
  proof (cases "with_key service_of ?k ts = []")
    case True
    then have "summarize_step b service_of d t = dict_set ?k (group_row b service_of [t]) d"
      by (intro summarize_step_new) (simp add: IH)
    with True ok show ?thesis by (auto simp: IH simp flip: d_def)
  next
    case False
    then have "map_of d ?k = Some (group_row b service_of (with_key service_of ?k ts))" by (simp add: IH)
    from summarize_step_old [OF this] False ok show ?thesis
      by (auto simp: IH group_row_snoc simp flip: d_def)
  qed
qed simp

lemma summarize_eq:
  "summarize_transfers ts service_of = map snd (foldl (summarize_step (mt_block (hd ts)) service_of) [] ts)"
  by (cases ts) (simp_all add: summarize_transfers_def)

lemma summarize_rows:
  "s \<in> set (summarize_transfers ts service_of) \<longleftrightarrow>
     (\<exists>k. with_key service_of k ts \<noteq> [] \<and> s = group_row (mt_block (hd ts)) service_of (with_key service_of k ts))"
proof -
  let ?d = "foldl (summarize_step (mt_block (hd ts)) service_of) [] ts"
  have ok: "dict_ok ?d" using summarize_fold by blast
  have "s \<in> set (summarize_transfers ts service_of) \<longleftrightarrow> (\<exists>k. map_of ?d k = Some s)"
    unfolding summarize_eq by (force simp: map_of_eq_Some_dict [OF ok])
  then show ?thesis using summarize_fold [of "mt_block (hd ts)" service_of ts] by (auto split: if_splits)
qed

text \<open>The parts of a key have no bar in them, so that equal keys have equal parts.\<close>

definition plain_transfer :: "(string \<Rightarrow> string option) \<Rightarrow> transfer \<Rightarrow> bool" where
  "plain_transfer service_of t \<longleftrightarrow>
     CHR ''|'' \<notin> set (mt_recipient t) \<and> CHR ''|'' \<notin> set (mt_reason t) \<and> CHR ''|'' \<notin> set (mt_denom t) \<and>
     CHR ''|'' \<notin> set (text_or_empty (service_of (mt_claim_id t)))"

definition same_group :: "(string \<Rightarrow> string option) \<Rightarrow> transfer \<Rightarrow> transfer \<Rightarrow> bool" where
  "same_group service_of t u \<longleftrightarrow> mt_recipient t = mt_recipient u \<and> mt_reason t = mt_reason u \<and>
     mt_denom t = mt_denom u \<and>
     text_or_empty (service_of (mt_claim_id t)) = text_or_empty (service_of (mt_claim_id u))"

lemma transfer_key_inject:
  assumes "plain_transfer service_of t" "plain_transfer service_of u"
  shows "transfer_key service_of t = transfer_key service_of u \<longleftrightarrow> same_group service_of t u"
proof
  assume eq: "transfer_key service_of t = transfer_key service_of u"
  let ?parts = "\<lambda>t. [mt_recipient t, mt_reason t, mt_denom t, text_or_empty (service_of (mt_claim_id t))]"
  have "split_on (CHR ''|'') (transfer_key service_of x) = ?parts x" if "plain_transfer service_of x" for x
    unfolding transfer_key_def bar_def by (rule split_on_join) (use that in \<open>simp_all add: plain_transfer_def\<close>)
  with eq assms have "?parts t = ?parts u" by metis
  then show "same_group service_of t u" by (simp add: same_group_def)
qed (simp add: transfer_key_def same_group_def)

lemma with_key_group:
  assumes "list_all (plain_transfer service_of) ts" "t \<in> set ts"
  shows "with_key service_of (transfer_key service_of t) ts = filter (same_group service_of t) ts"
  using assms by (intro filter_cong) (auto simp: list_all_iff transfer_key_inject same_group_def)

text \<open>The rows have different parts, and together they hold every transfer.\<close>

lemma summarize_distinct:
  assumes "list_all (plain_transfer service_of) ts"
  shows "distinct (map (\<lambda>s. (ts_recipient s, ts_reason s, ts_denom s, ts_service s)) (summarize_transfers ts service_of))"
proof -
  let ?b = "mt_block (hd ts)"
  let ?d = "foldl (summarize_step ?b service_of) [] ts"
  let ?parts = "\<lambda>s. (ts_recipient s, ts_reason s, ts_denom s, ts_service s)"
  have ok: "dict_ok ?d" using summarize_fold by blast
  have parts: "\<exists>t \<in> set ts. transfer_key service_of t = k \<and> ?parts s =
      (mt_recipient t, mt_reason t, mt_denom t, text_or_empty (service_of (mt_claim_id t)))"
    if "(k, s) \<in> set ?d" for k s
  proof -
    have "map_of ?d k = Some s" using that by (simp add: map_of_eq_Some_dict [OF ok])
    then have g: "with_key service_of k ts \<noteq> []" "s = group_row ?b service_of (with_key service_of k ts)"
      using summarize_fold [of ?b service_of ts k] by (auto split: if_splits)
    have "hd (with_key service_of k ts) \<in> set (with_key service_of k ts)" by (rule hd_in_set [OF g(1)])
    then show ?thesis using g(2) by (intro bexI [of _ "hd (with_key service_of k ts)"]) (auto simp: group_row_def Let_def)
  qed
  have "inj_on (?parts \<circ> snd) (set ?d)"
  proof (rule inj_onI)
    fix x y assume xy: "x \<in> set ?d" "y \<in> set ?d" "(?parts \<circ> snd) x = (?parts \<circ> snd) y"
    obtain k s k' s' where eq: "x = (k, s)" "y = (k', s')" by fastforce
    obtain t u where tu: "t \<in> set ts" "u \<in> set ts" "transfer_key service_of t = k" "transfer_key service_of u = k'"
      "same_group service_of t u"
      using parts [of k s] parts [of k' s'] xy by (auto simp: eq same_group_def)
    then have "k = k'" using assms transfer_key_inject by (auto simp: list_all_iff)
    moreover have "map_of ?d k = Some s" "map_of ?d k' = Some s'"
      using xy(1,2) by (simp_all add: eq map_of_eq_Some_dict [OF ok])
    ultimately show "x = y" by (simp add: eq)
  qed
  moreover have "distinct ?d" using ok by (simp add: dict_ok_def distinct_map)
  ultimately have "distinct (map (?parts \<circ> snd) ?d)" by (simp add: distinct_map)
  then show ?thesis by (simp add: summarize_eq comp_def)
qed

lemma sum_dict_set:
  fixes f :: "'v \<Rightarrow> int"
  shows "dict_ok d \<Longrightarrow> sum_list (map (f \<circ> snd) (dict_set k v d)) =
    sum_list (map (f \<circ> snd) d) + f v - (case map_of d k of None \<Rightarrow> 0 | Some u \<Rightarrow> f u)"
  by (induction k v d rule: dict_set.induct) (auto simp: dict_ok_def split: option.splits)

lemma summarize_total: "sum_list (map ts_amount (summarize_transfers ts service_of)) = sum_list (map mt_amount ts)"
proof -
  have "sum_list (map (ts_amount \<circ> snd) (foldl (summarize_step b service_of) [] ts)) = sum_list (map mt_amount ts)" for b
  proof (induction ts rule: rev_induct)
    case (snoc t ts)
    define d where "d = foldl (summarize_step b service_of) [] ts"
    have ok: "dict_ok d" unfolding d_def using summarize_fold by blast
    show ?case
    proof (cases "map_of d (transfer_key service_of t)")
      case None
      with snoc show ?thesis
        by (simp add: summarize_step_new sum_dict_set [OF ok, where f = ts_amount, unfolded comp_def] flip: d_def)
    next
      case (Some s)
      with snoc show ?thesis
        by (simp add: summarize_step_old sum_dict_set [OF ok, where f = ts_amount, unfolded comp_def] flip: d_def)
    qed
  qed simp
  then show ?thesis by (simp add: summarize_eq)
qed

subsection \<open>Properties\<close>

text \<open>
  C10: the summary of a block's transfers has, for every recipient, reason, denomination and service that
  occurs, exactly one row, which has the sum and the number of their transfers; there are no other rows
  and the amounts add up to those of the transfers.
\<close>

theorem summarize_transfers_spec:
  assumes "list_all (plain_transfer service_of) ts"
  shows "set (summarize_transfers ts service_of) =
      (\<lambda>t. group_row (mt_block (hd ts)) service_of (filter (same_group service_of t) ts)) ` set ts \<and>
    distinct (map (\<lambda>s. (ts_recipient s, ts_reason s, ts_denom s, ts_service s)) (summarize_transfers ts service_of)) \<and>
    sum_list (map ts_amount (summarize_transfers ts service_of)) = sum_list (map mt_amount ts)"
proof -
  have "s \<in> set (summarize_transfers ts service_of) \<longleftrightarrow>
      s \<in> (\<lambda>t. group_row (mt_block (hd ts)) service_of (filter (same_group service_of t) ts)) ` set ts" for s
  proof
    assume "s \<in> set (summarize_transfers ts service_of)"
    then obtain k where k: "with_key service_of k ts \<noteq> []"
      "s = group_row (mt_block (hd ts)) service_of (with_key service_of k ts)"
      by (auto simp: summarize_rows)
    then obtain t where "t \<in> set ts" "transfer_key service_of t = k"
      by (auto simp: filter_empty_conv)
    then show "s \<in> (\<lambda>t. group_row (mt_block (hd ts)) service_of (filter (same_group service_of t) ts)) ` set ts"
      using k(2) with_key_group [OF assms, of t] by auto
  next
    assume "s \<in> (\<lambda>t. group_row (mt_block (hd ts)) service_of (filter (same_group service_of t) ts)) ` set ts"
    then obtain t where t: "t \<in> set ts" "s = group_row (mt_block (hd ts)) service_of (filter (same_group service_of t) ts)"
      by auto
    then show "s \<in> set (summarize_transfers ts service_of)"
      using with_key_group [OF assms t(1)]
      unfolding summarize_rows by (intro exI [of _ "transfer_key service_of t"]) (auto simp: filter_empty_conv same_group_def)
  qed
  then show ?thesis using summarize_distinct [OF assms] summarize_total by blast
qed

definition transfer_example :: "string \<Rightarrow> string \<Rightarrow> int \<Rightarrow> transfer" where
  "transfer_example i to n = \<lparr>mt_id = i, mt_claim_id = ''c'', mt_block = 7, mt_reason = ''R'', mt_recipient = to,
     mt_amount = n, mt_denom = ''upokt''\<rparr>"

theorem summarize_transfers_spec_witness:
  "let ts = [transfer_example ''1'' ''a'' 5, transfer_example ''2'' ''b'' 4, transfer_example ''3'' ''a'' 3] in
   set (summarize_transfers ts (\<lambda>_. Some ''eth'')) =
     {group_row 7 (\<lambda>_. Some ''eth'') [transfer_example ''1'' ''a'' 5, transfer_example ''3'' ''a'' 3],
      group_row 7 (\<lambda>_. Some ''eth'') [transfer_example ''2'' ''b'' 4]}"
proof -
  let ?ts = "[transfer_example ''1'' ''a'' 5, transfer_example ''2'' ''b'' 4, transfer_example ''3'' ''a'' 3]"
  have "list_all (plain_transfer (\<lambda>_. Some ''eth'')) ?ts" by code_simp
  from summarize_transfers_spec [OF this] show ?thesis
    by (simp add: same_group_def transfer_example_def insert_commute)
qed


definition settled_event_example :: cosmos_event where
  "settled_event_example = \<lparr>event_idx = 2, event_kind = KEndBlock, kind_text = ''EndBlock'',
     event = \<lparr>ev_type = ''pocket.tokenomics.EventClaimSettled'', attributes =
       [(''supplier_operator_address'', quoted ''s''), (''application_address'', quoted ''a''),
        (''claimed_upokt'', quoted ''10upokt''), (''settled_upokt'', quoted ''8upokt''),
        (''minted_upokt'', quoted ''6upokt'')]\<rparr>,
     event_tx = None, event_msg = None, event_height = 7\<rparr>"




end
