(* ===== verification/Relays.thy ===== *)
theory Relays
  imports Settlement "HOL-Library.Multiset"
begin

text \<open>
  The handlers of \<open>src/mappings/pocket/relays.ts\<close>: claims and proofs, their events, overserviced
  applications, reimbursements, settlement batches and validator rewards. Every table is rewritten for
  its block; the transfers of settled claims and of settlement batches share their two tables, which
  are written with raw statements. \<open>b\<close> is the height of the block.
\<close>

subsection \<open>Tables\<close>

record create_claim =
  cc_id :: string
  cc_transaction_id :: string
  cc_block_id :: int
  cc_supplier :: string
  cc_application :: string
  cc_service :: string
  cc_session :: string
  cc_num_relays :: int
  cc_num_estimated_relays :: int
  cc_claimed_units :: int
  cc_estimated_units :: int
  cc_claimed_denom :: string
  cc_claimed_amount :: int
  cc_session_start :: int
  cc_session_end :: int

record submit_proof =
  pr_id :: string
  pr_transaction_id :: string
  pr_block_id :: int
  pr_application :: string
  pr_supplier :: string
  pr_session :: string
  pr_service :: string
  pr_session_end :: int
  pr_session_start :: int

text \<open>The events of a claim that expired, was updated or whose proof was updated.\<close>

record claim_event =
  ce_id :: string
  ce_transaction_id :: "string option"
  ce_block_id :: int
  ce_supplier :: "string option"
  ce_application :: string
  ce_service :: string
  ce_session :: string
  ce_session_start :: int
  ce_session_end :: int
  ce_num_relays :: int
  ce_num_estimated_relays :: "int option"
  ce_claimed_units :: int
  ce_estimated_units :: int
  ce_claimed_denom :: string
  ce_claimed_amount :: int
  ce_status :: "claim_proof_status option"
  ce_expiration :: "expiration_reason option"

record overserviced =
  os_id :: string
  os_application :: string
  os_supplier :: string
  os_expected_burn :: "int \<times> string"
  os_effective_burn :: "int \<times> string"
  os_block_id :: int
  os_service :: "string option"
  os_session_end :: "int option"
  os_spend_limit_exceeded :: "bool option"

record reimbursement =
  re_id :: string
  re_application :: string
  re_supplier :: string
  re_service :: string
  re_session :: string
  re_amount :: int
  re_denom :: string
  re_block_id :: int

text \<open>The session heights are stored as the event gives them.\<close>

record validity_checked =
  vc_id :: string
  vc_block_id :: int
  vc_supplier :: string
  vc_application :: "string option"
  vc_service :: "string option"
  vc_session :: "string option"
  vc_session_start :: "string option"
  vc_session_end :: "string option"
  vc_status :: claim_proof_status
  vc_failure_reason :: string

record validator_reward =
  vr_id :: string
  vr_block_id :: int
  vr_session_end :: int
  vr_reason :: string
  vr_operator :: string
  vr_account :: string
  vr_commission_rate :: string
  vr_pool_share :: int
  vr_commission :: int
  vr_self_delegation :: int
  vr_delegators :: int
  vr_total_delegated :: int
  vr_num_delegators :: rat

record relay_db =
  create_claims :: "create_claim hrow list"
  submit_proofs :: "submit_proof hrow list"
  claim_expireds :: "claim_event hrow list"
  claim_settleds :: "claim_settled hrow list"
  claim_updateds :: "claim_event hrow list"
  proof_updateds :: "claim_event hrow list"
  overserviceds :: "overserviced hrow list"
  reimbursements :: "reimbursement hrow list"
  validity_checks :: "validity_checked hrow list"
  validator_rewards :: "validator_reward hrow list"
  transfers :: "transfer list"
  transfer_summaries :: "transfer_summary list"

subsection \<open>Messages\<close>

definition header_texts :: "session_header option \<Rightarrow> string \<times> string \<times> string" where
  "header_texts h = (case h of None \<Rightarrow> ([], [], [])
     | Some s \<Rightarrow> (application_address s, service_id s, session_id s))"

definition header_heights :: "session_header option \<Rightarrow> int \<times> int" where
  "header_heights h = (case h of None \<Rightarrow> (0, 0)
     | Some s \<Rightarrow> (session_start_block_height s, session_end_block_height s))"

text \<open>
  Service, application and supplier of a claim event: from single attributes or from its claim. The
  reading ends as soon as all three are known.
\<close>

fun claim_event_ids :: "string \<times> string \<times> string \<Rightarrow> attribute list \<Rightarrow> (string \<times> string \<times> string) res" where
  "claim_event_ids ids [] = Inr ids"
| "claim_event_ids (service, app, supplier) ((k, v) # as) =
     bind_res (
       if k = ''service_id'' then Inr (parse_attribute v, app, supplier)
       else if k = ''application_address'' then Inr (service, parse_attribute v, supplier)
       else if k = ''supplier_operator_address'' then Inr (service, app, parse_attribute v)
       else if k = ''claim'' then
         bind_res (parse_json v) (\<lambda>j. map_res (\<lambda>claim.
           (header_field ''service_id'' claim, header_field ''application_address'' claim,
            text_or_empty (json_get_str ''supplier_operator_address'' claim))) (claim_object j))
       else Inr (service, app, supplier))
     (\<lambda>(s, a, u). if s \<noteq> [] \<and> a \<noteq> [] \<and> u \<noteq> [] then Inr (s, a, u) else claim_event_ids (s, a, u) as)"

definition is_claim_event :: "string \<times> string \<times> string \<Rightarrow> event_body \<Rightarrow> bool res" where
  "is_claim_event ids e =
     (if ev_type e = ''pocket.proof.EventClaimCreated'' \<or> ev_type e = ''pocket.proof.EventClaimUpdated''
      then map_res (\<lambda>found. found = ids) (claim_event_ids ([], [], []) (attributes e)) else Inr False)"

fun find_claim_event :: "string \<times> string \<times> string \<Rightarrow> event_body list \<Rightarrow> event_body option res" where
  "find_claim_event ids [] = Inr None"
| "find_claim_event ids (e # es) =
     bind_res (is_claim_event ids e) (\<lambda>ok. if ok then Inr (Some e) else find_claim_event ids es)"

text \<open>\<open>BigInt(claimed?.amount || "0")\<close>.\<close>

definition claimed_amount :: "coin option \<Rightarrow> int res" where
  "claimed_amount c = big_int (text_or_empty (map_option amount c))"

definition handle_msg_create_claim_one :: "int \<Rightarrow> cosmos_msg \<Rightarrow> create_claim res" where
  "handle_msg_create_claim_one b msg = (case decoded msg of
     CreateClaim supplier header \<Rightarrow>
       (let (app, service, session) = header_texts header in
        bind_res (find_claim_event (service, app, supplier) (tx_events (msg_tx msg))) (\<lambda>found.
        bind_res (require ''EventClaimCreated not found for msg MsgCreateClaim'' found) (\<lambda>e.
        bind_res (get_attributes (attributes e)) (\<lambda>a.
        bind_res (compute_num_estimated_relays (at_chain_estimated a) (at_estimated_units a) (at_claimed_units a)
            (at_num_relays a)) (\<lambda>estimated.
        bind_res (claimed_amount (at_claimed a)) (\<lambda>amt.
          Inr \<lparr>cc_id = message_id msg, cc_transaction_id = tx_hash (msg_tx msg), cc_block_id = b,
               cc_supplier = supplier, cc_application = app, cc_service = service, cc_session = session,
               cc_num_relays = at_num_relays a, cc_num_estimated_relays = estimated,
               cc_claimed_units = at_claimed_units a, cc_estimated_units = at_estimated_units a,
               cc_claimed_denom = text_or_empty (map_option denom (at_claimed a)), cc_claimed_amount = amt,
               cc_session_start = fst (header_heights header), cc_session_end = snd (header_heights header)\<rparr>))))))
   | _ \<Rightarrow> throw ''unexpected message'')"

definition handle_msg_submit_proof_one :: "int \<Rightarrow> cosmos_msg \<Rightarrow> submit_proof res" where
  "handle_msg_submit_proof_one b msg = (case decoded msg of
     SubmitProof supplier header \<Rightarrow>
       (let (app, service, session) = header_texts header in
        Inr \<lparr>pr_id = message_id msg, pr_transaction_id = tx_hash (msg_tx msg), pr_block_id = b,
             pr_application = app, pr_supplier = supplier, pr_session = session, pr_service = service,
             pr_session_end = snd (header_heights header), pr_session_start = fst (header_heights header)\<rparr>)
   | _ \<Rightarrow> throw ''unexpected message'')"

subsection \<open>Claim and proof events\<close>

text \<open>
  \<open>estimate\<close> says whether the event stores the estimated relays and \<open>expired\<close> whether it stores the
  expiration reason.
\<close>

definition claim_event_props ::
  "bool \<Rightarrow> bool \<Rightarrow> int \<Rightarrow> cosmos_event \<Rightarrow> claim_attrs \<Rightarrow> claim_event res" where
  "claim_event_props estimate expired b ev a =
     bind_res (claim_object (at_claim a)) (\<lambda>claim.
     bind_res (if estimate then map_res Some (compute_num_estimated_relays (at_chain_estimated a)
           (at_estimated_units a) (at_claimed_units a) (at_num_relays a)) else Inr None) (\<lambda>estimated.
     bind_res (header_height ''session_start_block_height'' claim) (\<lambda>session_start.
     bind_res (header_height ''session_end_block_height'' claim) (\<lambda>session_end.
     bind_res (claimed_amount (at_claimed a)) (\<lambda>amt.
     bind_res (get_claim_proof_status_from_sdk (json_get ''proof_validation_status'' claim)) (\<lambda>status.
       Inr \<lparr>ce_id = get_event_id ev, ce_transaction_id = map_option tx_hash (event_tx ev), ce_block_id = b,
            ce_supplier = json_get_str ''supplier_operator_address'' claim,
            ce_application = header_field ''application_address'' claim,
            ce_service = header_field ''service_id'' claim, ce_session = header_field ''session_id'' claim,
            ce_session_start = session_start, ce_session_end = session_end, ce_num_relays = at_num_relays a,
            ce_num_estimated_relays = estimated, ce_claimed_units = at_claimed_units a,
            ce_estimated_units = at_estimated_units a,
            ce_claimed_denom = text_or_empty (map_option denom (at_claimed a)), ce_claimed_amount = amt,
            ce_status = status, ce_expiration = (if expired then Some (at_expiration a) else None)\<rparr>))))))"

definition handle_event_claim_expired_one :: "int \<Rightarrow> cosmos_event \<Rightarrow> claim_event res" where
  "handle_event_claim_expired_one b ev =
     bind_res (get_attributes (attributes (event ev))) (claim_event_props True True b ev)"

definition handle_event_proof_updated_one :: "int \<Rightarrow> cosmos_event \<Rightarrow> claim_event res" where
  "handle_event_proof_updated_one b ev =
     bind_res (get_attributes (attributes (event ev))) (claim_event_props False False b ev)"

text \<open>The ids of an updated claim are those of the message of the event.\<close>

definition handle_event_claim_updated_one :: "int \<Rightarrow> cosmos_event \<Rightarrow> claim_event res" where
  "handle_event_claim_updated_one b ev =
     bind_res (get_attributes (attributes (event ev))) (\<lambda>a.
     bind_res (require ''TypeError: msg is undefined'' (event_msg ev)) (\<lambda>msg.
     (case decoded msg of
        CreateClaim supplier header \<Rightarrow>
          (let (app, service, session) = header_texts header in
           map_res (\<lambda>amt. \<lparr>ce_id = get_event_id ev, ce_transaction_id = map_option tx_hash (event_tx ev),
               ce_block_id = b, ce_supplier = Some supplier, ce_application = app, ce_service = service,
               ce_session = session, ce_session_start = fst (header_heights header),
               ce_session_end = snd (header_heights header), ce_num_relays = at_num_relays a,
               ce_num_estimated_relays = None, ce_claimed_units = at_claimed_units a,
               ce_estimated_units = at_estimated_units a,
               ce_claimed_denom = text_or_empty (map_option denom (at_claimed a)), ce_claimed_amount = amt,
               ce_status = None, ce_expiration = None\<rparr>)
             (claimed_amount (at_claimed a)))
      | _ \<Rightarrow> throw ''unexpected message'')))"

subsection \<open>Overserviced applications and reimbursements\<close>

record overserviced_acc =
  oa_expected :: "coin option"
  oa_effective :: "coin option"
  oa_application :: string
  oa_supplier :: string
  oa_service :: "string option"
  oa_session_end :: "int option"
  oa_exceeded :: "bool option"

definition overserviced_attribute :: "overserviced_acc \<Rightarrow> attribute \<Rightarrow> overserviced_acc res" where
  "overserviced_attribute acc = (\<lambda>(k, v).
     if k = ''application_addr'' then Inr (acc\<lparr>oa_application := parse_attribute v\<rparr>)
     else if k = ''supplier_operator_addr'' then Inr (acc\<lparr>oa_supplier := parse_attribute v\<rparr>)
     else if k = ''expected_burn'' then map_res (\<lambda>c. acc\<lparr>oa_expected := Some c\<rparr>) (get_denom_and_amount v)
     else if k = ''effective_burn'' then map_res (\<lambda>c. acc\<lparr>oa_effective := Some c\<rparr>) (get_denom_and_amount v)
     else if k = ''service_id'' then Inr (acc\<lparr>oa_service := Some (parse_attribute v)\<rparr>)
     else if k = ''session_end_block_height'' then
       map_res (\<lambda>h. acc\<lparr>oa_session_end := Some h\<rparr>) (big_int (parse_attribute v))
     else if k = ''spend_limit_exceeded'' then Inr (acc\<lparr>oa_exceeded := Some (parse_attribute v = ''true'')\<rparr>)
     else Inr acc)"

definition handle_event_application_overserviced_one :: "int \<Rightarrow> cosmos_event \<Rightarrow> overserviced res" where
  "handle_event_application_overserviced_one b ev =
     bind_res (foldM_res overserviced_attribute \<lparr>oa_expected = None, oa_effective = None, oa_application = [],
         oa_supplier = [], oa_service = None, oa_session_end = None, oa_exceeded = None\<rparr> (attributes (event ev))) (\<lambda>acc.
     bind_res (require_str ''[handleEventApplicationOverserviced] applicationAddress not found in event''
         (oa_application acc)) (\<lambda>app.
     bind_res (require_str ''[handleEventApplicationOverserviced] supplierAddress not found in event''
         (oa_supplier acc)) (\<lambda>supplier.
     bind_res (require ''[handleEventApplicationOverserviced] expectedBurn not found in event'' (oa_expected acc)) (\<lambda>ex.
     bind_res (require ''[handleEventApplicationOverserviced] effectiveBurn not found in event'' (oa_effective acc)) (\<lambda>ef.
     bind_res (big_int (amount ex)) (\<lambda>n.
     bind_res (big_int (amount ef)) (\<lambda>m.
       Inr \<lparr>os_id = get_event_id ev, os_application = app, os_supplier = supplier, os_expected_burn = (n, denom ex),
            os_effective_burn = (m, denom ef), os_block_id = b, os_service = oa_service acc,
            os_session_end = oa_session_end acc, os_spend_limit_exceeded = oa_exceeded acc\<rparr>)))))))"

record reimbursement_acc =
  ra_application :: string
  ra_supplier :: string
  ra_service :: string
  ra_session :: string
  ra_coin :: "coin option"

definition reimbursement_attribute :: "reimbursement_acc \<Rightarrow> attribute \<Rightarrow> reimbursement_acc res" where
  "reimbursement_attribute acc = (\<lambda>(k, v).
     if k = ''amount'' then map_res (\<lambda>c. acc\<lparr>ra_coin := Some c\<rparr>) (get_denom_and_amount v)
     else if k = ''application_addr'' then Inr (acc\<lparr>ra_application := parse_attribute v\<rparr>)
     else if k = ''supplier_operator_addr'' then Inr (acc\<lparr>ra_supplier := parse_attribute v\<rparr>)
     else if k = ''service_id'' then Inr (acc\<lparr>ra_service := parse_attribute v\<rparr>)
     else if k = ''session_id'' then Inr (acc\<lparr>ra_session := parse_attribute v\<rparr>)
     else Inr acc)"

definition handle_event_application_reimbursement_request_one :: "int \<Rightarrow> cosmos_event \<Rightarrow> reimbursement res" where
  "handle_event_application_reimbursement_request_one b ev =
     bind_res (foldM_res reimbursement_attribute \<lparr>ra_application = [], ra_supplier = [], ra_service = [],
         ra_session = [], ra_coin = None\<rparr> (attributes (event ev))) (\<lambda>acc.
     bind_res (require ''[handleEventApplicationReimbursementRequest] coin not found in event'' (ra_coin acc)) (\<lambda>c.
       map_res (\<lambda>n. \<lparr>re_id = get_event_id ev, re_application = ra_application acc, re_supplier = ra_supplier acc,
           re_service = ra_service acc, re_session = ra_session acc, re_amount = n, re_denom = denom c, re_block_id = b\<rparr>)
         (big_int (amount c))))"

subsection \<open>Proof validity\<close>

text \<open>
  \<open>parseAttribute(claim?.proof_validation_status)\<close>: an absent status is the empty text, one that is not
  a string has no \<open>replaceAll\<close>.
\<close>

definition claim_status_text :: "json \<Rightarrow> string res" where
  "claim_status_text claim = (case json_get ''proof_validation_status'' claim of
     None \<Rightarrow> Inr [] | Some (JStr s) \<Rightarrow> Inr (parse_attribute s)
   | Some _ \<Rightarrow> throw ''TypeError: replaceAll is not a function'')"

definition truthy_field :: "string \<Rightarrow> json \<Rightarrow> json option" where
  "truthy_field k j = (let v = json_get k j in if json_falsy v then None else v)"

record validity_acc =
  va_status :: "claim_proof_status option"
  va_failure :: string
  va_supplier :: string
  va_service :: string
  va_application :: string
  va_session_end :: int
  va_session_start :: int

definition validity_attribute :: "validity_acc \<Rightarrow> attribute \<Rightarrow> validity_acc res" where
  "validity_attribute acc = (\<lambda>(k, v).
     if k = ''claim_proof_status_int'' then
       bind_res (parse_json (parse_attribute v)) (\<lambda>j.
         map_res (\<lambda>s. acc\<lparr>va_status := s\<rparr>) (get_claim_proof_status_from_sdk (Some j)))
     else if k = ''failure_reason'' then Inr (acc\<lparr>va_failure := v\<rparr>)
     else if k = ''supplier_operator_address'' then Inr (acc\<lparr>va_supplier := v\<rparr>)
     else if k = ''service_id'' then Inr (acc\<lparr>va_service := v\<rparr>)
     else if k = ''application_address'' then Inr (acc\<lparr>va_application := v\<rparr>)
     else if k = ''session_end_block_height'' then
       map_res (\<lambda>h. acc\<lparr>va_session_end := h\<rparr>) (big_int (parse_attribute (if v = [] then ''0'' else v)))
     else if k = ''session_start_block_height'' then
       map_res (\<lambda>h. acc\<lparr>va_session_start := h\<rparr>) (big_int (parse_attribute (if v = [] then ''0'' else v)))
     else Inr acc)"

text \<open>
  Supplier, status, failure reason, ids and session heights of the event. The first case is the one
  without a session header: its attributes are read again, unparsed. \<open>None\<close> is a missing supplier.
\<close>

definition validity_parts ::
  "claim_attrs \<Rightarrow> attribute list \<Rightarrow>
   (string option \<times> claim_proof_status option \<times> string \<times>
    string option \<times> string option \<times> string option \<times> string option \<times> string option) res" where
  "validity_parts a as =
     (let claim = at_claim a; proof = at_proof a in
      case (truthy_field ''session_header'' proof, truthy_field ''session_header'' claim) of
        (None, None) \<Rightarrow>
          map_res (\<lambda>acc. (Some (va_supplier acc), va_status acc, va_failure acc, Some (va_application acc),
              Some (va_service acc), Some [], Some (show_int (va_session_start acc)), Some (show_int (va_session_end acc))))
            (foldM_res validity_attribute \<lparr>va_status = None, va_failure = [], va_supplier = [], va_service = [],
               va_application = [], va_session_end = 0, va_session_start = 0\<rparr> as)
      | (hp, hc) \<Rightarrow>
          (let header = (case hp of Some h \<Rightarrow> h | None \<Rightarrow> the hc);
               supplier = (case truthy_field ''supplier_operator_address'' proof of
                  Some (JStr s) \<Rightarrow> Some s | _ \<Rightarrow> json_get_str ''supplier_operator_address'' claim) in
           map_res (\<lambda>status. (supplier, status, text_or_empty (at_failure a),
               json_get_str ''application_address'' header, json_get_str ''service_id'' header,
               json_get_str ''session_id'' header,
               Option.bind (json_get ''session_start_block_height'' header) json_scalar_text,
               Option.bind (json_get ''session_end_block_height'' header) json_scalar_text))
             (case at_status a of Some s \<Rightarrow> Inr (Some s)
              | None \<Rightarrow> bind_res (claim_status_text claim) (\<lambda>t. get_claim_proof_status_from_sdk (Some (JStr t))))))"

text \<open>The answer of the handler is an entity or an empty array (\<open>None\<close>).\<close>

definition handle_event_proof_validity_checked_one :: "int \<Rightarrow> cosmos_event \<Rightarrow> validity_checked option res" where
  "handle_event_proof_validity_checked_one b ev =
     bind_res (get_attributes (attributes (event ev))) (\<lambda>a.
     bind_res (validity_parts a (attributes (event ev))) (\<lambda>(supplier0, status, reason, app, service, session, start, stop).
     bind_res (require_str ''[handleEventProofValidityChecked] supplier_operator_address not found in event''
         (text_or_empty supplier0)) (\<lambda>supplier.
       Inr (case (status, at_failure a) of
         (Some s, Some _) \<Rightarrow> Some \<lparr>vc_id = get_event_id ev, vc_block_id = b, vc_supplier = supplier,
            vc_application = app, vc_service = service, vc_session = session, vc_session_start = start,
            vc_session_end = stop, vc_status = s, vc_failure_reason = reason\<rparr>
       | _ \<Rightarrow> None))))"

subsection \<open>Validator rewards\<close>

definition validator_reward_attribute :: "validator_reward \<Rightarrow> attribute \<Rightarrow> validator_reward res" where
  "validator_reward_attribute acc = (\<lambda>(k, v). let p = parse_attribute v in
     if k = ''session_end_block_height'' then map_res (\<lambda>n. acc\<lparr>vr_session_end := n\<rparr>) (big_int p)
     else if k = ''op_reason'' then Inr (acc\<lparr>vr_reason := p\<rparr>)
     else if k = ''validator_operator_address'' then Inr (acc\<lparr>vr_operator := p\<rparr>)
     else if k = ''validator_account_address'' then Inr (acc\<lparr>vr_account := p\<rparr>)
     else if k = ''commission_rate'' then Inr (acc\<lparr>vr_commission_rate := p\<rparr>)
     else if k = ''pool_share_upokt'' then map_res (\<lambda>n. acc\<lparr>vr_pool_share := n\<rparr>) (big_int p)
     else if k = ''commission_upokt'' then map_res (\<lambda>n. acc\<lparr>vr_commission := n\<rparr>) (big_int p)
     else if k = ''self_delegation_reward_upokt'' then map_res (\<lambda>n. acc\<lparr>vr_self_delegation := n\<rparr>) (big_int p)
     else if k = ''delegators_reward_upokt'' then map_res (\<lambda>n. acc\<lparr>vr_delegators := n\<rparr>) (big_int p)
     else if k = ''total_delegated_stake_upokt'' then map_res (\<lambda>n. acc\<lparr>vr_total_delegated := n\<rparr>) (big_int p)
     else Inr acc)"

text \<open>
  The number of delegators is a double, the last attribute with the key; not a number is an error, but
  only after the addresses are checked.
\<close>

definition handle_event_validator_reward_distribution_one :: "cosmos_event \<Rightarrow> int \<Rightarrow> validator_reward res" where
  "handle_event_validator_reward_distribution_one ev b =
     bind_res (foldM_res validator_reward_attribute \<lparr>vr_id = get_event_id ev, vr_block_id = b, vr_session_end = 0,
         vr_reason = [], vr_operator = [], vr_account = [], vr_commission_rate = [], vr_pool_share = 0,
         vr_commission = 0, vr_self_delegation = 0, vr_delegators = 0, vr_total_delegated = 0,
         vr_num_delegators = 0\<rparr> (attributes (event ev))) (\<lambda>acc.
     bind_res (require_str (''[handleEventValidatorRewardDistribution] validator_operator_address not found in event '' @
         get_event_id ev) (vr_operator acc)) (\<lambda>_.
     bind_res (require_str (''[handleEventValidatorRewardDistribution] validator_account_address not found in event '' @
         get_event_id ev) (vr_account acc)) (\<lambda>_.
     map_res (\<lambda>n. acc\<lparr>vr_num_delegators := n, vr_reason := get_settlement_op_reason_from_sdk (JStr (vr_reason acc))\<rparr>)
       (require (''[handleEventValidatorRewardDistribution] num_delegators is not a number in event '' @ get_event_id ev)
         (case attr_last ''num_delegators'' (attributes (event ev)) of
            None \<Rightarrow> Some 0 | Some v \<Rightarrow> js_number (parse_attribute v))))))"

subsection \<open>Transfers of settlement batches\<close>

definition validator_reward_op_reasons :: "string list" where
  "validator_reward_op_reasons = [
     ''TLM_RELAY_BURN_EQUALS_MINT_VALIDATOR_REWARD_DISTRIBUTION'',
     ''TLM_RELAY_BURN_EQUALS_MINT_DELEGATOR_REWARD_DISTRIBUTION'',
     ''TLM_GLOBAL_MINT_VALIDATOR_REWARD_DISTRIBUTION'',
     ''TLM_GLOBAL_MINT_DELEGATOR_REWARD_DISTRIBUTION'']"

definition text_attribute :: "string \<Rightarrow> attribute list \<Rightarrow> string" where
  "text_attribute k as = text_or_empty (attr_last k as)"

definition settlement_batch_transfer :: "int \<Rightarrow> cosmos_event \<Rightarrow> transfer option res" where
  "settlement_batch_transfer b ev =
     (let as = attributes (event ev); reason = parse_attribute (text_attribute ''op_reason'' as) in
      if parse_attribute (text_attribute ''op_type'' as) \<noteq> ''mod_to_acct'' \<or>
         reason \<notin> set validator_reward_op_reasons then Inr None
      else bind_res (get_denom_and_amount (text_attribute ''total_amount'' as)) (\<lambda>c.
        map_res (\<lambda>n. Some \<lparr>mt_id = get_event_id ev, mt_claim_id = [], mt_block = b,
            mt_reason = get_settlement_op_reason_from_sdk (JStr reason),
            mt_recipient = parse_attribute (text_attribute ''recipient'' as), mt_amount = n, mt_denom = denom c\<rparr>)
          (big_int (amount c))))"

subsection \<open>Statements on the two transfer tables\<close>

definition bulk_insert_mod_to_acct_transfers :: "transfer list \<Rightarrow> transfer sql list" where
  "bulk_insert_mod_to_acct_transfers records = (case records of
     [] \<Rightarrow> [] | r # _ \<Rightarrow> raw_bulk_insert mt_block (mt_block r) records)"

definition bulk_insert_summarized_transfers :: "transfer_summary list \<Rightarrow> transfer_summary sql list" where
  "bulk_insert_summarized_transfers records = (case records of
     [] \<Rightarrow> [] | r # _ \<Rightarrow> raw_bulk_insert ts_block (ts_block r) records)"

definition run_transfers :: "transfer sql list \<Rightarrow> transfer list \<Rightarrow> transfer list" where
  "run_transfers = run_all (\<lambda>t. Some (mt_id t))"

definition run_summaries :: "transfer_summary sql list \<Rightarrow> transfer_summary list \<Rightarrow> transfer_summary list" where
  "run_summaries = run_all (\<lambda>s. Some (ts_id s))"

subsection \<open>Handlers\<close>

definition handle_msg_create_claim :: "int \<Rightarrow> cosmos_msg list \<Rightarrow> relay_db \<Rightarrow> relay_db res" where
  "handle_msg_create_claim b msgs st =
     bind_res (mapM_res (handle_msg_create_claim_one b) msgs) (\<lambda>ds.
       map_res (\<lambda>t. st\<lparr>create_claims := t\<rparr>) (bulk_rows cc_id (Some cc_block_id) b ByBlockId ds (create_claims st)))"

definition handle_msg_submit_proof :: "int \<Rightarrow> cosmos_msg list \<Rightarrow> relay_db \<Rightarrow> relay_db res" where
  "handle_msg_submit_proof b msgs st =
     bind_res (mapM_res (handle_msg_submit_proof_one b) msgs) (\<lambda>ds.
       map_res (\<lambda>t. st\<lparr>submit_proofs := t\<rparr>) (bulk_rows pr_id (Some pr_block_id) b ByBlockId ds (submit_proofs st)))"

definition handle_event_claim_expired :: "int \<Rightarrow> cosmos_event list \<Rightarrow> relay_db \<Rightarrow> relay_db res" where
  "handle_event_claim_expired b evs st =
     bind_res (mapM_res (handle_event_claim_expired_one b) evs) (\<lambda>ds.
       map_res (\<lambda>t. st\<lparr>claim_expireds := t\<rparr>) (bulk_rows ce_id (Some ce_block_id) b ByBlockId ds (claim_expireds st)))"

definition handle_event_claim_updated :: "int \<Rightarrow> cosmos_event list \<Rightarrow> relay_db \<Rightarrow> relay_db res" where
  "handle_event_claim_updated b evs st =
     bind_res (mapM_res (handle_event_claim_updated_one b) evs) (\<lambda>ds.
       map_res (\<lambda>t. st\<lparr>claim_updateds := t\<rparr>) (bulk_rows ce_id (Some ce_block_id) b ByBlockId ds (claim_updateds st)))"

definition handle_event_proof_updated :: "int \<Rightarrow> cosmos_event list \<Rightarrow> relay_db \<Rightarrow> relay_db res" where
  "handle_event_proof_updated b evs st =
     bind_res (mapM_res (handle_event_proof_updated_one b) evs) (\<lambda>ds.
       map_res (\<lambda>t. st\<lparr>proof_updateds := t\<rparr>) (bulk_rows ce_id (Some ce_block_id) b ByBlockId ds (proof_updateds st)))"

definition handle_event_application_overserviced :: "int \<Rightarrow> cosmos_event list \<Rightarrow> relay_db \<Rightarrow> relay_db res" where
  "handle_event_application_overserviced b evs st =
     bind_res (mapM_res (handle_event_application_overserviced_one b) evs) (\<lambda>ds.
       map_res (\<lambda>t. st\<lparr>overserviceds := t\<rparr>) (bulk_rows os_id (Some os_block_id) b ByBlockId ds (overserviceds st)))"

definition handle_event_application_reimbursement_request :: "int \<Rightarrow> cosmos_event list \<Rightarrow> relay_db \<Rightarrow> relay_db res" where
  "handle_event_application_reimbursement_request b evs st =
     bind_res (mapM_res (handle_event_application_reimbursement_request_one b) evs) (\<lambda>ds.
       map_res (\<lambda>t. st\<lparr>reimbursements := t\<rparr>) (bulk_rows re_id (Some re_block_id) b ByBlockId ds (reimbursements st)))"

text \<open>An empty array among the documents has no \<open>id\<close>, which the table requires.\<close>

definition handle_event_proof_validity_checked :: "int \<Rightarrow> cosmos_event list \<Rightarrow> relay_db \<Rightarrow> relay_db res" where
  "handle_event_proof_validity_checked b evs st =
     bind_res (mapM_res (handle_event_proof_validity_checked_one b) evs) (\<lambda>ds.
     bind_res (mapM_res (require ''null value in column id'') ds) (\<lambda>es.
       map_res (\<lambda>t. st\<lparr>validity_checks := t\<rparr>) (bulk_rows vc_id (Some vc_block_id) b ByBlockId es (validity_checks st))))"

definition handle_event_validator_reward_distribution :: "int \<Rightarrow> cosmos_event list \<Rightarrow> relay_db \<Rightarrow> relay_db res" where
  "handle_event_validator_reward_distribution b evs st =
     bind_res (mapM_res (\<lambda>ev. handle_event_validator_reward_distribution_one ev b) evs) (\<lambda>ds.
       map_res (\<lambda>t. st\<lparr>validator_rewards := t\<rparr>) (bulk_rows vr_id (Some vr_block_id) b ByBlockId ds (validator_rewards st)))"

text \<open>The effective burns of the overserviced applications; a later event of the pair wins.\<close>

definition effective_burn_entry :: "(string \<times> string) list \<Rightarrow> cosmos_event \<Rightarrow> (string \<times> string) list res" where
  "effective_burn_entry acc ev =
     (let as = attributes (event ev);
          app = parse_attribute (text_attribute ''application_addr'' as);
          supplier = parse_attribute (text_attribute ''supplier_operator_addr'' as) in
      bind_res (foldM_res (\<lambda>found (k, v). if k = ''effective_burn'' then map_res Some (get_denom_and_amount v) else Inr found)
          None as) (\<lambda>burn.
        Inr (case burn of
          Some c \<Rightarrow> if app \<noteq> [] \<and> supplier \<noteq> [] then dict_set (dash app supplier) (amount c) acc else acc
        | None \<Rightarrow> acc)))"

text \<open>
  The settled claims and their transfers; the mint ratio is the parameter's value, one before it existed.
\<close>

definition settle_claims ::
  "int \<Rightarrow> string option \<Rightarrow> cosmos_event list \<Rightarrow> cosmos_event list \<Rightarrow>
   (claim_settled list \<times> transfer list \<times> transfer_summary list) res" where
  "settle_claims b mint_ratio_param evs overservices =
     (let ratio = (case mint_ratio_param of None \<Rightarrow> Some 1 | Some v \<Rightarrow> parse_float v) in
      bind_res (foldM_res effective_burn_entry [] overservices) (\<lambda>burns.
        map_res (\<lambda>rs. (map fst rs, concat (map snd rs),
            summarize_transfers (concat (map snd rs))
              (map_of (rev (map (\<lambda>(s, _). (cs_id s, cs_service s)) rs)))))
          (mapM_res (handle_event_claim_settled_one b ratio burns) evs)))"

text \<open>The three writes of \<open>handleEventClaimSettled\<close> run in parallel, on three tables.\<close>

definition handle_event_claim_settled ::
  "int \<Rightarrow> string option \<Rightarrow> cosmos_event list \<Rightarrow> cosmos_event list \<Rightarrow> relay_db \<Rightarrow> relay_db res" where
  "handle_event_claim_settled b mint_ratio_param evs overservices st =
     bind_res (settle_claims b mint_ratio_param evs overservices) (\<lambda>(settled, ts, summaries).
       map_res (\<lambda>t. st\<lparr>claim_settleds := t,
           transfers := run_transfers (bulk_insert_mod_to_acct_transfers ts) (transfers st),
           transfer_summaries := run_summaries (bulk_insert_summarized_transfers summaries) (transfer_summaries st)\<rparr>)
         (bulk_rows cs_id (Some cs_block_id) b ByBlockId settled (claim_settleds st)))"

definition settlement_batch_transfers :: "int \<Rightarrow> cosmos_event list \<Rightarrow> transfer list res" where
  "settlement_batch_transfers b evs =
     map_res (List.map_filter (\<lambda>x. x)) (mapM_res (settlement_batch_transfer b) evs)"

definition handle_event_settlement_batch :: "int \<Rightarrow> cosmos_event list \<Rightarrow> relay_db \<Rightarrow> relay_db res" where
  "handle_event_settlement_batch b evs st =
     map_res (\<lambda>ts. st\<lparr>
         transfers := run_transfers (bulk_insert_mod_to_acct_transfers ts) (transfers st),
         transfer_summaries := run_summaries
           (bulk_insert_summarized_transfers (summarize_transfers ts (\<lambda>_. None))) (transfer_summaries st)\<rparr>)
       (settlement_batch_transfers b evs)"

subsection \<open>Two handlers on the transfer tables\<close>

lemma append_in_shuffles: "xs @ ys \<in> shuffles xs ys"
  by (induction xs) (auto intro: Cons_in_shuffles_leftI)

text \<open>Where the first statement of the second list falls in an interleaving.\<close>

lemma shuffles_cut:
  "zs \<in> shuffles xs (y # ys) \<Longrightarrow> \<exists>ps xs' qs. xs = ps @ xs' \<and> zs = ps @ y # qs \<and> qs \<in> shuffles xs' ys"
proof (induction xs arbitrary: zs)
  case Nil
  then show ?case by auto
next
  case (Cons x xs)
  then consider qs where "zs = x # qs" "qs \<in> shuffles xs (y # ys)" | qs where "zs = y # qs" "qs \<in> shuffles (x # xs) ys"
    by auto
  then show ?case
  proof cases
    case 1
    with Cons.IH obtain ps xs' rs where "xs = ps @ xs'" "qs = ps @ y # rs" "rs \<in> shuffles xs' ys" by blast
    with 1 show ?thesis by (intro exI [of _ "x # ps"] exI [of _ xs'] exI [of _ rs]) auto
  next
    case 2
    then show ?thesis by (intro exI [of _ "[]"] exI [of _ "x # xs"] exI [of _ qs]) auto
  qed
qed

lemma shuffles_map: "zs \<in> shuffles (map f xs) (map f ys) \<Longrightarrow> \<exists>ws \<in> shuffles xs ys. zs = map f ws"
proof (induction xs ys arbitrary: zs rule: shuffles.induct)
  case (3 x xs y ys)
  then consider qs where "zs = f x # qs" "qs \<in> shuffles (map f xs) (map f (y # ys))"
    | qs where "zs = f y # qs" "qs \<in> shuffles (map f (x # xs)) (map f ys)"
    by auto
  then show ?case
  proof cases
    case 1
    with 3(1) obtain ws where "ws \<in> shuffles xs (y # ys)" "qs = map f ws" by blast
    with 1(1) show ?thesis by (intro bexI [of _ "x # ws"]) auto
  next
    case 2
    with 3(2) obtain ws where "ws \<in> shuffles (x # xs) ys" "qs = map f ws" by blast
    with 2(1) show ?thesis by (intro bexI [of _ "y # ws"]) auto
  qed
qed auto

lemma mset_concat_shuffles:
  "rss \<in> shuffles xss yss \<Longrightarrow> mset (concat rss) = mset (concat xss) + mset (concat yss)"
proof -
  assume "rss \<in> shuffles xss yss"
  then have "mset rss = mset (xss @ yss)" by (simp add: mset_shuffles)
  then have "sum_mset (image_mset mset (mset rss)) = sum_mset (image_mset mset (mset (xss @ yss)))" by simp
  then show ?thesis by (simp add: mset_concat sum_mset_sum_list flip: mset_map)
qed

text \<open>Interleaved inserts of new rows add them all.\<close>

lemma run_shuffled_inserts:
  assumes "ss \<in> shuffles (map Insert xss) (map Insert yss)"
    and "distinct (map mt_id (t @ concat xss @ concat yss))"
  shows "set (run_transfers ss t) = set t \<union> set (concat xss) \<union> set (concat yss)"
proof -
  obtain rss where rss: "ss = map Insert rss" "rss \<in> shuffles xss yss"
    using shuffles_map [OF assms(1)] by blast
  have m: "mset (concat rss) = mset (concat xss @ concat yss)"
    using mset_concat_shuffles [OF rss(2)] by simp
  then have "mset (map mt_id (t @ concat rss)) = mset (map mt_id (t @ concat xss @ concat yss))" by simp
  then have d: "distinct (map mt_id (t @ concat rss))" using assms(2) mset_eq_imp_distinct_iff by blast
  have "foldl (insert_row (\<lambda>t. Some (mt_id t))) t (concat rss) = t @ concat rss"
  proof (rule insert_rows_fresh)
    show "distinct (filter (\<lambda>k. k \<noteq> None) (map (\<lambda>t. Some (mt_id t)) (concat rss)))"
      using d by (auto simp: distinct_map inj_on_def comp_def intro!: distinct_filter)
  qed (use d in force)
  then show ?thesis
    using mset_eq_setD [OF m] by (simp add: run_transfers_def rss(1) run_all_inserts Un_assoc)
qed

lemma run_inserts:
  assumes "distinct (map mt_id (t @ concat xss))"
  shows "run_transfers (map Insert xss) t = t @ concat xss"
proof -
  have "foldl (insert_row (\<lambda>t. Some (mt_id t))) t (concat xss) = t @ concat xss"
  proof (rule insert_rows_fresh)
    show "distinct (filter (\<lambda>k. k \<noteq> None) (map (\<lambda>t. Some (mt_id t)) (concat xss)))"
      using assms by (auto simp: distinct_map inj_on_def comp_def intro!: distinct_filter)
  qed (use assms in force)
  then show ?thesis by (simp add: run_transfers_def run_all_inserts)
qed

text \<open>After the first delete, the second one removes what was inserted between them, nothing else.\<close>

lemma run_after_delete:
  assumes "ss \<in> shuffles (map Insert xss) (Delete (\<lambda>r. mt_block r = b) # map Insert yss)"
    and "distinct (map mt_id (t @ concat xss @ concat yss))"
    and "list_all (\<lambda>r. mt_block r \<noteq> b) t" "\<forall>r \<in> set (concat xss). mt_block r = b"
  shows "\<exists>pss qss. xss = pss @ qss \<and> set (run_transfers ss t) = set t \<union> set (concat qss) \<union> set (concat yss)"
proof -
  obtain ps xs' qs where cut: "map Insert xss = ps @ xs'" "ss = ps @ Delete (\<lambda>r. mt_block r = b) # qs"
    "qs \<in> shuffles xs' (map Insert yss)"
    using shuffles_cut [OF assms(1)] by blast
  obtain pss qss where xss: "xss = pss @ qss" "ps = map Insert pss" "xs' = map Insert qss"
    using cut(1) by (auto simp: map_eq_append_conv)
  have "run_transfers ps t = t @ concat pss"
    unfolding xss(2) by (rule run_inserts) (use assms(2) in \<open>simp add: xss(1) Int_Un_distrib\<close>)
  moreover have "filter (\<lambda>r. mt_block r \<noteq> b) (t @ concat pss) = t"
    using assms(3,4) by (simp add: xss(1) filter_True filter_False list_all_iff)
  ultimately have "run_transfers ss t = run_transfers qs t"
    by (simp add: run_transfers_def cut(2))
  moreover have "set (run_transfers qs t) = set t \<union> set (concat qss) \<union> set (concat yss)"
    by (rule run_shuffled_inserts) (use cut(3) assms(2) in \<open>simp_all add: xss Int_Un_distrib Int_Un_distrib2\<close>)
  ultimately show ?thesis using xss(1) by auto
qed

lemma bulk_insert_transfers_eq:
  "rs \<noteq> [] \<Longrightarrow> \<forall>r \<in> set rs. mt_block r = b \<Longrightarrow>
     bulk_insert_mod_to_acct_transfers rs = Delete (\<lambda>r. mt_block r = b) # map Insert (slices batch_size rs)"
  by (cases rs) (simp_all add: bulk_insert_mod_to_acct_transfers_def raw_bulk_insert_def)

lemma concat_slices_batch [simp]: "concat (slices batch_size rs) = rs"
  by (simp add: concat_slices batch_size_def)

lemma run_one_side:
  assumes "ss \<in> shuffles (map Insert (slices batch_size rs)) (bulk_insert_mod_to_acct_transfers rs')"
    and "rs' \<noteq> []" "\<forall>r \<in> set rs \<union> set rs'. mt_block r = b" "list_all (\<lambda>r. mt_block r \<noteq> b) t"
    and "distinct (map mt_id (t @ rs @ rs'))"
  shows "set t \<union> set rs' \<subseteq> set (run_transfers ss t) \<and> set (run_transfers ss t) \<subseteq> set t \<union> set rs \<union> set rs'"
proof -
  have "ss \<in> shuffles (map Insert (slices batch_size rs))
      (Delete (\<lambda>r. mt_block r = b) # map Insert (slices batch_size rs'))"
    using assms(1-3) by (simp add: bulk_insert_transfers_eq [of rs' b])
  from run_after_delete [OF this, of t] assms(3-5)
  have "\<exists>pss qss. slices batch_size rs = pss @ qss \<and>
      set (run_transfers ss t) = set t \<union> set (concat qss) \<union> set (concat (slices batch_size rs'))"
    by (simp del: set_concat)
  then obtain pss qss where qss: "slices batch_size rs = pss @ qss"
    "set (run_transfers ss t) = set t \<union> set (concat qss) \<union> set rs'"
    unfolding concat_slices_batch by blast
  have "set (concat qss) \<subseteq> set rs"
    using arg_cong [OF qss(1), of "\<lambda>x. set (concat x)"] by auto
  with qss(2) show ?thesis by blast
qed

text \<open>Two calls started together: any interleaving, one that keeps both sides, one that loses the first.\<close>

lemma delete_nothing:
  "list_all (\<lambda>r. mt_block r \<noteq> b) t \<Longrightarrow> run_transfers (Delete (\<lambda>r. mt_block r = b) # ss) t = run_transfers ss t"
  by (simp add: run_transfers_def filter_True list_all_iff)

lemma run_both_sides:
  assumes "ss \<in> shuffles (bulk_insert_mod_to_acct_transfers rs) (bulk_insert_mod_to_acct_transfers rs')"
    and "rs \<noteq> []" "rs' \<noteq> []" "\<forall>r \<in> set rs \<union> set rs'. mt_block r = b" "list_all (\<lambda>r. mt_block r \<noteq> b) t"
    and "distinct (map mt_id (t @ rs @ rs'))"
  shows "set t \<subseteq> set (run_transfers ss t) \<and> set (run_transfers ss t) \<subseteq> set t \<union> set rs \<union> set rs' \<and>
    (set rs \<subseteq> set (run_transfers ss t) \<or> set rs' \<subseteq> set (run_transfers ss t))"
proof -
  let ?D = "Delete (\<lambda>r. mt_block r = b) :: transfer sql"
  let ?I = "\<lambda>rs. map Insert (slices batch_size rs) :: transfer sql list"
  have "bulk_insert_mod_to_acct_transfers rs = ?D # ?I rs" "bulk_insert_mod_to_acct_transfers rs' = ?D # ?I rs'"
    using assms(2-4) by (simp_all add: bulk_insert_transfers_eq [of _ b])
  then consider ss' where "ss = ?D # ss'" "ss' \<in> shuffles (?I rs) (bulk_insert_mod_to_acct_transfers rs')"
    | ss' where "ss = ?D # ss'" "ss' \<in> shuffles (?I rs') (bulk_insert_mod_to_acct_transfers rs)"
    using assms(1) by (auto simp: shuffles_commutes)
  then show ?thesis
  proof cases
    case 1
    from run_one_side [OF 1(2) assms(3-6)] show ?thesis unfolding 1(1) delete_nothing [OF assms(5)] by blast
  next
    case 2
    have "\<forall>r \<in> set rs' \<union> set rs. mt_block r = b" "distinct (map mt_id (t @ rs' @ rs))"
      using assms(4,6) by auto
    from run_one_side [OF 2(2) assms(2) this(1) assms(5) this(2)] show ?thesis
      unfolding 2(1) delete_nothing [OF assms(5)] by blast
  qed
qed

lemma run_deletes_first:
  assumes "list_all (\<lambda>r. mt_block r \<noteq> b) t" "distinct (map mt_id (t @ rs @ rs'))"
  defines "D \<equiv> Delete (\<lambda>r. mt_block r = b)" and "I \<equiv> \<lambda>rs. map Insert (slices batch_size rs)"
  shows "D # D # I rs @ I rs' \<in> shuffles (D # I rs) (D # I rs')"
    and "set (run_transfers (D # D # I rs @ I rs') t) = set t \<union> set rs \<union> set rs'"
proof -
  show "D # D # I rs @ I rs' \<in> shuffles (D # I rs) (D # I rs')"
    by (intro Cons_in_shuffles_leftI Cons_in_shuffles_rightI append_in_shuffles)
  show "set (run_transfers (D # D # I rs @ I rs') t) = set t \<union> set rs \<union> set rs'"
    unfolding D_def I_def delete_nothing [OF assms(1)]
    using run_shuffled_inserts [OF append_in_shuffles, of t "slices batch_size rs" "slices batch_size rs'"] assms(2)
    by simp
qed

lemma run_one_after_other:
  assumes "\<forall>r \<in> set rs \<union> set rs'. mt_block r = b" "list_all (\<lambda>r. mt_block r \<noteq> b) t" "distinct (map mt_id (t @ rs @ rs'))"
  defines "D \<equiv> Delete (\<lambda>r. mt_block r = b)" and "I \<equiv> \<lambda>rs. map Insert (slices batch_size rs)"
  shows "run_transfers ((D # I rs) @ D # I rs') t = t @ rs'"
proof -
  have "run_transfers (I rs) t = t @ rs"
    unfolding I_def using run_inserts [of t "slices batch_size rs"] assms(3) by (simp add: Int_Un_distrib)
  moreover have "filter (\<lambda>r. mt_block r \<noteq> b) (t @ rs) = t"
    using assms(1,2) by (simp add: filter_True filter_False list_all_iff)
  moreover have "run_transfers (I rs') t = t @ rs'"
    unfolding I_def using run_inserts [of t "slices batch_size rs'"] assms(3) by (simp add: Int_Un_distrib)
  ultimately show ?thesis
    using delete_nothing [OF assms(2)] by (simp add: run_transfers_def D_def)
qed

text \<open>
  C26: \<open>handleEventClaimSettled\<close> and \<open>handleEventSettlementBatch\<close> rewrite the same block of the same table
  in parallel. However their statements interleave, the rows of other blocks stay, no row but theirs
  is added and the transfers of one of the two are all kept; but only some interleavings keep both: in
  others all transfers of one of them are lost.
\<close>

theorem parallel_transfer_inserts:
  assumes "rs \<noteq> []" "rs' \<noteq> []" "\<forall>r \<in> set rs \<union> set rs'. mt_block r = b" "list_all (\<lambda>r. mt_block r \<noteq> b) t"
    and "distinct (map mt_id (t @ rs @ rs'))"
  shows "(\<forall>ss \<in> shuffles (bulk_insert_mod_to_acct_transfers rs) (bulk_insert_mod_to_acct_transfers rs').
      set t \<subseteq> set (run_transfers ss t) \<and> set (run_transfers ss t) \<subseteq> set t \<union> set rs \<union> set rs' \<and>
      (set rs \<subseteq> set (run_transfers ss t) \<or> set rs' \<subseteq> set (run_transfers ss t))) \<and>
    (\<exists>ss \<in> shuffles (bulk_insert_mod_to_acct_transfers rs) (bulk_insert_mod_to_acct_transfers rs').
      set (run_transfers ss t) = set t \<union> set rs \<union> set rs') \<and>
    (\<exists>ss \<in> shuffles (bulk_insert_mod_to_acct_transfers rs) (bulk_insert_mod_to_acct_transfers rs').
      set (run_transfers ss t) = set t \<union> set rs')"
proof -
  let ?D = "Delete (\<lambda>r. mt_block r = b) :: transfer sql"
  let ?I = "\<lambda>rs. map Insert (slices batch_size rs) :: transfer sql list"
  have A: "bulk_insert_mod_to_acct_transfers rs = ?D # ?I rs" "bulk_insert_mod_to_acct_transfers rs' = ?D # ?I rs'"
    using assms(1-3) by (simp_all add: bulk_insert_transfers_eq [of _ b])
  have "\<exists>ss \<in> shuffles (?D # ?I rs) (?D # ?I rs'). set (run_transfers ss t) = set t \<union> set rs \<union> set rs'"
    using run_deletes_first [OF assms(4,5)] by blast
  moreover have "\<exists>ss \<in> shuffles (?D # ?I rs) (?D # ?I rs'). set (run_transfers ss t) = set t \<union> set rs'"
    using run_one_after_other [OF assms(3-5)]
    by (intro bexI [of _ "(?D # ?I rs) @ ?D # ?I rs'", OF _ append_in_shuffles]) simp
  ultimately show ?thesis
    unfolding A [symmetric] using run_both_sides [OF _ assms] by blast
qed

theorem parallel_transfer_inserts_witness:
  "\<exists>ss \<in> shuffles (bulk_insert_mod_to_acct_transfers [transfer_example ''1'' ''a'' 5])
      (bulk_insert_mod_to_acct_transfers [transfer_example ''2'' ''b'' 4]).
     set (run_transfers ss []) = {transfer_example ''2'' ''b'' 4}"
  using parallel_transfer_inserts [of "[transfer_example ''1'' ''a'' 5]" "[transfer_example ''2'' ''b'' 4]" 7 "[]"]
  by (simp add: transfer_example_def)

end
