(* ===== verification/Suppliers.thy ===== *)
theory Suppliers
  imports Claims Migration Coins
begin

text \<open>
  The handlers of single messages and events in \<open>src/mappings/pocket/suppliers.ts\<close>. They work on
  records, read before the batch, of the suppliers it names: each holds the supplier, if it exists, and
  those of its services that were read, by their ids, in insertion order. \<open>host\<close> is
  \<open>new URL(url).hostname\<close> (\<open>None\<close> when the constructor throws); addresses are bech32 strings, so that
  no key of a record looks like an array index.
\<close>

subsection \<open>Data\<close>

datatype supplier_unbonding_reason = SupUnspecified | SupVoluntary | SupBelowMinStake | SupMigration

datatype claim_signer_type = SignerUnspecified | CustodialByNode | NonCustodialByNode | NonCustodialByOwner

record supplier =
  su_id :: string
  su_operator :: string
  su_owner :: string
  su_stake_amount :: int
  su_stake_denom :: string
  su_status :: stake_status
  su_unstaking_end_height :: "int option"
  su_unstaking_end_block :: "int option"
  su_unstaking_begin_block :: "int option"
  su_unstaking_reason :: "supplier_unbonding_reason option"

record service_config =
  sc_id :: string
  sc_service :: string
  sc_supplier :: string
  sc_endpoints :: "endpoint list"
  sc_rev_share :: "(string \<times> string) list"
  sc_domains :: "string list"
  sc_activated_at :: "int option"
  sc_activated_event :: "string option"

record supplier_record =
  sr_supplier :: "supplier option"
  sr_services :: "(string \<times> service_config) list"

type_synonym supplier_records = "(string \<times> supplier_record) list"

record msg_stake_supplier =
  mss_id :: string
  mss_signer :: string
  mss_supplier :: string
  mss_owner :: string
  mss_stake :: "int \<times> string"
  mss_block_id :: int
  mss_transaction_id :: string

record msg_claim_supplier =
  mcs_id :: string
  mcs_supplier :: string
  mcs_signing :: string
  mcs_owner :: string
  mcs_morse_public_key :: string
  mcs_morse_src :: string
  mcs_morse_signature :: string
  mcs_stake :: "int \<times> string"
  mcs_balance :: "int \<times> string"
  mcs_block_id :: int
  mcs_transaction_id :: string
  mcs_morse_node_address :: string
  mcs_signer_is_output :: bool
  mcs_signer_type :: "claim_signer_type option"

record msg_unstake_supplier =
  mus_id :: string
  mus_signer :: string
  mus_supplier :: string
  mus_block_id :: int
  mus_transaction_id :: string

record service_activated =
  sa_id :: string
  sa_block_id :: int

record supplier_unbonding =
  sub_id :: string
  sub_end_height :: int
  sub_session_end_height :: int
  sub_supplier :: string
  sub_block_id :: int
  sub_reason :: supplier_unbonding_reason

record supplier_slashed =
  sl_id :: string
  sl_supplier :: string
  sl_application :: "string option"
  sl_service :: "string option"
  sl_session :: string
  sl_session_end :: int
  sl_session_start :: int
  sl_block_id :: int
  sl_penalty :: int
  sl_penalty_denom :: string
  sl_previous_stake :: int
  sl_after_stake :: int
  sl_status :: "claim_proof_status option"

text \<open>\<open>record[address]?.supplier\<close> and \<open>record[address]?.services || {}\<close>.\<close>

definition rec_supplier :: "supplier_records \<Rightarrow> string \<Rightarrow> supplier option" where
  "rec_supplier rec i = Option.bind (map_of rec i) sr_supplier"

definition rec_services :: "supplier_records \<Rightarrow> string \<Rightarrow> (string \<times> service_config) list" where
  "rec_services rec i = (case map_of rec i of None \<Rightarrow> [] | Some r \<Rightarrow> sr_services r)"

subsection \<open>Enumerations\<close>

definition get_morse_supplier_claim_signer_type :: "string \<Rightarrow> claim_signer_type res" where
  "get_morse_supplier_claim_signer_type s =
     (if s = ''MORSE_SUPPLIER_CLAIM_SIGNER_TYPE_UNSPECIFIED'' then Inr SignerUnspecified
      else if s = ''MORSE_SUPPLIER_CLAIM_SIGNER_TYPE_CUSTODIAL_SIGNED_BY_NODE_ADDR'' then Inr CustodialByNode
      else if s = ''MORSE_SUPPLIER_CLAIM_SIGNER_TYPE_NON_CUSTODIAL_SIGNED_BY_NODE_ADDR'' then Inr NonCustodialByNode
      else if s = ''MORSE_SUPPLIER_CLAIM_SIGNER_TYPE_NON_CUSTODIAL_SIGNED_BY_OWNER'' then Inr NonCustodialByOwner
      else throw (''Unknown MorseSupplierClaimSignerType='' @ s))"

definition supplier_unbonding_reason_from_json :: "string \<Rightarrow> int" where
  "supplier_unbonding_reason_from_json s =
     (if s = ''SUPPLIER_UNBONDING_REASON_UNSPECIFIED'' then 0
      else if s = ''SUPPLIER_UNBONDING_REASON_VOLUNTARY'' then 1
      else if s = ''SUPPLIER_UNBONDING_REASON_BELOW_MIN_STAKE'' then 2
      else if s = ''SUPPLIER_UNBONDING_REASON_MIGRATION'' then 3 else - 1)"

definition get_supplier_unbonding_reason_from_sdk :: "int \<Rightarrow> supplier_unbonding_reason res" where
  "get_supplier_unbonding_reason_from_sdk n =
     (if n = 0 then Inr SupUnspecified else if n = 1 then Inr SupVoluntary
      else if n = 2 then Inr SupBelowMinStake else if n = 3 then Inr SupMigration
      else throw (''Unknown SupplierUnbondingReason='' @ show_int n))"

subsection \<open>Services of a stake or claim message\<close>

text \<open>\<open>/https?:\/\/([^/:]+)/\<close>: the host after the first scheme that has one.\<close>

fun match_url :: "string \<Rightarrow> string option" where
  "match_url [] = None"
| "match_url (c # s) =
     (let u = c # s;
          rest = (if take 7 u = ''http://'' then drop 7 u else if take 8 u = ''https://'' then drop 8 u else []);
          h = takeWhile (\<lambda>d. d \<noteq> CHR ''/'' \<and> d \<noteq> CHR '':'') rest in
      if h \<noteq> [] then Some h else match_url s)"

text \<open>The last two labels of a host name.\<close>

definition root_domain :: "string \<Rightarrow> string" where
  "root_domain h = (let parts = split_on (CHR ''.'') h in
     if 2 \<le> length parts then join (CHR ''.'') (drop (length parts - 2) parts) else h)"

definition endpoint_domain :: "(string \<Rightarrow> string option) \<Rightarrow> endpoint \<Rightarrow> string option" where
  "endpoint_domain host ep = (case host (url ep) of
     Some h \<Rightarrow> Some (root_domain h) | None \<Rightarrow> map_option root_domain (match_url (url ep)))"

definition service_config_of :: "(string \<Rightarrow> string option) \<Rightarrow> string \<Rightarrow> raw_service \<Rightarrow> service_config" where
  "service_config_of host operator rs =
     \<lparr>sc_id = get_stake_service_id operator (rsv_service_id rs), sc_service = rsv_service_id rs,
      sc_supplier = operator, sc_endpoints = rsv_endpoints rs,
      sc_rev_share = map (\<lambda>r. (rs_address r, show_int (rs_percentage r))) (rsv_rev_share rs),
      sc_domains = js_set (List.map_filter (endpoint_domain host) (rsv_endpoints rs)),
      sc_activated_at = None, sc_activated_event = None\<rparr>"

text \<open>The services to remove are the existing ids that are not among the names of the message.\<close>

definition get_services ::
  "(string \<Rightarrow> string option) \<Rightarrow> raw_service list \<Rightarrow> string \<Rightarrow> string list \<Rightarrow> string list \<times> service_config list" where
  "get_services host raw operator existing =
     (filter (\<lambda>i. i \<notin> set (map rsv_service_id raw)) existing, map (service_config_of host operator) raw)"

subsection \<open>Messages\<close>

definition staked_supplier :: "string \<Rightarrow> string \<Rightarrow> int \<Rightarrow> string \<Rightarrow> supplier" where
  "staked_supplier operator owner amt den =
     \<lparr>su_id = operator, su_operator = operator, su_owner = owner, su_stake_amount = amt, su_stake_denom = den,
      su_status = Staked, su_unstaking_end_height = None, su_unstaking_end_block = None,
      su_unstaking_begin_block = None, su_unstaking_reason = None\<rparr>"

definition claim_signer_attr :: "event_body list \<Rightarrow> string option" where
  "claim_signer_attr evs = map_option strip_quotes (attr_last ''claim_signer_type''
     (concat (map attributes (filter (\<lambda>e. ev_type e = ''pocket.migration.EventMorseSupplierClaimed'') evs))))"

definition handle_claim_supplier_one ::
  "crypto \<Rightarrow> (string \<Rightarrow> string option) \<Rightarrow> int \<Rightarrow> cosmos_msg \<Rightarrow> supplier_records \<Rightarrow>
   (supplier \<times> msg_claim_supplier \<times> service_config list \<times> string list) res" where
  "handle_claim_supplier_one c host b msg rec = (case decoded msg of
     ClaimMorseSupplier operator owner signing node key signature is_output raw \<Rightarrow>
       (let evs = tx_events (msg_tx msg) in
        bind_res (event_coins ''pocket.migration.EventMorseSupplierClaimed''
            [''claimed_balance'', ''claimed_supplier_stake''] evs) (\<lambda>coins.
        bind_res (require ''[handleMsgClaimMorseSupplier] stake coin not found in event''
            (map_of coins ''claimed_supplier_stake'')) (\<lambda>stk.
        bind_res (require ''[handleMsgClaimMorseSupplier] balance coin not found in event''
            (map_of coins ''claimed_balance'')) (\<lambda>bal.
        bind_res (big_int (amount stk)) (\<lambda>stake_amount.
        bind_res (big_int (amount bal)) (\<lambda>balance_amount.
        bind_res (morse_address c key) (\<lambda>src.
        bind_res (case claim_signer_attr evs of None \<Rightarrow> Inr None | Some [] \<Rightarrow> Inr None
            | Some t \<Rightarrow> map_res Some (get_morse_supplier_claim_signer_type t)) (\<lambda>signer_type.
          let (to_remove, svcs) = get_services host raw operator (map fst (rec_services rec operator));
              previous = (case rec_supplier rec operator of None \<Rightarrow> 0 | Some s \<Rightarrow> su_stake_amount s) in
          Inr (staked_supplier operator owner (stake_amount + previous) (denom stk),
               \<lparr>mcs_id = message_id msg, mcs_supplier = operator, mcs_signing = signing, mcs_owner = owner,
                mcs_morse_public_key = c_to_hex c key, mcs_morse_src = src,
                mcs_morse_signature = c_to_hex c signature, mcs_stake = (stake_amount, denom stk),
                mcs_balance = (balance_amount, denom bal), mcs_block_id = b,
                mcs_transaction_id = tx_hash (msg_tx msg), mcs_morse_node_address = node,
                mcs_signer_is_output = is_output, mcs_signer_type = signer_type\<rparr>,
               svcs, to_remove)))))))))
   | _ \<Rightarrow> throw ''unexpected message'')"

text \<open>A stake message without stake keeps the stake of the supplier, which must exist.\<close>

definition handle_supplier_stake_msg_one ::
  "(string \<Rightarrow> string option) \<Rightarrow> int \<Rightarrow> cosmos_msg \<Rightarrow> supplier_records \<Rightarrow>
   (supplier \<times> msg_stake_supplier \<times> service_config list \<times> string list) res" where
  "handle_supplier_stake_msg_one host b msg rec = (case decoded msg of
     StakeSupplier operator owner signer stk raw \<Rightarrow>
       bind_res (case stk of
           Some c \<Rightarrow> map_res (\<lambda>n. (n, denom c)) (big_int (amount c))
         | None \<Rightarrow> map_res (\<lambda>s. (su_stake_amount s, su_stake_denom s))
             (require (''[handleSupplierStakeMsg] previous supplier not found for operator address '' @ operator)
               (rec_supplier rec operator))) (\<lambda>(amt, den).
         let (to_remove, svcs) = get_services host raw operator (map fst (rec_services rec operator)) in
         Inr (staked_supplier operator owner amt den,
              \<lparr>mss_id = message_id msg, mss_signer = signer, mss_supplier = operator, mss_owner = owner,
               mss_stake = (amt, den), mss_block_id = b, mss_transaction_id = tx_hash (msg_tx msg)\<rparr>,
              svcs, to_remove))
   | _ \<Rightarrow> throw ''unexpected message'')"

definition handle_unstake_supplier_msg_one ::
  "int \<Rightarrow> cosmos_msg \<Rightarrow> supplier_records \<Rightarrow> (supplier \<times> msg_unstake_supplier) res" where
  "handle_unstake_supplier_msg_one b msg rec = (case decoded msg of
     UnstakeSupplier operator signer \<Rightarrow>
       map_res (\<lambda>s. (s\<lparr>su_status := Unstaking, su_unstaking_begin_block := Some b\<rparr>,
           \<lparr>mus_id = message_id msg, mus_signer = signer, mus_supplier = operator, mus_block_id = b,
            mus_transaction_id = tx_hash (msg_tx msg)\<rparr>))
         (require (''[handleUnstakeSupplierMsg] supplier not found for operator address '' @ operator)
           (rec_supplier rec operator))
   | _ \<Rightarrow> throw ''unexpected message'')"

subsection \<open>Events\<close>

text \<open>\<open>JSON.parse(value).key\<close>: \<open>null\<close> has no properties.\<close>

definition json_text_member :: "string \<Rightarrow> string \<Rightarrow> string option res" where
  "json_text_member k v =
     bind_res (parse_json v) (\<lambda>j. map_res (json_get_str k) (claim_object j))"

record activation_attrs =
  aa_height :: "int option"
  aa_operator :: "string option"

definition activation_attribute :: "activation_attrs \<Rightarrow> attribute \<Rightarrow> activation_attrs res" where
  "activation_attribute acc = (\<lambda>(k, v).
     if k = ''activation_height'' then map_res (\<lambda>h. acc\<lparr>aa_height := Some h\<rparr>) (big_int (strip_quotes v))
     else if k = ''supplier'' then map_res (\<lambda>a. acc\<lparr>aa_operator := a\<rparr>) (json_text_member ''operator_address'' v)
     else if k = ''operator_address'' then Inr (acc\<lparr>aa_operator := Some (strip_quotes v)\<rparr>)
     else Inr acc)"

text \<open>
  The source declares a \<open>serviceId\<close> and never assigns it: every service of the operator that is not
  active yet (absent or zero height) is activated.
\<close>

definition not_activated :: "service_config \<Rightarrow> bool" where
  "not_activated s \<longleftrightarrow> (case sc_activated_at s of None \<Rightarrow> True | Some h \<Rightarrow> h = 0)"

definition handle_event_supplier_service_config_activated_one ::
  "int \<Rightarrow> cosmos_event \<Rightarrow> supplier_records \<Rightarrow> (service_config list \<times> service_activated) res" where
  "handle_event_supplier_service_config_activated_one b ev rec =
     bind_res (foldM_res activation_attribute \<lparr>aa_height = None, aa_operator = None\<rparr> (attributes (event ev))) (\<lambda>acc.
     bind_res (require ''[handleEventSupplierServiceConfigActivated] activation_height not found in event''
         (case aa_height acc of Some h \<Rightarrow> if h = 0 then None else Some h | None \<Rightarrow> None)) (\<lambda>h.
     bind_res (require_str ''[handleEventSupplierServiceConfigActivated] operatorAddress not found in event''
         (text_or_empty (aa_operator acc))) (\<lambda>operator.
       Inr (map (\<lambda>s. s\<lparr>sc_activated_at := Some h, sc_activated_event := Some (get_event_id ev)\<rparr>)
              (filter not_activated (map snd (rec_services rec operator))),
            \<lparr>sa_id = get_event_id ev, sa_block_id = b\<rparr>))))"

record supplier_unbonding_attrs =
  sx_end :: "int option"
  sx_session :: "int option"
  sx_operator :: "string option"
  sx_reason :: "int option"

definition supplier_unbonding_attribute ::
  "supplier_unbonding_attrs \<Rightarrow> attribute \<Rightarrow> supplier_unbonding_attrs res" where
  "supplier_unbonding_attribute acc = (\<lambda>(k, v).
     if k = ''supplier'' then map_res (\<lambda>a. acc\<lparr>sx_operator := a\<rparr>) (json_text_member ''operator_address'' v)
     else if k = ''unbonding_end_height'' then map_res (\<lambda>h. acc\<lparr>sx_end := Some h\<rparr>) (big_int (strip_quotes v))
     else if k = ''session_end_height'' then map_res (\<lambda>h. acc\<lparr>sx_session := Some h\<rparr>) (big_int (strip_quotes v))
     else if k = ''reason'' then Inr (acc\<lparr>sx_reason := Some (supplier_unbonding_reason_from_json (strip_quotes v))\<rparr>)
     else if k = ''operator_address'' then Inr (acc\<lparr>sx_operator := Some (strip_quotes v)\<rparr>)
     else Inr acc)"

definition read_supplier_unbonding :: "attribute list \<Rightarrow> supplier_unbonding_attrs res" where
  "read_supplier_unbonding as = foldM_res supplier_unbonding_attribute
     \<lparr>sx_end = None, sx_session = None, sx_operator = None, sx_reason = None\<rparr> as"

text \<open>\<open>height || BigInt(0)\<close>, \<open>reason && {...}\<close> and \<open>reason !== null ? ... : UNSPECIFIED\<close>.\<close>

definition or_zero :: "int option \<Rightarrow> int" where
  "or_zero h = (case h of None \<Rightarrow> 0 | Some n \<Rightarrow> n)"

definition with_reason :: "int option \<Rightarrow> supplier \<Rightarrow> supplier res" where
  "with_reason reason s = (if or_zero reason = 0 then Inr s
     else map_res (\<lambda>r. s\<lparr>su_unstaking_reason := Some r\<rparr>) (get_supplier_unbonding_reason_from_sdk (or_zero reason)))"

definition stored_reason :: "int option \<Rightarrow> supplier_unbonding_reason res" where
  "stored_reason reason = (case reason of None \<Rightarrow> Inr SupUnspecified
     | Some n \<Rightarrow> get_supplier_unbonding_reason_from_sdk n)"

definition unbonding_row ::
  "int \<Rightarrow> cosmos_event \<Rightarrow> string \<Rightarrow> supplier_unbonding_attrs \<Rightarrow> supplier_unbonding res" where
  "unbonding_row b ev operator acc =
     map_res (\<lambda>r. \<lparr>sub_id = get_event_id ev, sub_end_height = or_zero (sx_end acc),
         sub_session_end_height = or_zero (sx_session acc), sub_supplier = operator, sub_block_id = b,
         sub_reason = r\<rparr>) (stored_reason (sx_reason acc))"

definition handle_supplier_unbonding_begin_event_one ::
  "int \<Rightarrow> cosmos_event \<Rightarrow> supplier_records \<Rightarrow> (supplier \<times> supplier_unbonding) res" where
  "handle_supplier_unbonding_begin_event_one b ev rec =
     bind_res (read_supplier_unbonding (attributes (event ev))) (\<lambda>acc.
     bind_res (require_str ''[handleSupplierUnbondingBeginEvent] operatorAddress not provided in event''
         (text_or_empty (sx_operator acc))) (\<lambda>operator.
     bind_res (require (''[handleSupplierUnbondingBeginEvent] supplier not found for operator address '' @ operator)
         (rec_supplier rec operator)) (\<lambda>s.
     bind_res (with_reason (sx_reason acc)
         (if or_zero (sx_end acc) = 0 then s else s\<lparr>su_unstaking_end_height := sx_end acc\<rparr>)) (\<lambda>s'.
       map_res (Pair s') (unbonding_row b ev operator acc)))))"

definition handle_supplier_unbonding_end_event_one ::
  "int \<Rightarrow> cosmos_event \<Rightarrow> supplier_records \<Rightarrow> (supplier \<times> string list \<times> supplier_unbonding) res" where
  "handle_supplier_unbonding_end_event_one b ev rec =
     bind_res (read_supplier_unbonding (attributes (event ev))) (\<lambda>acc.
     bind_res (require_str ''[handleSupplierUnbondingEndEvent] operatorAddress not provided in event''
         (text_or_empty (sx_operator acc))) (\<lambda>operator.
     bind_res (require (''[handleSupplierUnbondingEndEvent] supplier not found for operator address '' @ operator)
         (rec_supplier rec operator)) (\<lambda>s.
     let s0 = s\<lparr>su_status := Unstaked, su_stake_amount := 0\<rparr> in
     bind_res (with_reason (sx_reason acc)
         (if or_zero (sx_end acc) = 0 then s0 else s0\<lparr>su_unstaking_end_block := sx_end acc\<rparr>)) (\<lambda>s'.
       map_res (\<lambda>row. (s', map fst (rec_services rec operator), row)) (unbonding_row b ev operator acc)))))"

subsection \<open>Slashing\<close>

record slash_values =
  sv_penalty :: "coin option"
  sv_operator :: "string option"
  sv_status :: "claim_proof_status option"
  sv_application :: "string option"
  sv_service :: "string option"
  sv_session :: string
  sv_session_start :: int
  sv_session_end :: int
  sv_stake_after :: "coin option"

text \<open>Older events: the coins of the missing proof are only checked to be there.\<close>

definition old_slash_attribute :: "coin option \<times> string \<Rightarrow> attribute \<Rightarrow> (coin option \<times> string) res" where
  "old_slash_attribute = (\<lambda>(coin, operator) (k, v).
     if k = ''slashing_amount'' then map_res (\<lambda>c. (Some c, operator)) (get_denom_and_amount v)
     else if k = ''proof_missing_penalty'' then
       bind_res (parse_coins (parse_attribute v)) (\<lambda>coins.
         if coins = [] then throw ''[handleEventSupplierSlashed] event attribute is not a valid coin''
         else Inr (coin, operator))
     else if k = ''supplier_operator_addr'' \<or> k = ''supplier_operator_address'' then Inr (coin, parse_attribute v)
     else Inr (coin, operator))"

definition get_values_old_event_supplier_slashed :: "cosmos_event \<Rightarrow> slash_values res" where
  "get_values_old_event_supplier_slashed ev =
     map_res (\<lambda>(coin, operator). \<lparr>sv_penalty = coin, sv_operator = Some operator, sv_status = None,
         sv_application = Some [], sv_service = Some [], sv_session = [], sv_session_start = 0, sv_session_end = 0,
         sv_stake_after = None\<rparr>)
       (foldM_res old_slash_attribute (None, []) (attributes (event ev)))"

definition get_values_event_supplier_slashed :: "cosmos_event \<Rightarrow> slash_values res" where
  "get_values_event_supplier_slashed ev =
     bind_res (get_attributes (attributes (event ev))) (\<lambda>a. let claim = at_claim a in
       if json_falsy (Some claim) \<or> json_falsy (json_get ''session_header'' claim)
       then get_values_old_event_supplier_slashed ev
       else
         bind_res (header_height ''session_start_block_height'' claim) (\<lambda>start.
         bind_res (header_height ''session_end_block_height'' claim) (\<lambda>stop.
         bind_res (get_claim_proof_status_from_sdk (json_get ''proof_validation_status'' claim)) (\<lambda>status.
           Inr \<lparr>sv_penalty = at_penalty a, sv_operator = json_get_str ''supplier_operator_address'' claim,
                sv_status = status,
                sv_application = Option.bind (json_get ''session_header'' claim) (json_get_str ''application_address''),
                sv_service = Option.bind (json_get ''session_header'' claim) (json_get_str ''service_id''),
                sv_session = header_field ''session_id'' claim, sv_session_start = start, sv_session_end = stop,
                sv_stake_after = at_stake_after_slash a\<rparr>))))"

text \<open>The stake after the slash: the chain's, else the tracked stake less the penalty.\<close>

definition handle_event_supplier_slashed_one ::
  "int \<Rightarrow> cosmos_event \<Rightarrow> supplier_records \<Rightarrow> (supplier \<times> supplier_slashed) res" where
  "handle_event_supplier_slashed_one b ev rec =
     bind_res (get_values_event_supplier_slashed ev) (\<lambda>v.
     bind_res (require_str ''[handleEventSupplierSlashed] operatorAddress not found in event''
         (text_or_empty (sv_operator v))) (\<lambda>operator.
     bind_res (require ''[handleEventSupplierSlashed] proofMissingPenalty not found in event'' (sv_penalty v)) (\<lambda>pen.
     bind_res (require (''[handleEventSupplierSlashed] supplier not found for address: '' @ operator)
         (rec_supplier rec operator)) (\<lambda>s.
     bind_res (big_int (amount pen)) (\<lambda>penalty.
     bind_res (case sv_stake_after v of Some c \<Rightarrow> big_int (amount c)
         | None \<Rightarrow> Inr (su_stake_amount s - penalty)) (\<lambda>after.
       let previous = (case sv_stake_after v of Some _ \<Rightarrow> after + penalty | None \<Rightarrow> su_stake_amount s) in
       Inr (s\<lparr>su_stake_amount := after\<rparr>,
            \<lparr>sl_id = get_event_id ev, sl_supplier = operator, sl_application = sv_application v,
             sl_service = sv_service v, sl_session = sv_session v, sl_session_end = sv_session_end v,
             sl_session_start = sv_session_start v, sl_block_id = b, sl_penalty = penalty,
             sl_penalty_denom = denom pen, sl_previous_stake = previous, sl_after_stake = after,
             sl_status = sv_status v\<rparr>)))))))"

end
