(* ===== verification/SupplierIndex.thy ===== *)
theory SupplierIndex
  imports Suppliers Primitives Store "HOL-Library.Product_Lexorder" "HOL-Library.Multiset"
begin

text \<open>
  The indexing of a block's supplier messages and events, \<open>indexSupplier\<close> of
  \<open>src/mappings/pocket/suppliers.ts\<close>: they are put in the order of the chain, the suppliers and services
  they name are read into records, the handlers of \<open>Suppliers\<close> change the records one after the other,
  and the records are written back: the rows of the block are deleted, the read rows are closed and the
  suppliers and services of the records are inserted. The table of Morse claimable accounts is shared
  with the other claims.
\<close>

record supplier_db =
  suppliers :: "supplier hrow list"
  supplier_services :: "service_config hrow list"
  msg_stake_suppliers :: "msg_stake_supplier hrow list"
  msg_claim_suppliers :: "msg_claim_supplier hrow list"
  msg_unstake_suppliers :: "msg_unstake_supplier hrow list"
  service_activations :: "service_activated hrow list"
  supplier_slashings :: "supplier_slashed hrow list"
  supplier_unbonding_begins :: "supplier_unbonding hrow list"
  supplier_unbonding_ends :: "supplier_unbonding hrow list"
  supplier_claimables :: "morse_claimable hrow list"

definition fetch_all_supplier_by_status :: "int \<Rightarrow> stake_status \<Rightarrow> supplier_db \<Rightarrow> supplier list" where
  "fetch_all_supplier_by_status b s st = fetch_all b (\<lambda>x. su_status x = s) (suppliers st)"

definition fetch_all_supplier_service_config_by_supplier :: "int \<Rightarrow> string \<Rightarrow> supplier_db \<Rightarrow> service_config list" where
  "fetch_all_supplier_service_config_by_supplier b i st = fetch_all b (\<lambda>x. sc_supplier x = i) (supplier_services st)"

definition fetch_all_supplier_by_unstaking_end_block_id :: "int \<Rightarrow> int \<Rightarrow> supplier_db \<Rightarrow> supplier list" where
  "fetch_all_supplier_by_unstaking_end_block_id b n st =
     fetch_all b (\<lambda>x. su_unstaking_end_block x = Some n) (suppliers st)"

subsection \<open>The order of events and messages\<close>

definition datum_event :: "datum \<Rightarrow> cosmos_event option" where
  "datum_event d = (case d of Ev e \<Rightarrow> Some e | Ms _ \<Rightarrow> None)"

definition datum_msg :: "datum \<Rightarrow> cosmos_msg option" where
  "datum_msg d = (case d of Ev _ \<Rightarrow> None | Ms m \<Rightarrow> Some m)"

text \<open>
  \<open>['tx.idx', 'rank', 'idx']\<close>: messages come before events of the same transaction, and \<open>orderBy\<close> puts
  an \<open>undefined\<close> transaction after every number.
\<close>

definition datum_key :: "datum \<Rightarrow> (nat \<times> nat) \<times> nat \<times> nat" where
  "datum_key d = (case d of
     Ms m \<Rightarrow> ((0, tx_idx (msg_tx m)), 0, msg_idx m)
   | Ev e \<Rightarrow> ((case event_tx e of None \<Rightarrow> (1, 0) | Some t \<Rightarrow> (0, tx_idx t)), 1, event_idx e))"

definition is_finalized :: "datum \<Rightarrow> bool" where
  "is_finalized d \<longleftrightarrow> (case d of Ev e \<Rightarrow> is_event_of_finalized_block_kind e | Ms _ \<Rightarrow> False)"

definition datum_idx :: "datum \<Rightarrow> nat" where
  "datum_idx d = (case d of Ev e \<Rightarrow> event_idx e | Ms m \<Rightarrow> msg_idx m)"

definition successful_data :: "datum list \<Rightarrow> datum list" where
  "successful_data ds =
     map Ev (fst (filter_events_by_tx_status (List.map_filter datum_event ds))) @
     map Ms (fst (filter_msg_by_tx_status (List.map_filter datum_msg ds)))"

definition sort_events_and_msgs :: "datum list \<Rightarrow> datum list" where
  "sort_events_and_msgs ds =
     sort_key datum_key (filter (\<lambda>d. \<not> is_finalized d) (successful_data ds)) @
     sort_key datum_idx (filter is_finalized (successful_data ds))"

subsection \<open>The suppliers of the data\<close>

text \<open>The first attribute that names the supplier counts; a value that is not a text names none.\<close>

fun event_get_id :: "attribute list \<Rightarrow> string option res" where
  "event_get_id [] = Inr None"
| "event_get_id ((k, v) # as) =
     (if k = ''supplier'' then json_text_member ''operator_address'' v
      else if k = ''operator_address'' then Inr (Some (strip_quotes v))
      else event_get_id as)"

fun slashing_get_id :: "attribute list \<Rightarrow> string option res" where
  "slashing_get_id [] = Inr None"
| "slashing_get_id ((k, v) # as) =
     (if k = ''supplier_operator_addr'' \<or> k = ''supplier_operator_address'' then Inr (Some (strip_quotes v))
      else if k = ''claim'' then json_text_member ''supplier_operator_address'' v
      else slashing_get_id as)"

definition unbonding_types :: "string list" where
  "unbonding_types = [''pocket.supplier.EventSupplierUnbondingBegin'', ''pocket.supplier.EventSupplierUnbondingEnd'']"

definition activated_type :: string where
  "activated_type = ''pocket.supplier.EventSupplierServiceConfigActivated''"

definition slashed_type :: string where
  "slashed_type = ''pocket.tokenomics.EventSupplierSlashed''"

definition get_supplier_event_id :: "event_body \<Rightarrow> string option res" where
  "get_supplier_event_id e =
     (if ev_type e \<in> set (activated_type # unbonding_types) then event_get_id (attributes e)
      else if ev_type e = slashed_type then slashing_get_id (attributes e)
      else throw ''TypeError: getEntityId is not a function'')"

text \<open>The operator of the messages of suppliers.\<close>

definition msg_supplier :: "cosmos_msg \<Rightarrow> string option" where
  "msg_supplier m =
     (if type_url m = ''/pocket.supplier.MsgUnstakeSupplier'' \<or> type_url m = ''/pocket.supplier.MsgStakeSupplier'' then
        (case decoded m of StakeSupplier operator _ _ _ _ \<Rightarrow> Some operator
         | UnstakeSupplier operator _ \<Rightarrow> Some operator | _ \<Rightarrow> None)
      else if type_url m = ''/pocket.migration.MsgClaimMorseSupplier'' then
        (case decoded m of ClaimMorseSupplier operator _ _ _ _ _ _ _ \<Rightarrow> Some operator | _ \<Rightarrow> None)
      else None)"

definition list_of_option :: "'a option \<Rightarrow> 'a list" where
  "list_of_option x = (case x of None \<Rightarrow> [] | Some a \<Rightarrow> [a])"

text \<open>The suppliers to read, and those whose services are read.\<close>

definition collect_one :: "datum \<Rightarrow> (string list \<times> string list) res" where
  "collect_one d = (case d of
     Ev e \<Rightarrow> map_res (\<lambda>i.
         (if ev_type (event e) \<in> set (slashed_type # unbonding_types) then list_of_option i else [],
          if ev_type (event e) = activated_type then list_of_option i else []))
       (get_supplier_event_id (event e))
   | Ms m \<Rightarrow> Inr (list_of_option (msg_supplier m),
       if type_url m \<noteq> ''/pocket.supplier.MsgUnstakeSupplier'' then list_of_option (msg_supplier m) else []))"

definition collect_supplier_ids :: "datum list \<Rightarrow> (string list \<times> string list) res" where
  "collect_supplier_ids ds =
     map_res (\<lambda>rs. (concat (map fst rs), concat (map snd rs))) (mapM_res collect_one ds)"

definition fetched_suppliers :: "int \<Rightarrow> string list \<Rightarrow> supplier_db \<Rightarrow> supplier list" where
  "fetched_suppliers b ids st = fetch_all b (\<lambda>s. su_id s \<in> set (js_set ids)) (suppliers st)"

definition fetched_services :: "int \<Rightarrow> string list \<Rightarrow> supplier_db \<Rightarrow> service_config list" where
  "fetched_services b ids st = fetch_all b (\<lambda>s. sc_supplier s \<in> set (js_set ids)) (supplier_services st)"

definition add_service :: "supplier_records \<Rightarrow> service_config \<Rightarrow> supplier_records" where
  "add_service rec s = dict_set (sc_supplier s)
     \<lparr>sr_supplier = rec_supplier rec (sc_supplier s),
      sr_services = dict_set (sc_id s) s (rec_services rec (sc_supplier s))\<rparr> rec"

definition fetch_supplier_data :: "int \<Rightarrow> string list \<Rightarrow> string list \<Rightarrow> supplier_db \<Rightarrow> supplier_records" where
  "fetch_supplier_data b ids service_ids st =
     foldl add_service
       (foldl (\<lambda>rec s. dict_set (su_id s) \<lparr>sr_supplier = Some s, sr_services = []\<rparr> rec) [] (fetched_suppliers b ids st))
       (fetched_services b service_ids st)"

subsection \<open>Processing\<close>

record supplier_run =
  run_records :: supplier_records
  run_services_to_close :: "string list"
  run_stakes :: "msg_stake_supplier list"
  run_claims :: "msg_claim_supplier list"
  run_unstakes :: "msg_unstake_supplier list"
  run_activations :: "service_activated list"
  run_slashings :: "supplier_slashed list"
  run_begins :: "supplier_unbonding list"
  run_ends :: "supplier_unbonding list"

text \<open>\<open>record[supplier.id].supplier = supplier\<close>: a record that is not there is a TypeError.\<close>

definition set_supplier :: "supplier \<Rightarrow> supplier_records \<Rightarrow> supplier_records res" where
  "set_supplier s rec = map_res (\<lambda>r. dict_set (su_id s) (r\<lparr>sr_supplier := Some s\<rparr>) rec)
     (require ''TypeError: record is undefined'' (map_of rec (su_id s)))"

text \<open>A staked supplier gets a record when it has none.\<close>

definition put_supplier :: "supplier \<Rightarrow> supplier_records \<Rightarrow> supplier_records" where
  "put_supplier s rec = dict_set (su_id s) \<lparr>sr_supplier = Some s, sr_services = rec_services rec (su_id s)\<rparr> rec"

definition update_services ::
  "string \<Rightarrow> ((string \<times> service_config) list \<Rightarrow> (string \<times> service_config) list) \<Rightarrow>
   supplier_records \<Rightarrow> supplier_records res" where
  "update_services i f rec = map_res (\<lambda>r. dict_set i (r\<lparr>sr_services := f (sr_services r)\<rparr>) rec)
     (require ''TypeError: record is undefined'' (map_of rec i))"

definition delete_services :: "string list \<Rightarrow> (string \<times> service_config) list \<Rightarrow> (string \<times> service_config) list" where
  "delete_services ids d = foldl (\<lambda>d i. dict_del i d) d ids"

definition put_services :: "service_config list \<Rightarrow> (string \<times> service_config) list \<Rightarrow> (string \<times> service_config) list" where
  "put_services svcs d = foldl (\<lambda>d s. dict_set (sc_id s) s d) d svcs"

text \<open>The supplier, services and closed services of a stake or claim message.\<close>

definition apply_stake :: "supplier \<Rightarrow> service_config list \<Rightarrow> string list \<Rightarrow> supplier_run \<Rightarrow> supplier_run res" where
  "apply_stake s svcs to_remove r =
     map_res (\<lambda>rec. r\<lparr>run_records := rec,
         run_services_to_close := run_services_to_close r @ to_remove @ map sc_id svcs\<rparr>)
       (update_services (su_id s) (put_services svcs \<circ> delete_services to_remove) (put_supplier s (run_records r)))"

definition process_event :: "int \<Rightarrow> cosmos_event \<Rightarrow> supplier_run \<Rightarrow> supplier_run res" where
  "process_event b ev r =
     (let ty = ev_type (event ev); rec = run_records r in
      if ty = activated_type then
        bind_res (handle_event_supplier_service_config_activated_one b ev rec) (\<lambda>(svcs, row).
        bind_res (event_get_id (attributes (event ev))) (\<lambda>operator.
        bind_res (if svcs = [] then Inr rec
            else update_services (text_or_empty operator) (put_services svcs) rec) (\<lambda>rec'.
          Inr (r\<lparr>run_records := rec', run_services_to_close := run_services_to_close r @ map sc_id svcs,
            run_activations := run_activations r @ [row]\<rparr>))))
      else if ty = slashed_type then
        bind_res (handle_event_supplier_slashed_one b ev rec) (\<lambda>(s, row).
          map_res (\<lambda>rec'. r\<lparr>run_records := rec', run_slashings := run_slashings r @ [row]\<rparr>) (set_supplier s rec))
      else if ty = ''pocket.supplier.EventSupplierUnbondingBegin'' then
        bind_res (handle_supplier_unbonding_begin_event_one b ev rec) (\<lambda>(s, row).
          map_res (\<lambda>rec'. r\<lparr>run_records := rec', run_begins := run_begins r @ [row]\<rparr>) (set_supplier s rec))
      else if ty = ''pocket.supplier.EventSupplierUnbondingEnd'' then
        bind_res (handle_supplier_unbonding_end_event_one b ev rec) (\<lambda>(s, gone, row).
        bind_res (update_services (su_id s) (delete_services gone) rec) (\<lambda>rec'.
          map_res (\<lambda>rec''. r\<lparr>run_records := rec'', run_services_to_close := run_services_to_close r @ gone,
              run_ends := run_ends r @ [row]\<rparr>) (set_supplier s rec')))
      else Inr r)"

definition process_msg ::
  "crypto \<Rightarrow> (string \<Rightarrow> string option) \<Rightarrow> int \<Rightarrow> cosmos_msg \<Rightarrow> supplier_run \<Rightarrow> supplier_run res" where
  "process_msg c host b m r =
     (let rec = run_records r in
      if type_url m = ''/pocket.supplier.MsgStakeSupplier'' then
        bind_res (handle_supplier_stake_msg_one host b m rec) (\<lambda>(s, row, svcs, to_remove).
          apply_stake s svcs to_remove (r\<lparr>run_stakes := run_stakes r @ [row]\<rparr>))
      else if type_url m = ''/pocket.migration.MsgClaimMorseSupplier'' then
        bind_res (handle_claim_supplier_one c host b m rec) (\<lambda>(s, row, svcs, to_remove).
          apply_stake s svcs to_remove (r\<lparr>run_claims := run_claims r @ [row]\<rparr>))
      else if type_url m = ''/pocket.supplier.MsgUnstakeSupplier'' then
        bind_res (handle_unstake_supplier_msg_one b m rec) (\<lambda>(s, row).
          map_res (\<lambda>rec'. r\<lparr>run_records := rec', run_unstakes := run_unstakes r @ [row]\<rparr>) (set_supplier s rec))
      else Inr r)"

definition process_datum ::
  "crypto \<Rightarrow> (string \<Rightarrow> string option) \<Rightarrow> int \<Rightarrow> supplier_run \<Rightarrow> datum \<Rightarrow> supplier_run res" where
  "process_datum c host b r d = (case d of Ev e \<Rightarrow> process_event b e r | Ms m \<Rightarrow> process_msg c host b m r)"

definition start_run :: "supplier_records \<Rightarrow> supplier_run" where
  "start_run rec = \<lparr>run_records = rec, run_services_to_close = [], run_stakes = [], run_claims = [],
     run_unstakes = [], run_activations = [], run_slashings = [], run_begins = [], run_ends = []\<rparr>"

definition suppliers_to_close :: "supplier_records \<Rightarrow> string list" where
  "suppliers_to_close rec = filter (\<lambda>i. rec_supplier rec i \<noteq> None) (map fst rec)"

definition process_supplier_events_and_messages ::
  "crypto \<Rightarrow> (string \<Rightarrow> string option) \<Rightarrow> int \<Rightarrow> datum list \<Rightarrow> supplier_records \<Rightarrow> supplier_run res" where
  "process_supplier_events_and_messages c host b ds rec = foldM_res (process_datum c host b) (start_run rec) ds"

definition build_supplier_save_lists :: "supplier_records \<Rightarrow> supplier list \<times> service_config list" where
  "build_supplier_save_lists rec =
     (List.map_filter (sr_supplier \<circ> snd) rec, concat (map (map snd \<circ> sr_services \<circ> snd) rec))"

subsection \<open>Database operations\<close>

text \<open>
  Delete the rows of the block when there is something to save, close the rows of the ids, insert.
\<close>

definition rewrite_rows :: "('e \<Rightarrow> string) \<Rightarrow> int \<Rightarrow> 'e list \<Rightarrow> string list \<Rightarrow> 'e hrow list \<Rightarrow> 'e hrow list res" where
  "rewrite_rows ident b to_save to_close t =
     (let t1 = (if to_save = [] then t else run_sql (\<lambda>_. None) (Delete (\<lambda>r. lower r = b)) t);
          t2 = (if to_close = [] then t1
            else run_sql (\<lambda>_. None) (Update (\<lambda>r. row_id r \<in> set to_close \<and> in_range b r) (close_row b)) t1) in
      bulk_rows ident None b Omit to_save t2)"

definition morse_claim_item :: "msg_claim_supplier \<Rightarrow> claim_item" where
  "morse_claim_item m = \<lparr>ci_public_key = [], ci_morse_address = Some (mcs_morse_src m), ci_destination = mcs_owner m,
     ci_transaction_hash = mcs_transaction_id m, ci_claimed_msg_id = mcs_id m\<rparr>"

definition perform_supplier_database_operations ::
  "crypto \<Rightarrow> int \<Rightarrow> supplier list \<times> service_config list \<Rightarrow> string list \<Rightarrow> supplier_run \<Rightarrow> supplier_db \<Rightarrow> supplier_db res" where
  "perform_supplier_database_operations c b = (\<lambda>(to_save, services_to_save) to_close r st.
     bind_res (rewrite_rows su_id b to_save to_close (suppliers st)) (\<lambda>sups.
     bind_res (rewrite_rows sc_id b services_to_save (run_services_to_close r) (supplier_services st)) (\<lambda>svcs.
     bind_res (rewrite_rows mss_id b (run_stakes r) [] (msg_stake_suppliers st)) (\<lambda>stakes.
     bind_res (rewrite_rows mcs_id b (run_claims r) [] (msg_claim_suppliers st)) (\<lambda>claims.
     bind_res (rewrite_rows mus_id b (run_unstakes r) [] (msg_unstake_suppliers st)) (\<lambda>unstakes.
     bind_res (rewrite_rows sa_id b (run_activations r) [] (service_activations st)) (\<lambda>activations.
     bind_res (rewrite_rows sl_id b (run_slashings r) [] (supplier_slashings st)) (\<lambda>slashings.
     bind_res (rewrite_rows sub_id b (run_begins r) [] (supplier_unbonding_begins st)) (\<lambda>begins.
     bind_res (rewrite_rows sub_id b (run_ends r) [] (supplier_unbonding_ends st)) (\<lambda>ends.
     bind_res (update_morse_claimable_accounts c b (map morse_claim_item (run_claims r))) (\<lambda>ss.
       Inr \<lparr>suppliers = sups, supplier_services = svcs, msg_stake_suppliers = stakes,
            msg_claim_suppliers = claims, msg_unstake_suppliers = unstakes, service_activations = activations,
            supplier_slashings = slashings, supplier_unbonding_begins = begins, supplier_unbonding_ends = ends,
            supplier_claimables = run_all (\<lambda>_. None) ss (supplier_claimables st)\<rparr>)))))))))))"

definition supplier_msg_types :: "string list" where
  "supplier_msg_types = [''/pocket.supplier.MsgUnstakeSupplier'', ''/pocket.migration.MsgClaimMorseSupplier'',
     ''/pocket.supplier.MsgStakeSupplier'']"

definition supplier_event_types :: "string list" where
  "supplier_event_types = unbonding_types @ [activated_type, slashed_type]"

definition supplier_data :: "(string \<Rightarrow> cosmos_msg list) \<Rightarrow> (string \<Rightarrow> cosmos_event list) \<Rightarrow> datum list" where
  "supplier_data msg_by_type event_by_type =
     sort_events_and_msgs (map Ms (concat (map msg_by_type supplier_msg_types)) @
       map Ev (concat (map event_by_type supplier_event_types)))"

definition index_supplier ::
  "crypto \<Rightarrow> (string \<Rightarrow> string option) \<Rightarrow> int \<Rightarrow> (string \<Rightarrow> cosmos_msg list) \<Rightarrow> (string \<Rightarrow> cosmos_event list) \<Rightarrow>
   supplier_db \<Rightarrow> supplier_db res" where
  "index_supplier c host b msg_by_type event_by_type st =
     (let ds = supplier_data msg_by_type event_by_type in
      bind_res (collect_supplier_ids ds) (\<lambda>(ids, service_ids).
      let rec = fetch_supplier_data b ids service_ids st in
      bind_res (process_supplier_events_and_messages c host b ds rec) (\<lambda>r.
        perform_supplier_database_operations c b (build_supplier_save_lists (run_records r)) (suppliers_to_close rec) r st)))"

end
