(* ===== verification/SupplierSpec.thy ===== *)
theory SupplierSpec
  imports SupplierIndex
begin

text \<open>
  What a block's data do to the current suppliers, stated without records, save lists and SQL: each
  datum changes the map from ids to suppliers (\<open>supplier_effect\<close>), in the order of the chain. The
  indexing refines it: the current rows after \<open>indexSupplier\<close> are the map after all changes.
\<close>

subsection \<open>The abstract changes\<close>

definition stake_of :: "supplier option \<Rightarrow> int" where
  "stake_of x = (case x of None \<Rightarrow> 0 | Some s \<Rightarrow> su_stake_amount s)"

text \<open>The stake a slashed supplier is left with: the chain's when the event has it.\<close>

definition slashed_stake :: "slash_values \<Rightarrow> int \<Rightarrow> int \<Rightarrow> int res" where
  "slashed_stake v stake penalty =
     (case sv_stake_after v of Some c \<Rightarrow> big_int (amount c) | None \<Rightarrow> Inr (stake - penalty))"

definition unbonding_height :: "(int option \<Rightarrow> supplier \<Rightarrow> supplier) \<Rightarrow> supplier_unbonding_attrs \<Rightarrow> supplier \<Rightarrow> supplier" where
  "unbonding_height f acc s = (if or_zero (sx_end acc) = 0 then s else f (sx_end acc) s)"

inductive supplier_effect :: "int \<Rightarrow> datum \<Rightarrow> supplier tbl \<Rightarrow> supplier tbl \<Rightarrow> bool" for b where
  staked: "type_url m = ''/pocket.supplier.MsgStakeSupplier'' \<Longrightarrow>
    decoded m = StakeSupplier operator owner signer (Some coin) raw \<Longrightarrow> big_int (amount coin) = Inr n \<Longrightarrow>
    supplier_effect b (Ms m) t (t(operator \<mapsto> staked_supplier operator owner n (denom coin)))"
| restaked: "type_url m = ''/pocket.supplier.MsgStakeSupplier'' \<Longrightarrow>
    decoded m = StakeSupplier operator owner signer None raw \<Longrightarrow> t operator = Some s \<Longrightarrow>
    supplier_effect b (Ms m) t (t(operator \<mapsto> staked_supplier operator owner (su_stake_amount s) (su_stake_denom s)))"
| claimed: "type_url m = ''/pocket.migration.MsgClaimMorseSupplier'' \<Longrightarrow>
    decoded m = ClaimMorseSupplier operator owner signing node key signature is_output raw \<Longrightarrow>
    event_coins ''pocket.migration.EventMorseSupplierClaimed'' [''claimed_balance'', ''claimed_supplier_stake'']
      (tx_events (msg_tx m)) = Inr coins \<Longrightarrow>
    map_of coins ''claimed_supplier_stake'' = Some coin \<Longrightarrow> big_int (amount coin) = Inr n \<Longrightarrow>
    supplier_effect b (Ms m) t (t(operator \<mapsto> staked_supplier operator owner (n + stake_of (t operator)) (denom coin)))"
| unstaked: "type_url m = ''/pocket.supplier.MsgUnstakeSupplier'' \<Longrightarrow>
    decoded m = UnstakeSupplier operator signer \<Longrightarrow> t operator = Some s \<Longrightarrow>
    supplier_effect b (Ms m) t (t(operator \<mapsto> s\<lparr>su_status := Unstaking, su_unstaking_begin_block := Some b\<rparr>))"
| other_msg: "type_url m \<notin> set supplier_msg_types \<Longrightarrow> supplier_effect b (Ms m) t t"
| slashed: "ev_type (event e) = slashed_type \<Longrightarrow> get_values_event_supplier_slashed e = Inr v \<Longrightarrow>
    sv_operator v = Some operator \<Longrightarrow> sv_penalty v = Some pen \<Longrightarrow> big_int (amount pen) = Inr p \<Longrightarrow>
    t operator = Some s \<Longrightarrow> slashed_stake v (su_stake_amount s) p = Inr n \<Longrightarrow>
    supplier_effect b (Ev e) t (t(operator \<mapsto> s\<lparr>su_stake_amount := n\<rparr>))"
| unbonding_begin: "ev_type (event e) = ''pocket.supplier.EventSupplierUnbondingBegin'' \<Longrightarrow>
    read_supplier_unbonding (attributes (event e)) = Inr acc \<Longrightarrow> sx_operator acc = Some operator \<Longrightarrow>
    t operator = Some s \<Longrightarrow>
    with_reason (sx_reason acc) (unbonding_height (\<lambda>h s. s\<lparr>su_unstaking_end_height := h\<rparr>) acc s) = Inr s' \<Longrightarrow>
    supplier_effect b (Ev e) t (t(operator \<mapsto> s'))"
| unbonding_end: "ev_type (event e) = ''pocket.supplier.EventSupplierUnbondingEnd'' \<Longrightarrow>
    read_supplier_unbonding (attributes (event e)) = Inr acc \<Longrightarrow> sx_operator acc = Some operator \<Longrightarrow>
    t operator = Some s \<Longrightarrow>
    with_reason (sx_reason acc) (unbonding_height (\<lambda>h s. s\<lparr>su_unstaking_end_block := h\<rparr>) acc
      (s\<lparr>su_status := Unstaked, su_stake_amount := 0\<rparr>)) = Inr s' \<Longrightarrow>
    supplier_effect b (Ev e) t (t(operator \<mapsto> s'))"
| other_event: "ev_type (event e) \<notin> set (slashed_type # unbonding_types) \<Longrightarrow> supplier_effect b (Ev e) t t"

primrec supplier_effects :: "int \<Rightarrow> datum list \<Rightarrow> supplier tbl \<Rightarrow> supplier tbl \<Rightarrow> bool" where
  "supplier_effects b [] t t' \<longleftrightarrow> t' = t"
| "supplier_effects b (d # ds) t t' \<longleftrightarrow> (\<exists>u. supplier_effect b d t u \<and> supplier_effects b ds u t')"

subsection \<open>Records\<close>

lemma rec_supplier_set [simp]:
  "rec_supplier (dict_set i r rec) j = (if j = i then sr_supplier r else rec_supplier rec j)"
  by (simp add: rec_supplier_def)

text \<open>Records are keyed by the ids of their suppliers, which were all named in the batch.\<close>

definition records_ok :: "string list \<Rightarrow> supplier_records \<Rightarrow> bool" where
  "records_ok ids rec \<longleftrightarrow> dict_ok rec \<and> (\<forall>i s. rec_supplier rec i = Some s \<longrightarrow> su_id s = i \<and> i \<in> set ids)"

lemma records_ok_id: "records_ok ids rec \<Longrightarrow> rec_supplier rec i = Some s \<Longrightarrow> su_id s = i"
  and records_ok_mem: "records_ok ids rec \<Longrightarrow> rec_supplier rec i = Some s \<Longrightarrow> i \<in> set ids"
  by (auto simp: records_ok_def)

definition current_suppliers :: "string list \<Rightarrow> supplier tbl \<Rightarrow> supplier_records \<Rightarrow> supplier tbl" where
  "current_suppliers ids base rec i = (if i \<in> set ids then rec_supplier rec i else base i)"

lemma current_suppliers_rec:
  "records_ok ids rec \<Longrightarrow> rec_supplier rec i = Some s \<Longrightarrow> current_suppliers ids base rec i = Some s"
  using records_ok_mem by (fastforce simp: current_suppliers_def)

lemma set_supplier_ok:
  assumes "records_ok ids rec" and "rec_supplier rec i = Some s" and "su_id s' = i" and "set_supplier s' rec = Inr rec'"
  shows "records_ok ids rec'" "current_suppliers ids base rec' = (current_suppliers ids base rec)(i \<mapsto> s')"
  using assms by (auto simp: set_supplier_def records_ok_def current_suppliers_def res_eq_Inr fun_eq_iff
      split: if_splits)

lemma update_services_ok:
  assumes "records_ok ids rec" and "update_services i f rec = Inr rec'"
  shows "records_ok ids rec'" "current_suppliers ids base rec' = current_suppliers ids base rec"
    "rec_supplier rec' = rec_supplier rec"
proof -
  obtain r where r: "map_of rec i = Some r" "rec' = dict_set i (r\<lparr>sr_services := f (sr_services r)\<rparr>) rec"
    using assms(2) by (auto simp: update_services_def res_eq_Inr)
  show same: "rec_supplier rec' = rec_supplier rec"
    using r(1) by (auto simp: r(2) fun_eq_iff rec_supplier_def)
  show "records_ok ids rec'" using assms(1) same r(2) by (simp add: records_ok_def)
  show "current_suppliers ids base rec' = current_suppliers ids base rec"
    using same by (simp add: current_suppliers_def fun_eq_iff)
qed

lemma put_supplier_ok:
  assumes "records_ok ids rec" and "su_id s \<in> set ids"
  shows "records_ok ids (put_supplier s rec)"
    "current_suppliers ids base (put_supplier s rec) = (current_suppliers ids base rec)(su_id s \<mapsto> s)"
  using assms by (auto simp: put_supplier_def records_ok_def current_suppliers_def fun_eq_iff)

lemma apply_stake_ok:
  assumes "apply_stake s svcs gone r = Inr r'" and "records_ok ids (run_records r)" and "su_id s \<in> set ids"
  shows "records_ok ids (run_records r')"
    "current_suppliers ids base (run_records r') = (current_suppliers ids base (run_records r))(su_id s \<mapsto> s)"
  using assms put_supplier_ok [OF assms(2,3)] update_services_ok [OF put_supplier_ok(1) [OF assms(2,3)]]
  by (auto simp: apply_stake_def map_res_eq_Inr)

subsection \<open>The changes of the handlers\<close>

lemma with_reason_id: "with_reason x s = Inr s' \<Longrightarrow> su_id s' = su_id s"
  by (auto simp: with_reason_def res_eq_Inr split: if_splits)

lemma unbonding_begin_step:
  assumes "handle_supplier_unbonding_begin_event_one b e rec = Inr (s', row)" and "records_ok ids rec"
    and "ev_type (event e) = ''pocket.supplier.EventSupplierUnbondingBegin''" and "set_supplier s' rec = Inr rec'"
  shows "records_ok ids rec'" "supplier_effect b (Ev e) (current_suppliers ids base rec) (current_suppliers ids base rec')"
proof -
  obtain acc operator s where h: "read_supplier_unbonding (attributes (event e)) = Inr acc"
    "text_or_empty (sx_operator acc) = operator" "operator \<noteq> []" "rec_supplier rec operator = Some s"
    "with_reason (sx_reason acc) (unbonding_height (\<lambda>h s. s\<lparr>su_unstaking_end_height := h\<rparr>) acc s) = Inr s'"
    using assms(1) by (auto simp: handle_supplier_unbonding_begin_event_one_def res_eq_Inr unbonding_height_def)
  have op: "sx_operator acc = Some operator" using h(2,3) by (auto simp: text_or_empty_def split: option.splits)
  have "su_id s' = operator"
    using with_reason_id [OF h(5)] records_ok_id [OF assms(2) h(4)] by (simp add: unbonding_height_def split: if_splits)
  note set = set_supplier_ok [OF assms(2) h(4) this assms(4)]
  show "records_ok ids rec'" by (rule set(1))
  show "supplier_effect b (Ev e) (current_suppliers ids base rec) (current_suppliers ids base rec')"
    unfolding set(2) using assms(3) h(1) op current_suppliers_rec [OF assms(2) h(4)] h(5)
    by (rule supplier_effect.unbonding_begin)
qed

lemma unbonding_end_step:
  assumes "handle_supplier_unbonding_end_event_one b e rec = Inr (s', gone, row)" and "records_ok ids rec"
    and "ev_type (event e) = ''pocket.supplier.EventSupplierUnbondingEnd''"
    and "update_services (su_id s') f rec = Inr rec1" and "set_supplier s' rec1 = Inr rec'"
  shows "records_ok ids rec'" "supplier_effect b (Ev e) (current_suppliers ids base rec) (current_suppliers ids base rec')"
proof -
  obtain acc operator s where h: "read_supplier_unbonding (attributes (event e)) = Inr acc"
    "text_or_empty (sx_operator acc) = operator" "operator \<noteq> []" "rec_supplier rec operator = Some s"
    "with_reason (sx_reason acc) (unbonding_height (\<lambda>h s. s\<lparr>su_unstaking_end_block := h\<rparr>) acc
      (s\<lparr>su_status := Unstaked, su_stake_amount := 0\<rparr>)) = Inr s'"
    using assms(1) by (auto simp: handle_supplier_unbonding_end_event_one_def res_eq_Inr unbonding_height_def Let_def)
  have op: "sx_operator acc = Some operator" using h(2,3) by (auto simp: text_or_empty_def split: option.splits)
  have id: "su_id s' = operator"
    using with_reason_id [OF h(5)] records_ok_id [OF assms(2) h(4)] by (simp add: unbonding_height_def split: if_splits)
  note upd = update_services_ok [OF assms(2,4)]
  have "rec_supplier rec1 operator = Some s" using upd(3) h(4) by simp
  note set = set_supplier_ok [OF upd(1) this id assms(5)]
  show "records_ok ids rec'" by (rule set(1))
  show "supplier_effect b (Ev e) (current_suppliers ids base rec) (current_suppliers ids base rec')"
    unfolding set(2) upd(2) using assms(3) h(1) op current_suppliers_rec [OF assms(2) h(4)] h(5)
    by (rule supplier_effect.unbonding_end)
qed

lemma slashed_step:
  assumes "handle_event_supplier_slashed_one b e rec = Inr (s', row)" and "records_ok ids rec"
    and "ev_type (event e) = slashed_type" and "set_supplier s' rec = Inr rec'"
  shows "records_ok ids rec'" "supplier_effect b (Ev e) (current_suppliers ids base rec) (current_suppliers ids base rec')"
proof -
  obtain v operator pen s p n where h: "get_values_event_supplier_slashed e = Inr v"
    "text_or_empty (sv_operator v) = operator" "operator \<noteq> []" "sv_penalty v = Some pen"
    "rec_supplier rec operator = Some s" "big_int (amount pen) = Inr p"
    "slashed_stake v (su_stake_amount s) p = Inr n" "s' = s\<lparr>su_stake_amount := n\<rparr>"
    using assms(1) unfolding handle_event_supplier_slashed_one_def slashed_stake_def [symmetric]
    by (auto simp: res_eq_Inr Let_def)
  have op: "sv_operator v = Some operator" using h(2,3) by (auto simp: text_or_empty_def split: option.splits)
  have "su_id s' = operator" using records_ok_id [OF assms(2) h(5)] h(8) by simp
  note set = set_supplier_ok [OF assms(2) h(5) this assms(4)]
  show "records_ok ids rec'" by (rule set(1))
  show "supplier_effect b (Ev e) (current_suppliers ids base rec) (current_suppliers ids base rec')"
    unfolding set(2) h(8) using assms(3) h(1) op h(4,6) current_suppliers_rec [OF assms(2) h(5)] h(7)
    by (rule supplier_effect.slashed)
qed

lemma process_event_step:
  assumes "process_event b e r = Inr r'" and "records_ok ids (run_records r)"
  shows "records_ok ids (run_records r') \<and> supplier_effect b (Ev e)
    (current_suppliers ids base (run_records r)) (current_suppliers ids base (run_records r'))"
proof -
  let ?ty = "ev_type (event e)"
  consider "?ty = activated_type" | "?ty = slashed_type" | "?ty = ''pocket.supplier.EventSupplierUnbondingBegin''"
    | "?ty = ''pocket.supplier.EventSupplierUnbondingEnd''"
    | "?ty \<noteq> activated_type" "?ty \<notin> set (slashed_type # unbonding_types)"
    by (auto simp: unbonding_types_def)
  then show ?thesis
  proof cases
    case 1
    then have "run_records r' = run_records r \<or>
        (\<exists>i f. update_services i f (run_records r) = Inr (run_records r'))"
      using assms(1) by (auto simp: process_event_def Let_def res_eq_Inr split: if_splits)
    then have "records_ok ids (run_records r') \<and>
        current_suppliers ids base (run_records r') = current_suppliers ids base (run_records r)"
      using update_services_ok(1,2) [OF assms(2)] assms(2) by auto
    then show ?thesis
      using 1 by (auto intro!: supplier_effect.other_event simp: activated_type_def slashed_type_def unbonding_types_def)
  next
    case 2
    then obtain s row where h: "handle_event_supplier_slashed_one b e (run_records r) = Inr (s, row)"
        "set_supplier s (run_records r) = Inr (run_records r')"
      using assms(1) by (auto simp: process_event_def Let_def res_eq_Inr activated_type_def slashed_type_def)
    then show ?thesis using slashed_step [OF h(1) assms(2) 2 h(2)] by blast
  next
    case 3
    then obtain s row where h: "handle_supplier_unbonding_begin_event_one b e (run_records r) = Inr (s, row)"
        "set_supplier s (run_records r) = Inr (run_records r')"
      using assms(1) by (auto simp: process_event_def Let_def res_eq_Inr activated_type_def slashed_type_def)
    then show ?thesis using unbonding_begin_step [OF h(1) assms(2) 3 h(2)] by blast
  next
    case 4
    then obtain s gone row rec1 where
        h: "handle_supplier_unbonding_end_event_one b e (run_records r) = Inr (s, gone, row)"
        "update_services (su_id s) (delete_services gone) (run_records r) = Inr rec1"
        "set_supplier s rec1 = Inr (run_records r')"
      using assms(1) by (auto simp: process_event_def Let_def res_eq_Inr activated_type_def slashed_type_def)
    then show ?thesis using unbonding_end_step [OF h(1) assms(2) 4 h(2,3)] by blast
  next
    case 5
    then have "r' = r"
      using assms(1) by (auto simp: process_event_def Let_def unbonding_types_def)
    then show ?thesis using assms(2) 5(2) supplier_effect.other_event by simp
  qed
qed

lemma stake_msg_result:
  assumes "handle_supplier_stake_msg_one host b m rec = Inr (s, row, svcs, gone)"
  obtains operator owner signer coin raw n where
      "decoded m = StakeSupplier operator owner signer (Some coin) raw" "big_int (amount coin) = Inr n"
      "s = staked_supplier operator owner n (denom coin)"
    | operator owner signer raw s0 where
      "decoded m = StakeSupplier operator owner signer None raw" "rec_supplier rec operator = Some s0"
      "s = staked_supplier operator owner (su_stake_amount s0) (su_stake_denom s0)"
  using assms unfolding handle_supplier_stake_msg_one_def
  by (cases "decoded m") (auto simp: res_eq_Inr Let_def case_prod_unfold split: option.splits)

lemma claim_msg_result:
  assumes "handle_claim_supplier_one c host b m rec = Inr (s, row, svcs, gone)"
  obtains operator owner signing node key signature is_output raw coins coin n where
    "decoded m = ClaimMorseSupplier operator owner signing node key signature is_output raw"
    "event_coins ''pocket.migration.EventMorseSupplierClaimed'' [''claimed_balance'', ''claimed_supplier_stake'']
      (tx_events (msg_tx m)) = Inr coins"
    "map_of coins ''claimed_supplier_stake'' = Some coin" "big_int (amount coin) = Inr n"
    "s = staked_supplier operator owner (n + stake_of (rec_supplier rec operator)) (denom coin)"
  using assms unfolding handle_claim_supplier_one_def stake_of_def [symmetric]
  by (cases "decoded m") (auto simp: res_eq_Inr Let_def case_prod_unfold)

lemma current_suppliers_mem: "i \<in> set ids \<Longrightarrow> current_suppliers ids base rec i = rec_supplier rec i"
  by (simp add: current_suppliers_def)

lemma applied_stake_step:
  assumes "apply_stake s svcs gone r0 = Inr r'" "run_records r0 = rec" "records_ok ids rec" "su_id s \<in> set ids"
    and "supplier_effect b (Ms m) (current_suppliers ids base rec) ((current_suppliers ids base rec)(su_id s \<mapsto> s))"
  shows "records_ok ids (run_records r') \<and>
    supplier_effect b (Ms m) (current_suppliers ids base rec) (current_suppliers ids base (run_records r'))"
  using apply_stake_ok [OF assms(1) _ assms(4)] assms(2,3,5) by simp

lemma stake_msg_step:
  assumes "handle_supplier_stake_msg_one host b m rec = Inr (s, row, svcs, gone)" "records_ok ids rec"
    and m: "type_url m = ''/pocket.supplier.MsgStakeSupplier''" and named: "set (list_of_option (msg_supplier m)) \<subseteq> set ids"
  shows "su_id s \<in> set ids"
    and "supplier_effect b (Ms m) (current_suppliers ids base rec) ((current_suppliers ids base rec)(su_id s \<mapsto> s))"
proof -
  show "su_id s \<in> set ids"
    using assms(1) named m by (elim stake_msg_result) (simp_all add: msg_supplier_def list_of_option_def staked_supplier_def)
  from assms(1) show "supplier_effect b (Ms m) (current_suppliers ids base rec) ((current_suppliers ids base rec)(su_id s \<mapsto> s))"
  proof (cases rule: stake_msg_result)
    case (1 operator owner signer coin raw n)
    then show ?thesis using supplier_effect.staked [OF m 1(1,2)] by (simp add: staked_supplier_def)
  next
    case (2 operator owner signer raw s0)
    then show ?thesis
      using supplier_effect.restaked [where t = "current_suppliers ids base rec", OF m 2(1) current_suppliers_rec [OF assms(2) 2(2), of base]]
      by (simp add: staked_supplier_def)
  qed
qed

lemma claim_msg_step:
  assumes "handle_claim_supplier_one c host b m rec = Inr (s, row, svcs, gone)"
    and m: "type_url m = ''/pocket.migration.MsgClaimMorseSupplier''" and named: "set (list_of_option (msg_supplier m)) \<subseteq> set ids"
  shows "su_id s \<in> set ids"
    and "supplier_effect b (Ms m) (current_suppliers ids base rec) ((current_suppliers ids base rec)(su_id s \<mapsto> s))"
proof -
  from assms(1) obtain operator owner signing node key signature is_output raw coins coin n where
    d: "decoded m = ClaimMorseSupplier operator owner signing node key signature is_output raw"
    "event_coins ''pocket.migration.EventMorseSupplierClaimed'' [''claimed_balance'', ''claimed_supplier_stake'']
      (tx_events (msg_tx m)) = Inr coins"
    "map_of coins ''claimed_supplier_stake'' = Some coin" "big_int (amount coin) = Inr n"
    "s = staked_supplier operator owner (n + stake_of (rec_supplier rec operator)) (denom coin)"
    by (rule claim_msg_result)
  have mem: "operator \<in> set ids" using named m d(1) by (simp add: msg_supplier_def list_of_option_def)
  then show "su_id s \<in> set ids" by (simp add: d(5) staked_supplier_def)
  show "supplier_effect b (Ms m) (current_suppliers ids base rec) ((current_suppliers ids base rec)(su_id s \<mapsto> s))"
    using supplier_effect.claimed [OF m d(1-4), of b "current_suppliers ids base rec"] current_suppliers_mem [OF mem]
    by (simp add: d(5) staked_supplier_def)
qed

lemma unstake_msg_step:
  assumes "decoded m = UnstakeSupplier operator signer" "rec_supplier rec operator = Some s" "records_ok ids rec"
    and "set_supplier (s\<lparr>su_status := Unstaking, su_unstaking_begin_block := Some b\<rparr>) rec = Inr rec'"
    and m: "type_url m = ''/pocket.supplier.MsgUnstakeSupplier''"
  shows "records_ok ids rec' \<and> supplier_effect b (Ms m) (current_suppliers ids base rec) (current_suppliers ids base rec')"
proof -
  have "su_id (s\<lparr>su_status := Unstaking, su_unstaking_begin_block := Some b\<rparr>) = operator"
    using records_ok_id [OF assms(3,2)] by simp
  note set = set_supplier_ok [OF assms(3,2) this assms(4)]
  show ?thesis
    using set supplier_effect.unstaked [where t = "current_suppliers ids base rec", OF m assms(1)
        current_suppliers_rec [OF assms(3,2), of base]] by simp
qed

lemma process_msg_step:
  assumes "process_msg c host b m r = Inr r'" and "records_ok ids (run_records r)"
    and named: "set (list_of_option (msg_supplier m)) \<subseteq> set ids"
  shows "records_ok ids (run_records r') \<and> supplier_effect b (Ms m)
    (current_suppliers ids base (run_records r)) (current_suppliers ids base (run_records r'))"
proof -
  let ?rec = "run_records r"
  consider "type_url m = ''/pocket.supplier.MsgStakeSupplier''" | "type_url m = ''/pocket.migration.MsgClaimMorseSupplier''"
    | "type_url m = ''/pocket.supplier.MsgUnstakeSupplier''" | "type_url m \<notin> set supplier_msg_types"
    by (auto simp: supplier_msg_types_def)
  then show ?thesis
  proof cases
    case 1
    then obtain s row svcs gone where h: "handle_supplier_stake_msg_one host b m ?rec = Inr (s, row, svcs, gone)"
        "apply_stake s svcs gone (r\<lparr>run_stakes := run_stakes r @ [row]\<rparr>) = Inr r'"
      using assms(1) by (auto simp: process_msg_def Let_def res_eq_Inr)
    show ?thesis by (rule applied_stake_step [OF h(2) _ assms(2) stake_msg_step [OF h(1) assms(2) 1 named]]) simp
  next
    case 2
    then obtain s row svcs gone where h: "handle_claim_supplier_one c host b m ?rec = Inr (s, row, svcs, gone)"
        "apply_stake s svcs gone (r\<lparr>run_claims := run_claims r @ [row]\<rparr>) = Inr r'"
      using assms(1) by (auto simp: process_msg_def Let_def res_eq_Inr)
    show ?thesis by (rule applied_stake_step [OF h(2) _ assms(2) claim_msg_step [OF h(1) 2 named]]) simp
  next
    case 3
    then obtain operator signer s where h: "decoded m = UnstakeSupplier operator signer" "rec_supplier ?rec operator = Some s"
        "set_supplier (s\<lparr>su_status := Unstaking, su_unstaking_begin_block := Some b\<rparr>) ?rec = Inr (run_records r')"
      using assms(1)
      by (cases "decoded m") (auto simp: process_msg_def Let_def res_eq_Inr handle_unstake_supplier_msg_one_def)
    show ?thesis using h(1,2) assms(2) h(3) 3 by (rule unstake_msg_step)
  next
    case 4
    then have "r' = r" using assms(1) by (auto simp: process_msg_def Let_def supplier_msg_types_def)
    then show ?thesis using assms(2) 4 supplier_effect.other_msg by simp
  qed
qed

lemma process_data_steps:
  assumes "foldM_res (process_datum c host b) r ds = Inr r'" and "records_ok ids (run_records r)"
    and "\<And>m. Ms m \<in> set ds \<Longrightarrow> set (list_of_option (msg_supplier m)) \<subseteq> set ids"
  shows "records_ok ids (run_records r') \<and> supplier_effects b ds
    (current_suppliers ids base (run_records r)) (current_suppliers ids base (run_records r'))"
  using assms
proof (induction ds arbitrary: r)
  case Nil
  then show ?case by simp
next
  case (Cons d ds)
  from Cons.prems(1) obtain r1 where r1: "process_datum c host b r d = Inr r1" "foldM_res (process_datum c host b) r1 ds = Inr r'"
    by (auto simp: bind_eq_Inr)
  have "records_ok ids (run_records r1) \<and> supplier_effect b d
    (current_suppliers ids base (run_records r)) (current_suppliers ids base (run_records r1))"
    using r1(1) Cons.prems(2,3) process_event_step process_msg_step
    by (cases d) (auto simp: process_datum_def)
  then show ?case using Cons.IH [OF r1(2)] Cons.prems(3) by auto
qed

subsection \<open>Reading the records\<close>

lemma rec_supplier_add_service [simp]: "rec_supplier (foldl add_service rec ss) = rec_supplier rec"
  by (induction ss arbitrary: rec) (auto simp: add_service_def fun_eq_iff)

lemma dict_ok_add_service [simp]: "dict_ok rec \<Longrightarrow> dict_ok (foldl add_service rec ss)"
  by (induction ss arbitrary: rec) (simp_all add: add_service_def)

lemma read_suppliers:
  fixes ss :: "supplier list" and rec :: supplier_records
  defines "f \<equiv> \<lambda>rec s. dict_set (su_id s) \<lparr>sr_supplier = Some s, sr_services = []\<rparr> rec"
  shows "rec_supplier (foldl f rec ss) i = (case find (\<lambda>s. su_id s = i) (rev ss) of None \<Rightarrow> rec_supplier rec i | Some s \<Rightarrow> Some s)"
    and "dict_ok rec \<Longrightarrow> dict_ok (foldl f rec ss)"
  by (induction ss rule: rev_induct) (auto simp: f_def)

lemma fetch_supplier_data_rec:
  assumes "hist_ok su_id b (suppliers st)"
  shows "rec_supplier (fetch_supplier_data b ids sids st) i = (if i \<in> set ids then live_map (suppliers st) i else None)"
proof -
  let ?ss = "fetched_suppliers b ids st"
  have mem: "s \<in> set ?ss \<longleftrightarrow> live_map (suppliers st) (su_id s) = Some s \<and> su_id s \<in> set ids" for s
    by (simp add: fetched_suppliers_def fetch_all_iff [OF assms])
  show ?thesis
  proof (cases "find (\<lambda>s. su_id s = i) (rev ?ss)")
    case None
    then have "\<forall>s \<in> set ?ss. su_id s \<noteq> i" by (simp add: find_None_iff)
    then have "i \<in> set ids \<Longrightarrow> live_map (suppliers st) i = None"
      using mem live_map_ident [OF assms, of i] by (cases "live_map (suppliers st) i") auto
    moreover have "rec_supplier [] i = None" by (simp add: rec_supplier_def)
    ultimately show ?thesis using None by (simp add: fetch_supplier_data_def read_suppliers)
  next
    case (Some s)
    then have "s \<in> set ?ss" "su_id s = i" by (auto dest: find_SomeD)
    then show ?thesis using mem Some by (auto simp: fetch_supplier_data_def read_suppliers)
  qed
qed

lemma fetch_supplier_data_ok:
  assumes "hist_ok su_id b (suppliers st)"
  shows "records_ok ids (fetch_supplier_data b ids sids st)"
    and "current_suppliers ids (live_map (suppliers st)) (fetch_supplier_data b ids sids st) = live_map (suppliers st)"
  using live_map_ident [OF assms] fetch_supplier_data_rec [OF assms] read_suppliers(2) [of "[]" "fetched_suppliers b ids st"]
  by (auto simp: records_ok_def fetch_supplier_data_def current_suppliers_def fun_eq_iff split: if_splits)

subsection \<open>Writing the rows\<close>

lemma rewrite_live:
  assumes "hist_ok ident b t" and "\<forall>r \<in> set t. lower r < b" and "distinct (map ident es)"
    and "\<And>e. e \<in> set es \<Longrightarrow> ident e \<in> set ids \<or> live_map t (ident e) = None"
  shows "\<exists>t'. rewrite_rows ident b es ids t = Inr t' \<and> hist_ok ident b t' \<and>
    (\<forall>i. live_map t' i = (case map_of (map (\<lambda>e. (ident e, e)) es) i of Some e \<Rightarrow> Some e
       | None \<Rightarrow> if i \<in> set ids then None else live_map t i))"
proof -
  have "filter (\<lambda>r. \<not> lower r = b) t = t" using assms(2) by (intro filter_True) auto
  then have same: "run_sql (\<lambda>_. None) (Delete (\<lambda>r. lower r = b)) t = t" by simp
  define u where "u = (if ids = [] then t else remove_versions b ids t)"
  have u: "hist_ok ident b u" "\<And>i. live_map u i = (if i \<in> set ids then None else live_map t i)"
    using assms(1) by (auto simp: u_def)
  then have free: "\<And>e. e \<in> set es \<Longrightarrow> live_map u (ident e) = None" using assms(4) by auto
  have rw: "rewrite_rows ident b es ids t = Inr (u @ map (new_row ident b) es)"
    by (simp add: rewrite_rows_def same u_def remove_versions_def kept_by_def del: run_sql.simps)
  have "live_map (u @ map (new_row ident b) es) i = (case map_of (map (\<lambda>e. (ident e, e)) es) i of Some e \<Rightarrow> Some e
       | None \<Rightarrow> if i \<in> set ids then None else live_map t i)" for i
  proof (cases "map_of (map (\<lambda>e. (ident e, e)) es) i")
    case None
    then show ?thesis using live_map_insert [OF free, where i = i and b = b] u(2) by (simp split: option.splits)
  next
    case (Some e)
    then have "ident e = i" "e \<in> set es" by (auto dest!: map_of_SomeD)
    then show ?thesis using live_map_insert [OF free, where i = i and b = b] free Some by auto
  qed
  then show ?thesis using rw hist_ok_insert [OF u(1) assms(3) free] by blast
qed

lemma map_of_ident: "distinct (map f es) \<Longrightarrow> e \<in> set es \<Longrightarrow> map_of (map (\<lambda>e. (f e, e)) es) (f e) = Some e"
  by (simp add: map_of_eq_Some_iff comp_def image_iff)

lemma saved_suppliers:
  assumes "dict_ok rec" and "\<And>i s. rec_supplier rec i = Some s \<Longrightarrow> su_id s = i"
  shows "distinct (map su_id (fst (build_supplier_save_lists rec))) \<and>
    map_of (map (\<lambda>s. (su_id s, s)) (fst (build_supplier_save_lists rec))) = rec_supplier rec"
  using assms
proof (induction rec)
  case Nil
  then show ?case by (simp add: build_supplier_save_lists_def List.map_filter_simps rec_supplier_def fun_eq_iff)
next
  case (Cons p rec)
  obtain k r where p: "p = (k, r)" by (cases p)
  have "map_of rec k = None" using Cons.prems(1) by (simp add: p dict_ok_def map_of_eq_None_iff)
  then have fresh: "rec_supplier rec k = None" by (simp add: rec_supplier_def)
  have rec: "rec_supplier (p # rec) i = (if i = k then sr_supplier r else rec_supplier rec i)" for i
    by (simp add: p rec_supplier_def)
  have IH: "distinct (map su_id (fst (build_supplier_save_lists rec)))"
    "map_of (map (\<lambda>s. (su_id s, s)) (fst (build_supplier_save_lists rec))) = rec_supplier rec"
  proof -
    have "dict_ok rec" using Cons.prems(1) by (simp add: dict_ok_def)
    moreover have "rec_supplier rec i = Some s \<Longrightarrow> su_id s = i" for i s
      using Cons.prems(2) [of i s] fresh by (cases "i = k") (auto simp: rec)
    ultimately show "distinct (map su_id (fst (build_supplier_save_lists rec)))"
      "map_of (map (\<lambda>s. (su_id s, s)) (fst (build_supplier_save_lists rec))) = rec_supplier rec"
      using Cons.IH by blast+
  qed
  show ?case
  proof (cases "sr_supplier r")
    case None
    then show ?thesis using IH rec fresh
      by (auto simp: build_supplier_save_lists_def List.map_filter_simps p fun_eq_iff)
  next
    case (Some s)
    then have "su_id s = k" using Cons.prems(2) rec by simp
    moreover have "k \<notin> su_id ` set (fst (build_supplier_save_lists rec))"
    proof -
      have "map_of (map (\<lambda>s. (su_id s, s)) (fst (build_supplier_save_lists rec))) k = None" using IH(2) fresh by simp
      then show ?thesis by (simp add: map_of_eq_None_iff image_image)
    qed
    ultimately show ?thesis using IH rec fresh Some
      by (auto simp: build_supplier_save_lists_def List.map_filter_simps p fun_eq_iff)
  qed
qed

lemma suppliers_to_close_iff: "i \<in> set (suppliers_to_close rec) \<longleftrightarrow> rec_supplier rec i \<noteq> None"
proof -
  have "rec_supplier rec i \<noteq> None \<Longrightarrow> i \<in> fst ` set rec"
    by (cases "map_of rec i") (force simp: rec_supplier_def dest: map_of_SomeD)+
  then show ?thesis by (auto simp: suppliers_to_close_def)
qed

lemma save_suppliers:
  assumes "hist_ok su_id b (suppliers st)" and "\<forall>r \<in> set (suppliers st). lower r < b"
    and "records_ok ids rec'" and rec: "rec = fetch_supplier_data b ids sids st"
  shows "\<exists>t. rewrite_rows su_id b (fst (build_supplier_save_lists rec')) (suppliers_to_close rec) (suppliers st) = Inr t \<and>
    hist_ok su_id b t \<and> live_map t = current_suppliers ids (live_map (suppliers st)) rec'"
proof -
  let ?es = "fst (build_supplier_save_lists rec')"
  have "dict_ok rec'" and keyed: "\<And>i s. rec_supplier rec' i = Some s \<Longrightarrow> su_id s = i"
    using assms(3) by (auto simp: records_ok_def)
  note saved = saved_suppliers [OF this]
  have close: "i \<in> set (suppliers_to_close rec) \<longleftrightarrow> i \<in> set ids \<and> live_map (suppliers st) i \<noteq> None" for i
    by (simp add: suppliers_to_close_iff rec fetch_supplier_data_rec [OF assms(1)])
  have named: "rec_supplier rec' i = Some s \<Longrightarrow> i \<in> set ids" for i s using assms(3) by (auto simp: records_ok_def)
  have free: "su_id e \<in> set (suppliers_to_close rec) \<or> live_map (suppliers st) (su_id e) = None"
    if "e \<in> set ?es" for e
  proof -
    have "map_of (map (\<lambda>s. (su_id s, s)) ?es) (su_id e) = Some e"
      using that saved by (intro map_of_ident) simp_all
    then have "rec_supplier rec' (su_id e) = Some e" using saved by simp
    then show ?thesis using named close by blast
  qed
  from rewrite_live [OF assms(1,2) conjunct1 [OF saved] free] saved obtain t where
    t: "rewrite_rows su_id b ?es (suppliers_to_close rec) (suppliers st) = Inr t" "hist_ok su_id b t"
    "\<And>i. live_map t i = (case rec_supplier rec' i of Some e \<Rightarrow> Some e
       | None \<Rightarrow> if i \<in> set (suppliers_to_close rec) then None else live_map (suppliers st) i)"
    by auto
  have "live_map t i = current_suppliers ids (live_map (suppliers st)) rec' i" for i
    using named close by (auto simp: t(3) current_suppliers_def split: option.splits)
  then show ?thesis using t(1,2) by blast
qed

subsection \<open>The refinement\<close>

lemma collected_named:
  assumes "collect_supplier_ids ds = Inr (ids, sids)" and "Ms m \<in> set ds"
  shows "set (list_of_option (msg_supplier m)) \<subseteq> set ids"
proof -
  obtain rs where rs: "mapM_res collect_one ds = Inr rs" "ids = concat (map fst rs)"
    using assms(1) by (auto simp: collect_supplier_ids_def map_res_eq_Inr)
  obtain i where i: "i < length ds" "ds ! i = Ms m" using assms(2) by (auto simp: in_set_conv_nth)
  have "list_all2 (\<lambda>x y. collect_one x = Inr y) ds rs" using rs(1) by (simp add: mapM_res_Inr_iff)
  from list_all2_nthD [OF this i(1)] list_all2_lengthD [OF this] i
  obtain r where "r \<in> set rs" "collect_one (Ms m) = Inr r" by (metis nth_mem)
  then show ?thesis using rs(2) by (auto simp: collect_one_def)
qed

text \<open>
  C3: indexing a block's supplier messages and events refines the abstract changes: when it succeeds,
  the current suppliers of the table are the current suppliers before, changed by each datum in the
  order of the chain; suppliers that no datum names keep their rows, and every id has one current row.
\<close>

theorem index_supplier_refines:
  assumes "index_supplier c host b msgs evs st = Inr st'"
    and "hist_ok su_id b (suppliers st)" and "\<forall>r \<in> set (suppliers st). lower r < b"
  shows "supplier_effects b (supplier_data msgs evs) (live_map (suppliers st)) (live_map (suppliers st')) \<and>
    hist_ok su_id b (suppliers st')"
proof -
  let ?ds = "supplier_data msgs evs"
  from assms(1) obtain ids sids r where r: "collect_supplier_ids ?ds = Inr (ids, sids)"
    "foldM_res (process_datum c host b) (start_run (fetch_supplier_data b ids sids st)) ?ds = Inr r"
    "rewrite_rows su_id b (fst (build_supplier_save_lists (run_records r)))
      (suppliers_to_close (fetch_supplier_data b ids sids st)) (suppliers st) = Inr (suppliers st')"
    by (auto simp: index_supplier_def process_supplier_events_and_messages_def
        perform_supplier_database_operations_def Let_def res_eq_Inr case_prod_unfold)
  note read = fetch_supplier_data_ok [OF assms(2), of ids sids]
  have "records_ok ids (run_records (start_run (fetch_supplier_data b ids sids st)))"
    using read(1) by (simp add: start_run_def)
  from process_data_steps [OF r(2) this collected_named [OF r(1)], of "live_map (suppliers st)"]
  have ok: "records_ok ids (run_records r)" and steps: "supplier_effects b ?ds (live_map (suppliers st))
      (current_suppliers ids (live_map (suppliers st)) (run_records r))"
    using read(2) by (simp_all add: start_run_def)
  from save_suppliers [OF assms(2,3) ok refl, of sids] show ?thesis using r(3) steps by auto
qed

definition supplier_tx_example :: "nat \<Rightarrow> nat \<Rightarrow> cosmos_tx" where
  "supplier_tx_example i code = \<lparr>tx_hash = ''AB'', tx_idx = i, tx_code = code, tx_events = []\<rparr>"

definition supplier_event_example :: "nat \<Rightarrow> event_kind_raw \<Rightarrow> cosmos_tx option \<Rightarrow> string \<Rightarrow> attribute list \<Rightarrow> cosmos_event" where
  "supplier_event_example i k tx ty as = \<lparr>event_idx = i, event_kind = k, kind_text = ''Event'',
     event = \<lparr>ev_type = ty, attributes = as\<rparr>, event_tx = tx, event_msg = None, event_height = 7\<rparr>"

definition supplier_msg_example :: "nat \<Rightarrow> decoded_msg \<Rightarrow> cosmos_msg" where
  "supplier_msg_example i d = \<lparr>msg_idx = 0, type_url = ''/pocket.supplier.MsgStakeSupplier'', decoded = d,
     msg_tx = supplier_tx_example i 0, msg_height = 7\<rparr>"

definition service_example :: service_config where
  "service_example = \<lparr>sc_id = ''p-eth'', sc_service = ''eth'', sc_supplier = ''p'', sc_endpoints = [],
     sc_rev_share = [], sc_domains = [], sc_activated_at = Some 4, sc_activated_event = Some ''e''\<rparr>"

definition supplier_db_example :: supplier_db where
  "supplier_db_example = \<lparr>suppliers = [new_row su_id 3 (staked_supplier ''p'' ''o'' 10 ''upokt'')],
     supplier_services = [new_row sc_id 3 service_example], msg_stake_suppliers = [], msg_claim_suppliers = [],
     msg_unstake_suppliers = [], service_activations = [], supplier_slashings = [], supplier_unbonding_begins = [],
     supplier_unbonding_ends = [], supplier_claimables = []\<rparr>"

definition one_stake :: "string \<Rightarrow> cosmos_msg list" where
  "one_stake t = (if t = ''/pocket.supplier.MsgStakeSupplier''
     then [supplier_msg_example 0 (StakeSupplier ''p'' ''o'' ''o'' (Some \<lparr>amount = ''25'', denom = ''upokt''\<rparr>) [])] else [])"

theorem index_supplier_refines_witness:
  "case index_supplier crypto_example (\<lambda>_. None) 7 one_stake (\<lambda>_. []) supplier_db_example of
     Inr st' \<Rightarrow> live_map (suppliers st') ''p'' = Some (staked_supplier ''p'' ''o'' 25 ''upokt'') \<and>
       supplier_effects 7 (supplier_data one_stake (\<lambda>_. [])) (live_map (suppliers supplier_db_example)) (live_map (suppliers st'))
   | Inl _ \<Rightarrow> False"
proof -
  let ?run = "index_supplier crypto_example (\<lambda>_. None) 7 one_stake (\<lambda>_. []) supplier_db_example"
  have "case ?run of Inr st' \<Rightarrow> live_map (suppliers st') ''p'' = Some (staked_supplier ''p'' ''o'' 25 ''upokt'') | Inl _ \<Rightarrow> False"
    by code_simp
  then obtain st' where run: "?run = Inr st'" "live_map (suppliers st') ''p'' = Some (staked_supplier ''p'' ''o'' 25 ''upokt'')"
    by (auto split: sum.splits)
  have "hist_ok su_id 7 (suppliers supplier_db_example)" "\<forall>r \<in> set (suppliers supplier_db_example). lower r < 7"
    by code_simp+
  from index_supplier_refines [OF run(1) this] show ?thesis using run by simp
qed

end
