(* ===== verification/SupplierFacts.thy ===== *)
theory SupplierFacts
  imports SupplierSpec
begin

text \<open>
  What \<open>indexSupplier\<close> does to the tables: the order of the data, the records as an abstraction of the
  current suppliers, and what single messages and events leave behind.
\<close>

subsection \<open>Order\<close>

lemma filter_events_success:
  "fst (filter_events_by_tx_status es) = filter (\<lambda>e. case event_tx e of None \<Rightarrow> True | Some t \<Rightarrow> tx_code t = 0) es"
  by (induction es) (simp_all add: case_prod_unfold Let_def)

lemma filter_msgs_success: "fst (filter_msg_by_tx_status ms) = filter (\<lambda>m. tx_code (msg_tx m) = 0) ms"
  by (induction ms) (simp_all add: case_prod_unfold Let_def)

definition succeeded :: "datum \<Rightarrow> bool" where
  "succeeded d \<longleftrightarrow> (case d of Ev e \<Rightarrow> (case event_tx e of None \<Rightarrow> True | Some t \<Rightarrow> tx_code t = 0)
     | Ms m \<Rightarrow> tx_code (msg_tx m) = 0)"

lemma datum_event_Some: "datum_event d = Some e \<longleftrightarrow> d = Ev e" and datum_msg_Some: "datum_msg d = Some m \<longleftrightarrow> d = Ms m"
  by (cases d; simp add: datum_event_def datum_msg_def; blast)+

lemma set_successful_data: "set (successful_data ds) = {d \<in> set ds. succeeded d}"
proof -
  have "d \<in> set (successful_data ds) \<longleftrightarrow> d \<in> set ds \<and> succeeded d" for d
    by (cases d)
      (auto simp: successful_data_def filter_events_success filter_msgs_success set_map_filter succeeded_def
        datum_event_Some datum_msg_Some)
  then show ?thesis by blast
qed

lemma mset_sort_events_and_msgs: "mset (sort_events_and_msgs ds) = mset (successful_data ds)"
proof -
  have "mset (filter (\<lambda>d. \<not> is_finalized d) xs) + mset (filter is_finalized xs) = mset xs" for xs
    by (induction xs) simp_all
  then show ?thesis by (simp add: sort_events_and_msgs_def)
qed

lemma set_sort_events_and_msgs: "set (sort_events_and_msgs ds) = {d \<in> set ds. succeeded d}"
  using mset_eq_setD [OF mset_sort_events_and_msgs] set_successful_data by blast

text \<open>What comes first: by key among the data of transactions, by index among the last events.\<close>

definition comes_before :: "datum \<Rightarrow> datum \<Rightarrow> bool" where
  "comes_before d d' \<longleftrightarrow> (if is_finalized d then is_finalized d' \<and> datum_idx d \<le> datum_idx d'
     else is_finalized d' \<or> datum_key d \<le> datum_key d')"

lemma sorted_events_and_msgs: "sorted_wrt comes_before (sort_events_and_msgs ds)"
proof -
  have key: "sorted_wrt comes_before (sort_key datum_key (filter (\<lambda>d. \<not> is_finalized d) xs))" for xs
  proof -
    have "sorted_wrt (\<lambda>x y. datum_key x \<le> datum_key y) (sort_key datum_key (filter (\<lambda>d. \<not> is_finalized d) xs))"
      using sorted_sort_key [of datum_key "filter (\<lambda>d. \<not> is_finalized d) xs"] by (simp add: sorted_map)
    then show ?thesis by (rule sorted_wrt_mono_rel [rotated]) (auto simp: comes_before_def)
  qed
  have idx: "sorted_wrt comes_before (sort_key datum_idx (filter is_finalized xs))" for xs
  proof -
    have "sorted_wrt (\<lambda>x y. datum_idx x \<le> datum_idx y) (sort_key datum_idx (filter is_finalized xs))"
      using sorted_sort_key [of datum_idx "filter is_finalized xs"] by (simp add: sorted_map)
    then show ?thesis by (rule sorted_wrt_mono_rel [rotated]) (auto simp: comes_before_def)
  qed
  show ?thesis
    using key idx by (auto simp: sort_events_and_msgs_def sorted_wrt_append comes_before_def)
qed

lemma comes_before_cut:
  "sort_events_and_msgs ds = xs @ d # ys \<Longrightarrow> d' \<in> set ys \<Longrightarrow> comes_before d d'"
  using sorted_events_and_msgs [of ds] by (simp add: sorted_wrt_append)

lemma event_before_message:
  assumes "comes_before (Ev e) (Ms m)"
  shows "(\<exists>t. event_tx e = Some t \<and> tx_idx t < tx_idx (msg_tx m)) \<and> \<not> is_finalized (Ev e)"
  using assms by (auto simp: comes_before_def is_finalized_def datum_key_def split: option.splits if_splits)

lemma stable_events_and_msgs:
  "filter (\<lambda>d. \<not> is_finalized d \<and> datum_key d = k) (sort_events_and_msgs ds) =
     filter (\<lambda>d. \<not> is_finalized d \<and> datum_key d = k) (successful_data ds)"
proof -
  let ?P = "\<lambda>d. \<not> is_finalized d \<and> datum_key d = k"
  let ?ns = "filter (\<lambda>d. \<not> is_finalized d) (successful_data ds)"
  have "filter ?P (sort_key datum_key ?ns) = filter (\<lambda>d. datum_key d = k) (sort_key datum_key ?ns)"
    by (rule filter_cong) simp_all
  also have "\<dots> = filter (\<lambda>d. datum_key d = k) ?ns" by (rule sort_key_stable)
  also have "\<dots> = filter ?P (successful_data ds)" by (simp add: conj_commute)
  finally have "filter ?P (sort_key datum_key ?ns) = filter ?P (successful_data ds)" .
  moreover have "filter ?P (sort_key datum_idx (filter is_finalized (successful_data ds))) = []"
    by (rule filter_False) simp
  ultimately show ?thesis by (simp add: sort_events_and_msgs_def)
qed



subsection \<open>Services\<close>

definition reads_services :: "datum \<Rightarrow> bool" where
  "reads_services d \<longleftrightarrow> (case d of Ev e \<Rightarrow> ev_type (event e) = activated_type
     | Ms m \<Rightarrow> type_url m = ''/pocket.supplier.MsgStakeSupplier'' \<or> type_url m = ''/pocket.migration.MsgClaimMorseSupplier'')"

definition no_services :: "supplier_records \<Rightarrow> bool" where
  "no_services rec \<longleftrightarrow> (\<forall>(i, r) \<in> set rec. sr_services r = [])"

lemma no_services_set: "no_services rec \<Longrightarrow> sr_services r = [] \<Longrightarrow> no_services (dict_set i r rec)"
  unfolding no_services_def by (induction i r rec rule: dict_set.induct) auto

lemma no_services_of: "no_services rec \<Longrightarrow> map_of rec i = Some r \<Longrightarrow> sr_services r = []"
  by (force simp: no_services_def dest: map_of_SomeD)

lemma no_services_set_supplier: "no_services rec \<Longrightarrow> set_supplier s rec = Inr rec' \<Longrightarrow> no_services rec'"
  by (auto simp: set_supplier_def res_eq_Inr no_services_of intro!: no_services_set)

lemma no_services_update: "no_services rec \<Longrightarrow> update_services i (delete_services gone) rec = Inr rec' \<Longrightarrow> no_services rec'"
proof -
  have "delete_services gone [] = []" by (induction gone) (simp_all add: delete_services_def dict_del_def)
  then show "no_services rec \<Longrightarrow> update_services i (delete_services gone) rec = Inr rec' \<Longrightarrow> no_services rec'"
    by (auto simp: update_services_def res_eq_Inr no_services_of intro!: no_services_set)
qed

lemma unbonding_end_gone:
  "handle_supplier_unbonding_end_event_one b e rec = Inr (s, gone, row) \<Longrightarrow> no_services rec \<Longrightarrow> gone = []"
  by (auto simp: handle_supplier_unbonding_end_event_one_def res_eq_Inr Let_def rec_services_def no_services_of
      split: option.splits)

lemma process_datum_no_services:
  assumes "process_datum c host b r d = Inr r'" and "\<not> reads_services d"
    and "no_services (run_records r)" and "run_services_to_close r = []"
  shows "no_services (run_records r') \<and> run_services_to_close r' = []"
proof (cases d)
  case (Ev e)
  then have "process_event b e r = Inr r'" "ev_type (event e) \<noteq> activated_type"
    using assms(1,2) by (simp_all add: process_datum_def reads_services_def)
  then show ?thesis
    using assms(3,4)
    by (auto simp: process_event_def Let_def res_eq_Inr split: if_splits
        intro: no_services_set_supplier no_services_update dest: unbonding_end_gone)
next
  case (Ms m)
  then have "process_msg c host b m r = Inr r'" "type_url m \<noteq> ''/pocket.supplier.MsgStakeSupplier''"
    "type_url m \<noteq> ''/pocket.migration.MsgClaimMorseSupplier''"
    using assms(1,2) by (simp_all add: process_datum_def reads_services_def)
  then show ?thesis
    using assms(3,4) by (auto simp: process_msg_def Let_def res_eq_Inr split: if_splits intro: no_services_set_supplier)
qed

lemma collect_no_services:
  assumes "collect_supplier_ids ds = Inr (ids, sids)" and "\<forall>d \<in> set ds. \<not> reads_services d"
    and "\<forall>m. Ms m \<in> set ds \<longrightarrow> type_url m \<in> set supplier_msg_types"
  shows "sids = []"
proof -
  obtain rs where rs: "mapM_res collect_one ds = Inr rs" "sids = concat (map snd rs)"
    using assms(1) by (auto simp: collect_supplier_ids_def map_res_eq_Inr)
  have "snd r = []" if mem: "r \<in> set rs" for r
  proof -
    obtain d where d: "d \<in> set ds" "collect_one d = Inr r" using mapM_res_mem [OF rs(1) mem] by blast
    have no: "\<not> reads_services d" and msg: "\<And>m. d = Ms m \<Longrightarrow> type_url m \<in> set supplier_msg_types"
      using d(1) assms(2,3) by blast+
    show ?thesis
    proof (cases d)
      case (Ev e)
      then show ?thesis using d(2) no by (auto simp: collect_one_def reads_services_def map_res_eq_Inr)
    next
      case (Ms m)
      then show ?thesis
        using d(2) no msg [OF Ms] by (auto simp: collect_one_def reads_services_def supplier_msg_types_def)
    qed
  qed
  then show ?thesis by (simp add: rs(2))
qed

lemma no_services_fetched: "no_services (foldl (\<lambda>rec s. dict_set (su_id s) \<lparr>sr_supplier = Some s, sr_services = []\<rparr> rec) rec ss)"
  if "no_services rec"
  using that by (induction ss arbitrary: rec) (simp_all add: no_services_set)

lemma fetch_no_services: "no_services (fetch_supplier_data b ids [] st)"
proof -
  have "no_services []" by (simp add: no_services_def)
  from no_services_fetched [OF this] show ?thesis
    by (simp add: fetch_supplier_data_def fetched_services_def fetch_all_current current_def)
qed

lemma saved_no_services: "no_services rec \<Longrightarrow> snd (build_supplier_save_lists rec) = []"
  by (auto simp: build_supplier_save_lists_def no_services_def)

text \<open>
  C35: in a block without stakes, claims and activations no service row changes: the end of an unbonding
  leaves the services of the supplier current, since they are never read.
\<close>

theorem unbonding_end_keeps_services:
  assumes "index_supplier c host b msgs evs st = Inr st'"
    and "\<forall>d \<in> set (supplier_data msgs evs). \<not> reads_services d"
    and "\<forall>t \<in> set supplier_msg_types. \<forall>m \<in> set (msgs t). type_url m = t"
  shows "supplier_services st' = supplier_services st"
proof -
  let ?ds = "supplier_data msgs evs"
  from assms(1) obtain ids sids r where r: "collect_supplier_ids ?ds = Inr (ids, sids)"
    "foldM_res (process_datum c host b) (start_run (fetch_supplier_data b ids sids st)) ?ds = Inr r"
    "rewrite_rows sc_id b (snd (build_supplier_save_lists (run_records r))) (run_services_to_close r)
      (supplier_services st) = Inr (supplier_services st')"
    by (auto simp: index_supplier_def process_supplier_events_and_messages_def
        perform_supplier_database_operations_def Let_def res_eq_Inr case_prod_unfold)
  have "\<forall>m. Ms m \<in> set ?ds \<longrightarrow> type_url m \<in> set supplier_msg_types"
    using assms(3) by (auto simp: supplier_data_def set_sort_events_and_msgs supplier_msg_types_def)
  then have "sids = []" using collect_no_services r(1) assms(2) by blast
  then have "no_services (run_records (start_run (fetch_supplier_data b ids sids st))) \<and>
      run_services_to_close (start_run (fetch_supplier_data b ids sids st)) = []"
    using fetch_no_services by (simp add: start_run_def)
  from foldM_res_invariant [OF r(2), of "\<lambda>r. no_services (run_records r) \<and> run_services_to_close r = []", OF this]
  have "no_services (run_records r) \<and> run_services_to_close r = []"
    using process_datum_no_services assms(2) by blast
  then show ?thesis
    using r(3) saved_no_services by (simp add: rewrite_rows_def)
qed

subsection \<open>Activations\<close>

text \<open>The services of the records are current rows, under their ids and operators.\<close>

definition services_read :: "service_config tbl \<Rightarrow> supplier_records \<Rightarrow> bool" where
  "services_read t rec \<longleftrightarrow> (\<forall>(i, r) \<in> set rec. \<forall>(j, s) \<in> set (sr_services r).
     sc_id s = j \<and> sc_supplier s = i \<and> t j = Some s)"

lemma services_readD:
  "services_read t rec \<Longrightarrow> (i, r) \<in> set rec \<Longrightarrow> (j, s) \<in> set (sr_services r) \<Longrightarrow>
     sc_id s = j \<and> sc_supplier s = i \<and> t j = Some s"
  unfolding services_read_def by blast

lemma services_readI:
  "(\<And>i r j s. (i, r) \<in> set rec \<Longrightarrow> (j, s) \<in> set (sr_services r) \<Longrightarrow>
     sc_id s = j \<and> sc_supplier s = i \<and> t j = Some s) \<Longrightarrow> services_read t rec"
  unfolding services_read_def by blast

lemma services_read_rec:
  "services_read t rec \<Longrightarrow> (j, s) \<in> set (rec_services rec i) \<Longrightarrow> sc_id s = j \<and> sc_supplier s = i \<and> t j = Some s"
  by (cases "map_of rec i") (auto simp: rec_services_def dest!: map_of_SomeD dest: services_readD)

lemma services_read_add:
  assumes "services_read t rec" and "t (sc_id s) = Some s"
  shows "services_read t (add_service rec s)"
proof (rule services_readI)
  fix i r j s'
  assume mem: "(i, r) \<in> set (add_service rec s)" "(j, s') \<in> set (sr_services r)"
  from mem(1) consider "(i, r) \<in> set rec"
    | "i = sc_supplier s" "sr_services r = dict_set (sc_id s) s (rec_services rec (sc_supplier s))"
    unfolding add_service_def by (drule_tac subsetD [OF set_dict_set]) auto
  then show "sc_id s' = j \<and> sc_supplier s' = i \<and> t j = Some s'"
  proof cases
    case 1
    then show ?thesis using services_readD [OF assms(1)] mem(2) by blast
  next
    case 2
    then have "(j, s') = (sc_id s, s) \<or> (j, s') \<in> set (rec_services rec i)"
      using mem(2) set_dict_set by fastforce
    then show ?thesis using 2(1) assms(2) services_read_rec [OF assms(1)] by blast
  qed
qed

lemma services_read_adds:
  "services_read t rec \<Longrightarrow> \<forall>s \<in> set ss. t (sc_id s) = Some s \<Longrightarrow> services_read t (foldl add_service rec ss)"
  by (induction ss arbitrary: rec) (simp_all add: services_read_add)

lemma no_services_read: "no_services rec \<Longrightarrow> services_read t rec"
  by (fastforce simp: no_services_def services_read_def)

lemma fetch_services_read:
  assumes "hist_ok sc_id b (supplier_services st)"
  shows "services_read (live_map (supplier_services st)) (fetch_supplier_data b ids sids st)"
proof -
  have "no_services []" by (simp add: no_services_def)
  note none = no_services_read [OF no_services_fetched [OF this]]
  have "\<forall>s \<in> set (fetched_services b sids st). live_map (supplier_services st) (sc_id s) = Some s"
    by (simp add: fetched_services_def fetch_all_iff [OF assms])
  then show ?thesis unfolding fetch_supplier_data_def by (intro services_read_adds none)
qed

lemma rec_services_add:
  "rec_services (add_service rec s) i =
     (if i = sc_supplier s then dict_set (sc_id s) s (rec_services rec i) else rec_services rec i)"
  by (simp add: add_service_def rec_services_def)

lemma rec_services_adds:
  "j \<in> fst ` set (rec_services rec i) \<or> (\<exists>s \<in> set ss. sc_supplier s = i \<and> sc_id s = j) \<Longrightarrow>
     j \<in> fst ` set (rec_services (foldl add_service rec ss) i)"
proof (induction ss arbitrary: rec)
  case Nil
  then show ?case by simp
next
  case (Cons s ss)
  have "j \<in> fst ` set (rec_services (add_service rec s) i) \<or> (\<exists>s \<in> set ss. sc_supplier s = i \<and> sc_id s = j)"
    using Cons.prems by (auto simp: rec_services_add keys_dict_set)
  from Cons.IH [OF this] show ?case by simp
qed

lemma put_services_keys: "fst ` set (put_services svcs d) = fst ` set d \<union> sc_id ` set svcs"
  by (induction svcs arbitrary: d) (auto simp: put_services_def keys_dict_set)

lemma put_services_keyed:
  assumes "\<forall>(j, s) \<in> set d. sc_id s = j"
  shows "\<forall>(j, s) \<in> set (put_services svcs d). sc_id s = j"
  using assms
proof (induction svcs arbitrary: d)
  case Nil
  then show ?case by (simp add: put_services_def)
next
  case (Cons s svcs)
  have "\<forall>(j, s') \<in> set (dict_set (sc_id s) s d). sc_id s' = j"
    using set_dict_set [of "sc_id s" s d] Cons.prems by fastforce
  from Cons.IH [OF this] show ?case by (simp add: put_services_def)
qed

lemma saved_service:
  assumes "map_of rec i = Some r" and "j \<in> fst ` set (sr_services r)" and "\<forall>(j, s) \<in> set (sr_services r). sc_id s = j"
  shows "j \<in> sc_id ` set (snd (build_supplier_save_lists rec))"
proof -
  from assms(2) obtain x where x: "(j, x) \<in> set (sr_services r)" by auto
  then have "sc_id x = j" using assms(3) by blast
  moreover have "x \<in> snd ` set (sr_services r)" using x by force
  then have "x \<in> set (snd (build_supplier_save_lists rec))"
    using map_of_SomeD [OF assms(1)] by (force simp: build_supplier_save_lists_def)
  ultimately show ?thesis by blast
qed

text \<open>The activated services are some that were not active yet.\<close>

lemma activated_not_active:
  assumes "handle_event_supplier_service_config_activated_one b e rec = Inr (svcs, row)"
    and "services_read t rec" and "t i = Some s" and "\<not> not_activated s"
  shows "i \<notin> sc_id ` set svcs"
proof
  obtain operator h where svcs: "svcs = map (\<lambda>s. s\<lparr>sc_activated_at := Some h, sc_activated_event := Some (get_event_id e)\<rparr>)
      (filter not_activated (map snd (rec_services rec operator)))"
    using assms(1) by (auto simp: handle_event_supplier_service_config_activated_one_def res_eq_Inr)
  assume "i \<in> sc_id ` set svcs"
  then obtain j s' where "(j, s') \<in> set (rec_services rec operator)" "not_activated s'" "sc_id s' = i"
    by (auto simp: svcs)
  then show False using services_read_rec [OF assms(2)] assms(3,4) by fastforce
qed

lemma activation_saves:
  assumes "process_event b e r = Inr r'" and ty: "ev_type (event e) = activated_type"
    and "event_get_id (attributes (event e)) = Inr (Some operator)"
    and "services_read t (run_records r)" and "run_services_to_close r = []"
    and "t i = Some s" and "\<not> not_activated s" and "i \<in> fst ` set (rec_services (run_records r) operator)"
  shows "i \<in> sc_id ` set (snd (build_supplier_save_lists (run_records r'))) \<and> i \<notin> set (run_services_to_close r')"
proof -
  let ?rec = "run_records r"
  from assms(1,3) ty have "bind_res (handle_event_supplier_service_config_activated_one b e ?rec) (\<lambda>(svcs, row).
      bind_res (if svcs = [] then Inr ?rec else update_services operator (put_services svcs) ?rec) (\<lambda>rec'.
        Inr (r\<lparr>run_records := rec', run_services_to_close := run_services_to_close r @ map sc_id svcs,
          run_activations := run_activations r @ [row]\<rparr>))) = Inr r'"
    by (simp add: process_event_def Let_def text_or_empty_def cong del: if_weak_cong)
  then obtain svcs row rec' where h0: "handle_event_supplier_service_config_activated_one b e ?rec = Inr (svcs, row)"
    "(if svcs = [] then Inr ?rec else update_services operator (put_services svcs) ?rec) = Inr rec'"
    "r' = r\<lparr>run_records := rec', run_services_to_close := run_services_to_close r @ map sc_id svcs,
       run_activations := run_activations r @ [row]\<rparr>"
    by (auto simp: bind_eq_Inr split del: if_split)
  then have h: "handle_event_supplier_service_config_activated_one b e ?rec = Inr (svcs, row)"
    "(if svcs = [] then Inr ?rec else update_services operator (put_services svcs) ?rec) = Inr (run_records r')"
    "run_services_to_close r' = map sc_id svcs"
    using assms(5) by (simp_all split del: if_split)
  obtain r0 where r0: "map_of ?rec operator = Some r0"
    using assms(8) by (cases "map_of ?rec operator") (auto simp: rec_services_def)
  then have eq: "rec_services ?rec operator = sr_services r0" by (simp add: rec_services_def)
  then have mem: "i \<in> fst ` set (sr_services r0)" using assms(8) by simp
  have keyed: "\<forall>(j, s) \<in> set (sr_services r0). sc_id s = j"
    using services_read_rec [OF assms(4), where i = operator, unfolded eq] by blast
  have "\<exists>r1. map_of (run_records r') operator = Some r1 \<and> i \<in> fst ` set (sr_services r1) \<and>
      (\<forall>(j, s) \<in> set (sr_services r1). sc_id s = j)"
  proof (cases "svcs = []")
    case True
    then show ?thesis using h(2) r0 keyed mem by auto
  next
    case False
    then have "run_records r' = dict_set operator (r0\<lparr>sr_services := put_services svcs (sr_services r0)\<rparr>) ?rec"
      using h(2) r0 by (auto simp: update_services_def)
    then show ?thesis using mem put_services_keyed [OF keyed, of svcs] by (simp add: put_services_keys)
  qed
  then show ?thesis
    using saved_service [of "run_records r'" operator _ i] activated_not_active [OF h(1) assms(4,6,7)] h(3)
    by (elim exE conjE) simp
qed

lemma rewrite_two_rows:
  assumes "rewrite_rows ident b es ids t = Inr t'" and "r \<in> set t" and "live r" and "lower r < b"
    and "row_id r \<notin> set ids" and "row_id r \<in> ident ` set es"
  shows "2 \<le> length (filter (\<lambda>x. live x \<and> row_id x = row_id r) t')"
proof -
  define t1 where "t1 = filter (\<lambda>r. lower r \<noteq> b) t"
  define t2 where "t2 = (if ids = [] then t1
    else map (\<lambda>r. if row_id r \<in> set ids \<and> in_range b r then close_row b r else r) t1)"
  have t': "t' = t2 @ map (new_row ident b) es"
  proof -
    have "es \<noteq> []" using assms(6) by auto
    then show ?thesis using assms(1) by (auto simp: rewrite_rows_def Let_def t1_def t2_def kept_by_def)
  qed
  have "r \<in> set t2" using assms(2,4,5) by (force simp: t1_def t2_def)
  then have "0 < length (filter (\<lambda>x. live x \<and> row_id x = row_id r) t2)" using assms(3) by (auto simp: filter_empty_conv)
  moreover have "0 < length (filter (\<lambda>x. live x \<and> row_id x = row_id r) (map (new_row ident b) es))"
    using assms(6) by (auto simp: filter_empty_conv)
  ultimately show ?thesis unfolding t' filter_append length_append by linarith
qed

text \<open>
  C36: the activation event of a supplier inserts a second current row for each of its services that was
  active before: all its services are read and saved, but only the newly activated ones are closed.
\<close>

theorem activation_duplicates_services:
  assumes "index_supplier c host b msgs evs st = Inr st'"
    and "supplier_data msgs evs = [Ev e]" and "ev_type (event e) = activated_type"
    and "event_get_id (attributes (event e)) = Inr (Some (sc_supplier s))"
    and "hist_ok sc_id b (supplier_services st)"
    and "r \<in> set (supplier_services st)" and "live r" and "lower r < b" and "row_data r = s" and "\<not> not_activated s"
  shows "2 \<le> length (filter (\<lambda>x. live x \<and> row_id x = sc_id s) (supplier_services st'))"
proof -
  let ?t = "live_map (supplier_services st)"
  from assms(1,2) obtain ids sids run where run: "collect_one (Ev e) = Inr (ids, sids)"
    "process_event b e (start_run (fetch_supplier_data b ids sids st)) = Inr run"
    "rewrite_rows sc_id b (snd (build_supplier_save_lists (run_records run))) (run_services_to_close run)
      (supplier_services st) = Inr (supplier_services st')"
    by (auto simp: index_supplier_def process_supplier_events_and_messages_def collect_supplier_ids_def
        perform_supplier_database_operations_def Let_def res_eq_Inr case_prod_unfold process_datum_def)
  have sids: "sc_supplier s \<in> set sids"
    using run(1) assms(3,4)
    by (auto simp: collect_one_def get_supplier_event_id_def map_res_eq_Inr list_of_option_def)
  have id: "row_id r = sc_id s" using hist_ok_row [OF assms(5,6)] assms(9) by simp
  have live: "?t (sc_id s) = Some s" using live_map_eq [OF assms(5)] assms(6,7,9) id by blast
  then have "s \<in> set (fetched_services b sids st)" using sids by (simp add: fetched_services_def fetch_all_iff [OF assms(5)])
  then have mem: "sc_id s \<in> fst ` set (rec_services (run_records (start_run (fetch_supplier_data b ids sids st))) (sc_supplier s))"
    by (auto simp: start_run_def fetch_supplier_data_def intro!: rec_services_adds)
  have "services_read ?t (run_records (start_run (fetch_supplier_data b ids sids st)))"
    using fetch_services_read [OF assms(5)] by (simp add: start_run_def)
  from activation_saves [OF run(2) assms(3,4) this _ live assms(10) mem]
  have "sc_id s \<in> sc_id ` set (snd (build_supplier_save_lists (run_records run)))" "sc_id s \<notin> set (run_services_to_close run)"
    by (simp_all add: start_run_def)
  then show ?thesis using rewrite_two_rows [OF run(3) assms(6,7,8)] id by simp
qed

text \<open>A supplier whose unbonding ends keeps its service; an activation duplicates it.\<close>

definition operator_attribute :: attribute where
  "operator_attribute = (''operator_address'', quoted ''p'')"

definition one_event :: "string \<Rightarrow> attribute list \<Rightarrow> string \<Rightarrow> cosmos_event list" where
  "one_event ty as t = (if t = ty then [supplier_event_example 0 KEndBlock None ty as] else [])"

theorem unbonding_end_keeps_services_witness:
  "case index_supplier crypto_example (\<lambda>_. None) 7 (\<lambda>_. [])
      (one_event ''pocket.supplier.EventSupplierUnbondingEnd'' [operator_attribute]) supplier_db_example of
     Inr st' \<Rightarrow> supplier_services st' = supplier_services supplier_db_example \<and>
       map_option su_status (live_map (suppliers st') ''p'') = Some Unstaked
   | Inl _ \<Rightarrow> False"
proof -
  let ?evs = "one_event ''pocket.supplier.EventSupplierUnbondingEnd'' [operator_attribute]"
  let ?run = "index_supplier crypto_example (\<lambda>_. None) 7 (\<lambda>_. []) ?evs supplier_db_example"
  have "case ?run of Inr st' \<Rightarrow> map_option su_status (live_map (suppliers st') ''p'') = Some Unstaked | Inl _ \<Rightarrow> False"
    by code_simp
  then obtain st' where run: "?run = Inr st'" "map_option su_status (live_map (suppliers st') ''p'') = Some Unstaked"
    by (auto split: sum.splits)
  have "\<forall>d \<in> set (supplier_data (\<lambda>_. []) ?evs). \<not> reads_services d" by code_simp
  from unbonding_end_keeps_services [OF run(1) this] show ?thesis using run by simp
qed

theorem activation_duplicates_services_witness:
  "case index_supplier crypto_example (\<lambda>_. None) 7 (\<lambda>_. [])
      (one_event activated_type [operator_attribute, (''activation_height'', quoted ''7'')]) supplier_db_example of
     Inr st' \<Rightarrow> 2 \<le> length (filter (\<lambda>x. live x \<and> row_id x = ''p-eth'') (supplier_services st'))
   | Inl _ \<Rightarrow> False"
proof -
  let ?evs = "one_event activated_type [operator_attribute, (''activation_height'', quoted ''7'')]"
  let ?run = "index_supplier crypto_example (\<lambda>_. None) 7 (\<lambda>_. []) ?evs supplier_db_example"
  let ?e = "supplier_event_example 0 KEndBlock None activated_type [operator_attribute, (''activation_height'', quoted ''7'')]"
  have "case ?run of Inr _ \<Rightarrow> True | Inl _ \<Rightarrow> False" by code_simp
  then obtain st' where run: "?run = Inr st'" by (auto split: sum.splits)
  have data: "supplier_data (\<lambda>_. []) ?evs = [Ev ?e]" by code_simp
  have id: "event_get_id (attributes (event ?e)) = Inr (Some (sc_supplier service_example))"
    and off: "\<not> not_activated service_example" and ok: "hist_ok sc_id 7 (supplier_services supplier_db_example)"
    and row: "new_row sc_id 3 service_example \<in> set (supplier_services supplier_db_example)"
    "live (new_row sc_id 3 service_example)" "lower (new_row sc_id 3 service_example) < 7"
    "row_data (new_row sc_id 3 service_example) = service_example"
    by code_simp+
  have ty: "ev_type (event ?e) = activated_type" by (simp add: supplier_event_example_def)
  from activation_duplicates_services [OF run data ty id ok row off] show ?thesis
    using run by (simp add: service_example_def)
qed

end
