(* ===== verification/StakeGroups.thy ===== *)
theory StakeGroups
  imports Primitives Prelude Suppliers SupplierIndex "HOL-Library.List_Lexorder" "HOL-Library.Char_ord"
begin

text \<open>
  The grouping of stake data in \<open>src/mappings/indexer.manager.ts\<close>: \<open>groupConnectedComponents\<close> and the
  part of \<open>indexStakeEntity\<close> that decides which messages and events are handled one after the other.
  Data of different groups are handled in parallel, so two data that may write the same entity have to
  be in one group. The recursion of the depth-first search is a list of the nodes still to visit: the
  neighbours of a node come before the rest, as its loop visits them before it returns.
\<close>

subsection \<open>Connected components\<close>

type_synonym adjacency = "(string \<times> string list) list"

definition neighbours :: "adjacency \<Rightarrow> string \<Rightarrow> string list" where
  "neighbours adj i = (case map_of adj i of None \<Rightarrow> [] | Some ns \<Rightarrow> ns)"

definition add_group :: "adjacency \<Rightarrow> string list \<Rightarrow> adjacency" where
  "add_group adj items = foldl (\<lambda>adj item.
     dict_set item (foldl (\<lambda>ns other. if item \<noteq> other then add_unique other ns else ns) (neighbours adj item) items) adj)
     adj items"

definition adjacency_list :: "string list list \<Rightarrow> adjacency" where
  "adjacency_list arrays = foldl add_group [] arrays"

lemma neighbours_key: "neighbours adj i \<noteq> [] \<Longrightarrow> i \<in> fst ` set adj"
  by (auto simp: neighbours_def split: option.splits dest: map_of_SomeD)

text \<open>
  The search ends: a node is new at most once, and one without neighbours makes the list of nodes shorter.
\<close>

function dfs :: "adjacency \<Rightarrow> string list \<Rightarrow> string list \<Rightarrow> string list \<Rightarrow> string list \<times> string list" where
  "dfs adj [] visited component = (visited, component)"
| "dfs adj (node # rest) visited component =
     (if node \<in> set visited then dfs adj rest visited component
      else dfs adj (neighbours adj node @ rest) (visited @ [node]) (component @ [node]))"
  by pat_completeness auto

termination
proof (relation "measures [\<lambda>(adj, _, visited, _). card (fst ` set adj - set visited), \<lambda>(_, work, _, _). length work]")
  fix adj :: adjacency and node and rest visited component :: "string list"
  assume new: "node \<notin> set visited"
  show "((adj, neighbours adj node @ rest, visited @ [node], component @ [node]), (adj, node # rest, visited, component)) \<in>
    measures [\<lambda>(adj, _, visited, _). card (fst ` set adj - set visited), \<lambda>(_, work, _, _). length work]"
  proof (cases "node \<in> fst ` set adj")
    case True
    then have "fst ` set adj - insert node (set visited) \<subset> fst ` set adj - set visited" using new by blast
    then have "card (fst ` set adj - insert node (set visited)) < card (fst ` set adj - set visited)"
      by (rule psubset_card_mono [rotated]) simp
    then show ?thesis by simp
  next
    case False
    then have "neighbours adj node = []" using neighbours_key by blast
    moreover have "fst ` set adj - insert node (set visited) = fst ` set adj - set visited" using False by blast
    ultimately show ?thesis by simp
  qed
qed simp_all

definition component_of :: "adjacency \<Rightarrow> string list \<times> string list list \<Rightarrow> string \<Rightarrow> string list \<times> string list list" where
  "component_of adj = (\<lambda>(visited, result) node.
     if node \<in> set visited then (visited, result)
     else let (visited', component) = dfs adj [node] visited [] in (visited', result @ [sort component]))"

definition group_connected_components :: "string list list \<Rightarrow> string list list" where
  "group_connected_components arrays =
     (let adj = adjacency_list arrays in snd (foldl (component_of adj) ([], []) (map fst adj)))"

subsection \<open>Groups of data\<close>

text \<open>What a getter of \<open>RecordGetId\<close> answers: nothing, one id or several.\<close>

datatype entity_ids = NoId | OneId string | ManyIds "string list"

record stake_data =
  finalized_events :: "cosmos_event list"
  non_finalized :: "datum list"

definition no_data :: stake_data where
  "no_data = \<lparr>finalized_events = [], non_finalized = []\<rparr>"

definition data_at :: "(string \<times> stake_data) list \<Rightarrow> string \<Rightarrow> stake_data" where
  "data_at d i = (case map_of d i of None \<Rightarrow> no_data | Some x \<Rightarrow> x)"

text \<open>The key of a datum, and the ids it connects.\<close>

definition event_entity ::
  "(string \<Rightarrow> (attribute list \<Rightarrow> entity_ids res) option) \<Rightarrow> event_body \<Rightarrow> (string \<times> string list option) res" where
  "event_entity ids e =
     bind_res (require (''getIdFromEventAttribute not found for event type '' @ ev_type e) (ids (ev_type e))) (\<lambda>get.
     bind_res (get (attributes e)) (\<lambda>i. case i of
         NoId \<Rightarrow> throw (''entityId not found for event type '' @ ev_type e)
       | OneId i \<Rightarrow> if i = [] then throw (''entityId not found for event type '' @ ev_type e)
           else Inr (strip_quotes i, None)
       | ManyIds [] \<Rightarrow> throw ''TypeError: undefined''
       | ManyIds (i # is) \<Rightarrow> Inr (strip_quotes i, Some (i # is))))"

definition datum_entity ::
  "(string \<Rightarrow> (attribute list \<Rightarrow> entity_ids res) option) \<Rightarrow> (string \<Rightarrow> (decoded_msg \<Rightarrow> string) option) \<Rightarrow>
   datum \<Rightarrow> (string \<times> string list option) res" where
  "datum_entity ids paths d = (case d of
     Ev e \<Rightarrow> event_entity ids (event e)
   | Ms m \<Rightarrow> map_res (\<lambda>path. (path (decoded m), None))
       (require (''getIdFromEventAttribute not found for msg type '' @ type_url m) (paths (type_url m))))"

definition add_datum :: "datum \<Rightarrow> stake_data \<Rightarrow> stake_data" where
  "add_datum d x = (case d of
     Ev e \<Rightarrow> if is_event_of_finalized_block_kind e then x\<lparr>finalized_events := finalized_events x @ [e]\<rparr>
       else x\<lparr>non_finalized := non_finalized x @ [d]\<rparr>
   | Ms _ \<Rightarrow> x\<lparr>non_finalized := non_finalized x @ [d]\<rparr>)"

definition collect_datum ::
  "(string \<Rightarrow> (attribute list \<Rightarrow> entity_ids res) option) \<Rightarrow> (string \<Rightarrow> (decoded_msg \<Rightarrow> string) option) \<Rightarrow>
   string list list \<times> (string \<times> stake_data) list \<Rightarrow> datum \<Rightarrow> (string list list \<times> (string \<times> stake_data) list) res" where
  "collect_datum ids paths = (\<lambda>(connected, byid) d. map_res (\<lambda>(i, conn).
      (connected @ list_of_option conn, dict_set i (add_datum d (data_at byid i)) byid)) (datum_entity ids paths d))"

definition merge_component :: "(string \<times> stake_data) list \<Rightarrow> string list \<Rightarrow> (string \<times> stake_data) list" where
  "merge_component byid c = dict_set (join (CHR ''-'') c)
     \<lparr>finalized_events = concat (map (\<lambda>i. finalized_events (data_at byid i)) c),
      non_finalized = concat (map (\<lambda>i. non_finalized (data_at byid i)) c)\<rparr>
     (foldl (\<lambda>d i. dict_del i d) byid c)"

definition group_order :: "stake_data \<Rightarrow> datum list" where
  "group_order x = sort_key datum_key (non_finalized x) @ map Ev (sort_key event_idx (finalized_events x))"

text \<open>The groups: the data of each are handled in the given order, one after the other.\<close>

definition stake_groups ::
  "(string \<Rightarrow> (attribute list \<Rightarrow> entity_ids res) option) \<Rightarrow> (string \<Rightarrow> (decoded_msg \<Rightarrow> string) option) \<Rightarrow>
   datum list \<Rightarrow> (string \<times> datum list) list res" where
  "stake_groups ids paths all =
     map_res (\<lambda>(connected, byid). map (\<lambda>(i, x). (i, group_order x))
         (foldl merge_component byid (group_connected_components connected)))
       (foldM_res (collect_datum ids paths) ([], []) (successful_data all))"

subsection \<open>The components are the classes of the connected items\<close>

definition linked :: "string list list \<Rightarrow> string \<Rightarrow> string \<Rightarrow> bool" where
  "linked arrays x y \<longleftrightarrow> (\<exists>g \<in> set arrays. x \<in> set g \<and> y \<in> set g)"

definition adjacent :: "adjacency \<Rightarrow> string \<Rightarrow> string \<Rightarrow> bool" where
  "adjacent adj x y \<longleftrightarrow> y \<in> set (neighbours adj x)"

lemma neighbours_set [simp]: "neighbours (dict_set i ns adj) j = (if j = i then ns else neighbours adj j)"
  by (simp add: neighbours_def)

lemma set_add_others:
  "set (foldl (\<lambda>ns other. if item \<noteq> other then add_unique other ns else ns) ns os) = set ns \<union> (set os - {item})"
  by (induction os arbitrary: ns) auto

lemma add_items:
  fixes items :: "string list" and adj :: adjacency
  defines "f \<equiv> \<lambda>adj item. dict_set item
    (foldl (\<lambda>ns other. if item \<noteq> other then add_unique other ns else ns) (neighbours adj item) items) adj"
  shows "set (neighbours (foldl f adj xs) x) =
      set (neighbours adj x) \<union> (if x \<in> set xs then set items - {x} else {})"
    and "fst ` set (foldl f adj xs) = fst ` set adj \<union> set xs" and "dict_ok adj \<Longrightarrow> dict_ok (foldl f adj xs)"
  by (induction xs arbitrary: adj) (auto simp: f_def set_add_others keys_dict_set)

lemma add_group_simps [simp]:
  "set (neighbours (add_group adj g) x) = set (neighbours adj x) \<union> (if x \<in> set g then set g - {x} else {})"
  "fst ` set (add_group adj g) = fst ` set adj \<union> set g" "dict_ok adj \<Longrightarrow> dict_ok (add_group adj g)"
  using add_items [where adj = adj and items = g and xs = g] by (simp_all add: add_group_def)

lemma adjacency_list_from:
  "set (neighbours (foldl add_group adj arrays) x) =
     set (neighbours adj x) \<union> {y. y \<noteq> x \<and> linked arrays x y} \<and>
   fst ` set (foldl add_group adj arrays) = fst ` set adj \<union> \<Union> (set ` set arrays) \<and>
   (dict_ok adj \<longrightarrow> dict_ok (foldl add_group adj arrays))"
  by (induction arrays arbitrary: adj) (auto simp: linked_def)

lemma adjacency_list_adjacent: "adjacent (adjacency_list arrays) x y \<longleftrightarrow> y \<noteq> x \<and> linked arrays x y"
proof -
  have "neighbours [] x = []" by (simp add: neighbours_def)
  then show ?thesis using adjacency_list_from [of "[]" arrays x] by (simp add: adjacent_def adjacency_list_def)
qed

lemma adjacency_list_keys: "set (map fst (adjacency_list arrays)) = \<Union> (set ` set arrays)"
  using adjacency_list_from [of "[]" arrays] by (simp add: adjacency_list_def)

lemma adjacent_linked: "(adjacent (adjacency_list arrays))\<^sup>*\<^sup>* = (linked arrays)\<^sup>*\<^sup>*"
proof -
  have "(adjacent (adjacency_list arrays))\<^sup>=\<^sup>= = (linked arrays)\<^sup>=\<^sup>="
    by (auto simp: adjacency_list_adjacent fun_eq_iff)
  then show ?thesis by (metis rtranclp_reflclp)
qed

lemma linked_sym: "linked arrays x y \<Longrightarrow> linked arrays y x"
  by (auto simp: linked_def)

lemma linked_star_sym: "(linked arrays)\<^sup>*\<^sup>* x y \<Longrightarrow> (linked arrays)\<^sup>*\<^sup>* y x"
  using linked_sym by (metis (no_types) symp_def symp_rtranclp)

text \<open>A search visits what its nodes reach, each once, and everything next to what it visits.\<close>

lemma dfs_spec:
  "dfs adj work visited component = (visited', component') \<Longrightarrow>
     \<exists>new. visited' = visited @ new \<and> component' = component @ new \<and> distinct new \<and>
       set new \<inter> set visited = {} \<and> set work \<subseteq> set visited' \<and>
       (\<forall>x \<in> set new. (\<exists>w \<in> set work. (adjacent adj)\<^sup>*\<^sup>* w x) \<and> set (neighbours adj x) \<subseteq> set visited')"
proof (induction adj work visited component rule: dfs.induct)
  case (1 adj visited component)
  then show ?case by simp
next
  case (2 adj node rest visited component)
  show ?case
  proof (cases "node \<in> set visited")
    case True
    then show ?thesis using 2 by fastforce
  next
    case False
    then obtain new where new: "visited' = (visited @ [node]) @ new" "component' = (component @ [node]) @ new"
      "distinct new" "set new \<inter> set (visited @ [node]) = {}" "set (neighbours adj node @ rest) \<subseteq> set visited'"
      "\<And>x. x \<in> set new \<Longrightarrow> (\<exists>w \<in> set (neighbours adj node @ rest). (adjacent adj)\<^sup>*\<^sup>* w x) \<and>
        set (neighbours adj x) \<subseteq> set visited'"
      using 2 by (auto split: if_splits)
    have "\<exists>w \<in> set (node # rest). (adjacent adj)\<^sup>*\<^sup>* w x" if x: "x \<in> set new" for x
    proof -
      obtain w where "w \<in> set (neighbours adj node @ rest)" "(adjacent adj)\<^sup>*\<^sup>* w x" using new(6) [OF x] by blast
      then show ?thesis by (auto simp: adjacent_def intro: converse_rtranclp_into_rtranclp)
    qed
    with new False show ?thesis by (intro exI [of _ "node # new"]) auto
  qed
qed

text \<open>What the loop over the nodes keeps: the components so far are classes, and nothing leads out of them.\<close>

definition classes :: "adjacency \<Rightarrow> string list \<times> string list list \<Rightarrow> bool" where
  "classes adj = (\<lambda>(visited, result). set visited = set (concat result) \<and> distinct (concat result) \<and> [] \<notin> set result \<and>
     (\<forall>x \<in> set visited. set (neighbours adj x) \<subseteq> set visited) \<and>
     (\<forall>c \<in> set result. \<forall>x \<in> set c. set c = {y. (adjacent adj)\<^sup>*\<^sup>* x y}))"

lemma closed_star:
  assumes "\<forall>x \<in> S. set (neighbours adj x) \<subseteq> S" and "(adjacent adj)\<^sup>*\<^sup>* x y" and "x \<in> S"
  shows "y \<in> S"
  using assms(2,3) by (induction rule: rtranclp_induct) (use assms(1) in \<open>auto simp: adjacent_def\<close>)

lemma component_of_classes:
  assumes "classes adj (visited, result)" and sym: "\<And>x y. (adjacent adj)\<^sup>*\<^sup>* x y \<Longrightarrow> (adjacent adj)\<^sup>*\<^sup>* y x"
    and "component_of adj (visited, result) node = (visited', result')"
  shows "classes adj (visited', result') \<and> set visited \<subseteq> set visited' \<and> node \<in> set visited'"
proof (cases "node \<in> set visited")
  case True
  then show ?thesis using assms by (simp add: component_of_def)
next
  case False
  obtain component where d: "dfs adj [node] visited [] = (visited', component)" "result' = result @ [sort component]"
    using assms(3) False by (auto simp: component_of_def split: prod.splits)
  obtain new0 where "visited' = visited @ new0" "component = [] @ new0" "distinct new0"
    "set new0 \<inter> set visited = {}" "set [node] \<subseteq> set visited'"
    "\<forall>x \<in> set new0. (\<exists>w \<in> set [node]. (adjacent adj)\<^sup>*\<^sup>* w x) \<and> set (neighbours adj x) \<subseteq> set visited'"
    using dfs_spec [OF d(1)] by blast
  then have new: "visited' = visited @ component" "distinct component"
    "set component \<inter> set visited = {}" "node \<in> set visited'"
    "\<And>x. x \<in> set component \<Longrightarrow> (adjacent adj)\<^sup>*\<^sup>* node x \<and> set (neighbours adj x) \<subseteq> set visited'"
    by simp_all
  have old: "set visited = set (concat result)" "distinct (concat result)" "[] \<notin> set result"
    "\<forall>x \<in> set visited. set (neighbours adj x) \<subseteq> set visited"
    "\<And>c x. c \<in> set result \<Longrightarrow> x \<in> set c \<Longrightarrow> set c = {y. (adjacent adj)\<^sup>*\<^sup>* x y}"
    using assms(1) unfolding classes_def split_conv by blast+
  have closed: "\<forall>x \<in> set visited'. set (neighbours adj x) \<subseteq> set visited'" using old(4) new(1,5) by auto
  have node: "set component = {y. (adjacent adj)\<^sup>*\<^sup>* node y}"
  proof (intro set_eqI iffI CollectI)
    fix y
    assume "y \<in> {y. (adjacent adj)\<^sup>*\<^sup>* node y}"
    then have y: "(adjacent adj)\<^sup>*\<^sup>* node y" by simp
    have "y \<in> set visited'" using closed_star [OF closed y new(4)] .
    moreover have "y \<notin> set visited" using closed_star [OF old(4) sym [OF y]] False by blast
    ultimately show "y \<in> set component" using new(1) by simp
  qed (use new(5) in blast)
  have "set component = {y. (adjacent adj)\<^sup>*\<^sup>* x y}" if "x \<in> set component" for x
    using that sym unfolding node by (auto intro: rtranclp_trans)
  moreover have "component \<noteq> []" using node by force
  then have "sort component \<noteq> []" by (metis set_empty set_sort)
  ultimately show ?thesis
    using old new closed d(2) by (auto simp: classes_def)
qed

lemma components_classes:
  assumes "classes adj vr" and sym: "\<And>x y. (adjacent adj)\<^sup>*\<^sup>* x y \<Longrightarrow> (adjacent adj)\<^sup>*\<^sup>* y x"
  shows "classes adj (foldl (component_of adj) vr ns) \<and> set (fst vr) \<union> set ns \<subseteq> set (fst (foldl (component_of adj) vr ns))"
  using assms(1)
proof (induction ns arbitrary: vr)
  case Nil
  then show ?case by simp
next
  case (Cons n ns)
  have step: "classes adj (component_of adj vr n) \<and> set (fst vr) \<subseteq> set (fst (component_of adj vr n)) \<and> n \<in> set (fst (component_of adj vr n))"
    using component_of_classes [OF _ sym, where visited = "fst vr" and result = "snd vr" and node = n] Cons.prems
    by (metis prod.collapse)
  then show ?case using Cons.IH [of "component_of adj vr n"] by auto
qed

lemma components_within:
  assumes "\<forall>x \<in> S. set (neighbours adj x) \<subseteq> S" and "set (fst vr) \<subseteq> S" and "set ns \<subseteq> S"
  shows "set (fst (foldl (component_of adj) vr ns)) \<subseteq> S"
  using assms(2,3)
proof (induction ns arbitrary: vr)
  case Nil
  then show ?case by simp
next
  case (Cons n ns)
  have "set (fst (component_of adj vr n)) \<subseteq> S"
  proof (cases "n \<in> set (fst vr)")
    case True
    then show ?thesis using Cons.prems(1) by (simp add: component_of_def case_prod_unfold)
  next
    case False
    obtain visited' component where d: "dfs adj [n] (fst vr) [] = (visited', component)" by force
    then obtain new where "visited' = fst vr @ new" "\<forall>x \<in> set new. \<exists>w \<in> set [n]. (adjacent adj)\<^sup>*\<^sup>* w x"
      using dfs_spec [OF d] by blast
    then have "set visited' \<subseteq> S" using closed_star [OF assms(1)] Cons.prems by auto
    then show ?thesis using False d by (simp add: component_of_def case_prod_unfold)
  qed
  then show ?case using Cons by simp
qed

lemma group_classes:
  fixes arrays
  defines "comps \<equiv> group_connected_components arrays"
  shows "distinct (concat comps)" "set (concat comps) = \<Union> (set ` set arrays)" "[] \<notin> set comps"
    "\<And>c x. c \<in> set comps \<Longrightarrow> x \<in> set c \<Longrightarrow> set c = {y. (linked arrays)\<^sup>*\<^sup>* x y}"
proof -
  let ?adj = "adjacency_list arrays"
  define vr where "vr = foldl (component_of ?adj) ([], []) (map fst ?adj)"
  have sym: "(adjacent ?adj)\<^sup>*\<^sup>* x y \<Longrightarrow> (adjacent ?adj)\<^sup>*\<^sup>* y x" for x y
    unfolding adjacent_linked by (rule linked_star_sym)
  have "classes ?adj ([], [])" by (simp add: classes_def)
  from components_classes [OF this sym, of "map fst ?adj"]
  have ok: "classes ?adj vr" and all: "\<Union> (set ` set arrays) \<subseteq> set (fst vr)"
    unfolding vr_def [symmetric] adjacency_list_keys by auto
  have comps: "comps = snd vr" by (simp add: comps_def group_connected_components_def vr_def Let_def)
  have "\<forall>x \<in> \<Union> (set ` set arrays). set (neighbours ?adj x) \<subseteq> \<Union> (set ` set arrays)"
    using adjacency_list_adjacent [of arrays] by (auto simp: adjacent_def linked_def)
  from components_within [OF this, of "([], [])" "map fst ?adj"] have "set (fst vr) \<subseteq> \<Union> (set ` set arrays)"
    unfolding vr_def [symmetric] adjacency_list_keys by simp
  moreover have "set (fst vr) = set (concat comps)"
    using ok unfolding comps classes_def by (cases vr) fastforce
  ultimately show "set (concat comps) = \<Union> (set ` set arrays)" using all by blast
  show "distinct (concat comps)" "[] \<notin> set comps"
    "\<And>c x. c \<in> set comps \<Longrightarrow> x \<in> set c \<Longrightarrow> set c = {y. (linked arrays)\<^sup>*\<^sup>* x y}"
    using ok unfolding comps classes_def adjacent_linked by (cases vr, fastforce)+
qed

text \<open>
  C14: the components partition the connected ids: every id of a group is in exactly one component, and
  the component of an id is everything it is connected to through a chain of groups.
\<close>

theorem group_connected_components_spec:
  "let comps = group_connected_components arrays in
   distinct (concat comps) \<and> set (concat comps) = \<Union> (set ` set arrays) \<and> [] \<notin> set comps \<and>
   (\<forall>c \<in> set comps. \<forall>x \<in> set c. set c = {y. (linked arrays)\<^sup>*\<^sup>* x y})"
  unfolding Let_def using group_classes [where arrays = arrays] by blast

theorem group_connected_components_spec_witness:
  "group_connected_components [[''a'', ''b''], [''d''], [''c'', ''b'']] = [[''a'', ''b'', ''c''], [''d'']] \<and>
   {y. (linked [[''a'', ''b''], [''d''], [''c'', ''b'']])\<^sup>*\<^sup>* ''a'' y} = {''a'', ''b'', ''c''}"
proof -
  let ?arrays = "[[''a'', ''b''], [''d''], [''c'', ''b'']]"
  have run: "group_connected_components ?arrays = [[''a'', ''b'', ''c''], [''d'']]" by code_simp
  have "\<forall>c \<in> set (group_connected_components ?arrays). \<forall>x \<in> set c. set c = {y. (linked ?arrays)\<^sup>*\<^sup>* x y}"
    using group_connected_components_spec [of ?arrays] unfolding Let_def by blast
  then show ?thesis using run by simp
qed

end
