(* ===== verification/StakePlan.thy ===== *)
theory StakePlan
  imports StakeGroups SupplierFacts
begin

text \<open>
  What the groups of \<open>indexStakeEntity\<close> guarantee: every successful datum is handled exactly once, the
  data of a group in the order of the chain, and data that touch a common entity are in one group.
\<close>

subsection \<open>Collecting the data\<close>

definition entity_of ::
  "(string \<Rightarrow> (attribute list \<Rightarrow> entity_ids res) option) \<Rightarrow> (string \<Rightarrow> (decoded_msg \<Rightarrow> string) option) \<Rightarrow> datum \<Rightarrow> string" where
  "entity_of ids paths d = (case datum_entity ids paths d of Inr (i, _) \<Rightarrow> i | Inl _ \<Rightarrow> [])"

definition connects ::
  "(string \<Rightarrow> (attribute list \<Rightarrow> entity_ids res) option) \<Rightarrow> (string \<Rightarrow> (decoded_msg \<Rightarrow> string) option) \<Rightarrow> datum \<Rightarrow> string list" where
  "connects ids paths d = (case datum_entity ids paths d of Inr (_, Some is) \<Rightarrow> is | _ \<Rightarrow> [])"

text \<open>The entities a datum may write.\<close>

definition touches ::
  "(string \<Rightarrow> (attribute list \<Rightarrow> entity_ids res) option) \<Rightarrow> (string \<Rightarrow> (decoded_msg \<Rightarrow> string) option) \<Rightarrow> datum \<Rightarrow> string set" where
  "touches ids paths d = insert (entity_of ids paths d) (set (connects ids paths d))"

definition data_of :: "datum list \<Rightarrow> stake_data" where
  "data_of ds = foldl (\<lambda>x d. add_datum d x) no_data ds"

lemma data_of_snoc: "data_of (ds @ [d]) = add_datum d (data_of ds)"
  by (simp add: data_of_def)

lemma data_of_Nil [simp]: "data_of [] = no_data"
  by (simp add: data_of_def)

lemma data_of_lists:
  "non_finalized (data_of ds) = filter (\<lambda>d. \<not> is_finalized d) ds \<and>
   map Ev (finalized_events (data_of ds)) = filter is_finalized ds"
  by (induction ds rule: rev_induct)
    (auto simp: data_of_snoc no_data_def add_datum_def is_finalized_def split: datum.splits)

lemma collect_data:
  assumes "foldM_res (collect_datum ids paths) ([], []) ds = Inr (conn, byid)"
  shows "dict_ok byid \<and> set (map fst byid) = entity_of ids paths ` set ds \<and>
    (\<forall>i. data_at byid i = data_of (filter (\<lambda>d. entity_of ids paths d = i) ds)) \<and>
    set conn = {connects ids paths d |d. d \<in> set ds \<and> connects ids paths d \<noteq> []}"
  using assms
proof (induction ds arbitrary: conn byid rule: rev_induct)
  case Nil
  then show ?case by (simp add: data_at_def)
next
  case (snoc d ds)
  from snoc.prems obtain conn0 byid0 i c where
    before: "foldM_res (collect_datum ids paths) ([], []) ds = Inr (conn0, byid0)"
    and d: "datum_entity ids paths d = Inr (i, c)"
    and now: "conn = conn0 @ list_of_option c" "byid = dict_set i (add_datum d (data_at byid0 i)) byid0"
    by (auto simp: foldM_res_append bind_eq_Inr collect_datum_def map_res_eq_Inr)
  have i: "entity_of ids paths d = i" and c: "set (list_of_option c) = {is. is = connects ids paths d \<and> is \<noteq> []}"
  proof -
    show "entity_of ids paths d = i" by (simp add: entity_of_def d)
    have "event_entity ids e \<noteq> Inr (i, Some [])" for e
    proof
      assume "event_entity ids e = Inr (i, Some [])"
      then obtain a where "(case a of NoId \<Rightarrow> throw (''entityId not found for event type '' @ ev_type e)
         | OneId i \<Rightarrow> if i = [] then throw (''entityId not found for event type '' @ ev_type e) else Inr (strip_quotes i, None)
         | ManyIds [] \<Rightarrow> throw ''TypeError: undefined''
         | ManyIds (i # is) \<Rightarrow> Inr (strip_quotes i, Some (i # is))) = Inr (i, Some [])"
        unfolding event_entity_def bind_eq_Inr by blast
      then show False by (cases a) (auto split: if_splits list.splits)
    qed
    then have "c \<noteq> Some []"
      using d by (auto simp: datum_entity_def map_res_eq_Inr split: datum.splits)
    then show "set (list_of_option c) = {is. is = connects ids paths d \<and> is \<noteq> []}"
      by (auto simp: connects_def d list_of_option_def split: option.split)
  qed
  have "data_at byid j = data_of (filter (\<lambda>d. entity_of ids paths d = j) (ds @ [d]))" for j
    using snoc.IH [OF before] by (auto simp: now(2) i data_at_def data_of_snoc)
  moreover have "set (map fst byid) = entity_of ids paths ` set (ds @ [d])"
    using snoc.IH [OF before] i by (simp add: now(2) keys_dict_set)
  moreover have "set conn = {connects ids paths d' |d'. d' \<in> set (ds @ [d]) \<and> connects ids paths d' \<noteq> []}"
    using snoc.IH [OF before] c by (auto simp: now(1))
  ultimately show ?case using snoc.IH [OF before] by (simp add: now(2))
qed

subsection \<open>Merging the components\<close>

definition merged :: "(string \<times> stake_data) list \<Rightarrow> string list \<Rightarrow> stake_data" where
  "merged byid c = \<lparr>finalized_events = concat (map (\<lambda>i. finalized_events (data_at byid i)) c),
     non_finalized = concat (map (\<lambda>i. non_finalized (data_at byid i)) c)\<rparr>"

lemma dict_del_all: "foldl (\<lambda>d i. dict_del i d) byid c = filter (\<lambda>(k, _). k \<notin> set c) byid"
  by (induction c arbitrary: byid) (auto simp: dict_del_def intro!: filter_cong)

lemma dict_set_fresh: "k \<notin> set (map fst d) \<Longrightarrow> dict_set k v d = d @ [(k, v)]"
  by (induction k v d rule: dict_set.induct) auto

definition dashless :: "string \<Rightarrow> bool" where
  "dashless s \<longleftrightarrow> CHR ''-'' \<notin> set s"

lemma join_dashless:
  assumes "c \<noteq> []" and "list_all dashless c" and "dashless i" and "join (CHR ''-'') c = i"
  shows "c = [i]"
proof -
  have "split_on (CHR ''-'') i = c" using split_on_join [of c "CHR ''-''"] assms by (simp add: dashless_def list_all_iff)
  then show ?thesis using split_on_none [of "CHR ''-''" i] assms(3) by (simp add: dashless_def)
qed

lemma join_inject:
  "c \<noteq> [] \<Longrightarrow> list_all dashless c \<Longrightarrow> c' \<noteq> [] \<Longrightarrow> list_all dashless c' \<Longrightarrow>
     join (CHR ''-'') c = join (CHR ''-'') c' \<Longrightarrow> c = c'"
  by (metis dashless_def list_all_cong split_on_join)

definition components_ok :: "string list list \<Rightarrow> bool" where
  "components_ok cs \<longleftrightarrow> distinct (concat cs) \<and> [] \<notin> set cs \<and> (\<forall>c \<in> set cs. list_all dashless c)"

abbreviation merged_entries :: "(string \<times> stake_data) list \<Rightarrow> string list list \<Rightarrow> (string \<times> stake_data) list" where
  "merged_entries byid cs \<equiv> map (\<lambda>c. (join (CHR ''-'') c, merged byid c)) cs"

lemma components_snoc:
  assumes "components_ok (cs @ [c])"
  shows "components_ok cs" "c \<noteq> []" "list_all dashless c" "set c \<inter> set (concat cs) = {}" "c \<notin> set cs"
  using assms by (auto simp: components_ok_def) (cases c; auto)

text \<open>The joined ids of earlier components are not in a later one, which therefore still finds its own data.\<close>

lemma joined_id_apart:
  assumes "components_ok (cs @ [c])" "c' \<in> set cs"
  shows "join (CHR ''-'') c' \<notin> set c"
proof
  let ?j = "join (CHR ''-'') c'"
  assume j: "?j \<in> set c"
  then have "c' = [?j]"
    using assms components_snoc [OF assms(1)] by (intro join_dashless) (auto simp: components_ok_def list_all_iff)
  then have "?j \<in> set (concat cs)" using assms(2) by (metis UN_I list.set_intros(1) set_concat)
  then show False using j components_snoc(4) [OF assms(1)] by blast
qed

lemma data_at_merged:
  assumes "components_ok (cs @ [c])" "i \<in> set c"
  shows "data_at (filter (\<lambda>(k, _). k \<notin> set (concat cs)) byid @ merged_entries byid cs) i = data_at byid i"
proof -
  have "i \<notin> fst ` set (merged_entries byid cs)" using joined_id_apart [OF assms(1)] assms(2) by force
  then have "map_of (merged_entries byid cs) i = None" by (simp add: map_of_eq_None_iff)
  moreover have "map_of (filter (\<lambda>(k, _). k \<notin> set (concat cs)) byid) i = map_of byid i"
    using assms(2) components_snoc(4) [OF assms(1)] by (induction byid) auto
  ultimately show ?thesis by (simp add: data_at_def map_add_def split: option.split)
qed

lemma merged_merged:
  assumes "components_ok (cs @ [c])"
  shows "merged (filter (\<lambda>(k, _). k \<notin> set (concat cs)) byid @ merged_entries byid cs) c = merged byid c"
    (is "merged ?F c = _")
proof -
  have "map (\<lambda>i. f (data_at ?F i)) c = map (\<lambda>i. f (data_at byid i)) c" for f :: "stake_data \<Rightarrow> 'b list"
    by (rule map_cong [OF refl], rule arg_cong [where f = f], rule data_at_merged [OF assms])
  then show ?thesis unfolding merged_def by metis
qed

lemma joined_id_fresh:
  assumes "components_ok (cs @ [c])" "\<forall>k \<in> set (map fst byid). dashless k"
  shows "join (CHR ''-'') c \<notin> set (map fst (filter (\<lambda>(k, _). k \<notin> set (concat (cs @ [c]))) byid @ merged_entries byid cs))"
proof
  let ?j = "join (CHR ''-'') c"
  assume "?j \<in> set (map fst (filter (\<lambda>(k, _). k \<notin> set (concat (cs @ [c]))) byid @ merged_entries byid cs))"
  then consider x where "(?j, x) \<in> set byid" "?j \<notin> set c" | c' where "c' \<in> set cs" "?j = join (CHR ''-'') c'"
    by auto
  then show False
  proof cases
    case 1
    then have "dashless ?j" using assms(2) by force
    then have "c = [?j]" using components_snoc [OF assms(1)] by (intro join_dashless) simp_all
    then show False using 1(2) by (metis list.set_intros(1))
  next
    case 2
    then show False using join_inject [of c c'] components_snoc [OF assms(1)] by (auto simp: components_ok_def)
  qed
qed

lemma merge_components:
  assumes "components_ok cs" and "\<forall>k \<in> set (map fst byid). dashless k"
  shows "foldl merge_component byid cs = filter (\<lambda>(k, _). k \<notin> set (concat cs)) byid @ merged_entries byid cs"
  using assms
proof (induction cs rule: rev_induct)
  case Nil
  then show ?case by (simp add: filter_True case_prod_unfold)
next
  case (snoc c cs)
  let ?F = "filter (\<lambda>(k, _). k \<notin> set (concat cs)) byid @ merged_entries byid cs"
  let ?G = "filter (\<lambda>(k, _). k \<notin> set (concat (cs @ [c]))) byid @ merged_entries byid cs"
  have "filter (\<lambda>(k, _). k \<notin> set c) (merged_entries byid cs) = merged_entries byid cs"
    by (rule filter_True) (use joined_id_apart [OF snoc.prems(1)] in auto)
  moreover have "filter (\<lambda>(k, _). k \<notin> set c) (filter (\<lambda>(k, _). k \<notin> set (concat cs)) byid) =
      filter (\<lambda>(k, _). k \<notin> set (concat (cs @ [c]))) byid"
    unfolding filter_filter by (rule filter_cong) auto
  ultimately have del: "filter (\<lambda>(k, _). k \<notin> set c) ?F = ?G" by (simp only: filter_append)
  have "foldl merge_component byid (cs @ [c]) = merge_component ?F c"
    using snoc.IH [OF components_snoc(1) [OF snoc.prems(1)] snoc.prems(2)] by simp
  also have "\<dots> = ?G @ [(join (CHR ''-'') c, merged byid c)]"
    unfolding merge_component_def dict_del_all merged_def [symmetric] merged_merged [OF snoc.prems(1)] del
    by (rule dict_set_fresh [OF joined_id_fresh [OF snoc.prems]])
  finally show ?case by (simp only: map_append list.map append_assoc)
qed

subsection \<open>The groups\<close>

lemma mset_by_key:
  "distinct ks \<Longrightarrow> f ` set ds \<subseteq> set ks \<Longrightarrow> mset (concat (map (\<lambda>k. filter (\<lambda>d. f d = k) ds) ks)) = mset ds"
proof (induction ks arbitrary: ds)
  case Nil
  then show ?case by simp
next
  case (Cons k ks)
  have "mset (concat (map (\<lambda>j. filter (\<lambda>d. f d = j) (filter (\<lambda>d. f d \<noteq> k) ds)) ks)) = mset (filter (\<lambda>d. f d \<noteq> k) ds)"
    using Cons.prems by (intro Cons.IH) auto
  moreover have "map (\<lambda>j. filter (\<lambda>d. f d = j) (filter (\<lambda>d. f d \<noteq> k) ds)) ks = map (\<lambda>j. filter (\<lambda>d. f d = j) ds) ks"
    using Cons.prems(1) by (auto intro!: filter_cong)
  ultimately have "mset (concat (map (\<lambda>j. filter (\<lambda>d. f d = j) ds) ks)) = mset (filter (\<lambda>d. f d \<noteq> k) ds)"
    by (simp only:)
  moreover have "mset (filter (\<lambda>d. f d = k) ds) + mset (filter (\<lambda>d. f d \<noteq> k) ds) = mset ds"
    using multiset_partition [of "mset ds" "\<lambda>d. f d = k"] by simp
  ultimately show ?case by simp
qed

lemma group_order_mset: "mset (group_order x) = mset (non_finalized x) + mset (map Ev (finalized_events x))"
  by (simp add: group_order_def)

lemma group_order_data: "mset (group_order (data_of ds)) = mset ds"
  using data_of_lists [of ds] multiset_partition [of "mset ds" "\<lambda>d. \<not> is_finalized d"]
  by (simp add: group_order_mset)

lemma group_order_sorted:
  assumes "\<forall>d \<in> set (non_finalized x). \<not> is_finalized d" and "\<forall>e \<in> set (finalized_events x). is_finalized (Ev e)"
  shows "sorted_wrt comes_before (group_order x)"
proof -
  have "sorted_wrt (\<lambda>d d'. datum_key d \<le> datum_key d') (sort_key datum_key (non_finalized x))"
    using sorted_sort_key [of datum_key "non_finalized x"] by (simp add: sorted_map)
  then have "sorted_wrt comes_before (sort_key datum_key (non_finalized x))"
    by (rule sorted_wrt_mono_rel [rotated]) (use assms(1) in \<open>auto simp: comes_before_def\<close>)
  moreover have "sorted_wrt (\<lambda>e e'. event_idx e \<le> event_idx e') (sort_key event_idx (finalized_events x))"
    using sorted_sort_key [of event_idx "finalized_events x"] by (simp add: sorted_map)
  then have "sorted_wrt comes_before (map Ev (sort_key event_idx (finalized_events x)))"
    unfolding sorted_wrt_map
    by (rule sorted_wrt_mono_rel [rotated]) (use assms(2) in \<open>auto simp: comes_before_def datum_idx_def\<close>)
  ultimately show ?thesis
    using assms by (auto simp: group_order_def sorted_wrt_append comes_before_def)
qed

lemma group_order_data_sorted: "sorted_wrt comes_before (group_order (data_of ds))"
proof (rule group_order_sorted)
  show "\<forall>d \<in> set (non_finalized (data_of ds)). \<not> is_finalized d" using data_of_lists [of ds] by simp
  have "\<forall>d \<in> set (map Ev (finalized_events (data_of ds))). is_finalized d" using data_of_lists [of ds] by simp
  then show "\<forall>e \<in> set (finalized_events (data_of ds)). is_finalized (Ev e)" by simp
qed

lemma merged_data:
  assumes "\<And>i. data_at byid i = data_of (filter (\<lambda>d. f d = i) ds)"
  shows "mset (group_order (merged byid c)) = mset (concat (map (\<lambda>i. filter (\<lambda>d. f d = i) ds) c))"
    and "sorted_wrt comes_before (group_order (merged byid c))"
proof -
  have fin: "map Ev (finalized_events (merged byid c)) = concat (map (\<lambda>i. filter is_finalized (filter (\<lambda>d. f d = i) ds)) c)"
    and non: "non_finalized (merged byid c) = concat (map (\<lambda>i. filter (\<lambda>d. \<not> is_finalized d) (filter (\<lambda>d. f d = i) ds)) c)"
    using data_of_lists by (simp_all add: merged_def assms map_concat comp_def)
  have "mset (filter (\<lambda>d. \<not> is_finalized d) xs) + mset (filter is_finalized xs) = mset xs" for xs
    using multiset_partition [of "mset xs" "\<lambda>d. \<not> is_finalized d"] by simp
  then have "mset (concat (map (\<lambda>i. filter (\<lambda>d. \<not> is_finalized d) (g i)) c)) + mset (concat (map (\<lambda>i. filter is_finalized (g i)) c)) =
      mset (concat (map g c))" for g :: "'a \<Rightarrow> datum list" and c
    by (induction c) (simp_all add: ac_simps)
  then show "mset (group_order (merged byid c)) = mset (concat (map (\<lambda>i. filter (\<lambda>d. f d = i) ds) c))"
    by (simp only: group_order_mset fin non)
  show "sorted_wrt comes_before (group_order (merged byid c))"
  proof (rule group_order_sorted)
    show "\<forall>d \<in> set (non_finalized (merged byid c)). \<not> is_finalized d" by (auto simp: non)
    have "\<forall>d \<in> set (map Ev (finalized_events (merged byid c))). is_finalized d" by (simp only: fin) auto
    then show "\<forall>e \<in> set (finalized_events (merged byid c)). is_finalized (Ev e)" by simp
  qed
qed

lemma connects_first: "connects ids paths d \<noteq> [] \<Longrightarrow> entity_of ids paths d = strip_quotes (hd (connects ids paths d))"
proof -
  assume ne: "connects ids paths d \<noteq> []"
  then obtain i "is" where d: "datum_entity ids paths d = Inr (i, Some is)" "connects ids paths d = is"
    by (auto simp: connects_def split: sum.splits option.splits)
  then obtain e where e: "event_entity ids e = Inr (i, Some is)"
    by (auto simp: datum_entity_def map_res_eq_Inr split: datum.splits)
  then obtain a where "(case a of NoId \<Rightarrow> throw (''entityId not found for event type '' @ ev_type e)
     | OneId i \<Rightarrow> if i = [] then throw (''entityId not found for event type '' @ ev_type e) else Inr (strip_quotes i, None)
     | ManyIds [] \<Rightarrow> throw ''TypeError: undefined''
     | ManyIds (i # is) \<Rightarrow> Inr (strip_quotes i, Some (i # is))) = Inr (i, Some is)"
    unfolding event_entity_def bind_eq_Inr by blast
  then have "i = strip_quotes (hd is)" by (cases a) (auto split: if_splits list.splits)
  then show ?thesis using d by (simp add: entity_of_def)
qed

lemma dict_entries: "dict_ok byid \<Longrightarrow> map snd (filter P byid) = map (data_at byid) (map fst (filter P byid))"
proof -
  assume ok: "dict_ok byid"
  have "data_at byid k = x" if "(k, x) \<in> set byid" for k x
    using map_of_eq_Some_dict [OF ok, of k x] that by (simp add: data_at_def)
  then show ?thesis by auto
qed

lemma concat_mset_cong:
  "(\<And>x. x \<in> set xs \<Longrightarrow> mset (f x) = mset (g x)) \<Longrightarrow> mset (concat (map f xs)) = mset (concat (map g xs))"
  by (induction xs) simp_all

text \<open>The components of the connected ids: a datum that touches one of its ids belongs to it.\<close>

lemma components_of_data:
  fixes ids paths ds
  defines "K \<equiv> entity_of ids paths" and "C \<equiv> connects ids paths"
  assumes conn: "set conn = {C d |d. d \<in> set ds \<and> C d \<noteq> []}"
    and plain: "\<And>d i. d \<in> set ds \<Longrightarrow> i \<in> touches ids paths d \<Longrightarrow> dashless i \<and> strip_quotes i = i"
    and comps: "comps = group_connected_components conn"
  shows "components_ok comps"
    and "d \<in> set ds \<Longrightarrow> i \<in> touches ids paths d \<Longrightarrow> c \<in> set comps \<Longrightarrow> i \<in> set c \<Longrightarrow> K d \<in> set c"
    and "d \<in> set ds \<Longrightarrow> i \<in> touches ids paths d \<Longrightarrow> i \<notin> set (concat comps) \<Longrightarrow> i = K d"
proof -
  note classes = group_classes [where arrays = conn, folded comps]
  have "dashless i" if "i \<in> set (concat comps)" for i
    using that plain unfolding classes(2) conn by (auto simp: touches_def C_def)
  then show "components_ok comps" using classes(1,3) by (auto simp: components_ok_def list_all_iff)
  show "i = K d" if "d \<in> set ds" "i \<in> touches ids paths d" "i \<notin> set (concat comps)"
  proof (rule ccontr)
    assume "i \<noteq> K d"
    then have i: "i \<in> set (C d)" using that(2) by (simp add: touches_def K_def C_def)
    then have "C d \<in> set conn" unfolding conn using that(1) by auto
    with i that(3) show False unfolding classes(2) by blast
  qed
  show "K d \<in> set c" if d: "d \<in> set ds" "i \<in> touches ids paths d" "c \<in> set comps" "i \<in> set c"
  proof (cases "i = K d")
    case False
    then have i: "i \<in> set (C d)" using d(2) by (simp add: touches_def K_def C_def)
    then have ne: "C d \<noteq> []" by auto
    then have "hd (C d) \<in> touches ids paths d" by (simp add: touches_def C_def)
    then have "K d = hd (C d)"
      using plain [OF d(1)] connects_first [OF ne [unfolded C_def]] by (simp add: K_def C_def)
    then have "K d \<in> set (C d)" using ne by simp
    moreover have "C d \<in> set conn" unfolding conn using d(1) ne by auto
    ultimately have "linked conn i (K d)" using i unfolding linked_def by blast
    then show ?thesis using classes(4) [OF d(3,4)] by blast
  qed (use d in simp)
qed

text \<open>The shape of the groups: those of the ids that no datum connects, then the merged components.\<close>

lemma stake_groups_shape:
  fixes ids paths ds
  defines "K \<equiv> entity_of ids paths"
  defines "of_id \<equiv> \<lambda>ds i. filter (\<lambda>d. K d = i) ds"
  assumes "stake_groups ids paths all = Inr gs" and ds: "ds = successful_data all"
    and all_plain: "\<forall>d \<in> set ds. \<forall>i \<in> touches ids paths d. dashless i \<and> strip_quotes i = i"
  obtains (found) byid ks comps where "\<And>i. data_at byid i = data_of (of_id ds i)"
    and "map snd gs = map (\<lambda>k. group_order (data_at byid k)) ks @ map (\<lambda>c. group_order (merged byid c)) comps"
    and "distinct (ks @ concat comps)" and "K ` set ds \<subseteq> set (ks @ concat comps)"
    and "\<And>d i c. d \<in> set ds \<Longrightarrow> i \<in> touches ids paths d \<Longrightarrow> c \<in> set comps \<Longrightarrow> i \<in> set c \<Longrightarrow> K d \<in> set c"
    and "\<And>d i. d \<in> set ds \<Longrightarrow> i \<in> touches ids paths d \<Longrightarrow> i \<notin> set (concat comps) \<Longrightarrow> i = K d"
proof -
  have plain: "d \<in> set ds \<Longrightarrow> i \<in> touches ids paths d \<Longrightarrow> dashless i \<and> strip_quotes i = i" for d i
    using all_plain by blast
  let ?C = "connects ids paths" and ?J = "join (CHR ''-'')"
  obtain conn byid where fold: "foldM_res (collect_datum ids paths) ([], []) ds = Inr (conn, byid)"
    and gs: "gs = map (\<lambda>(i, x). (i, group_order x)) (foldl merge_component byid (group_connected_components conn))"
    using assms(3) by (auto simp: stake_groups_def ds map_res_eq_Inr)
  define comps where "comps = group_connected_components conn"
  from collect_data [OF fold] have ok: "dict_ok byid" and keys: "set (map fst byid) = K ` set ds"
    and data: "\<And>i. data_at byid i = data_of (of_id ds i)"
    and conn: "set conn = {?C d |d. d \<in> set ds \<and> ?C d \<noteq> []}" unfolding K_def of_id_def by blast+
  note comp = components_of_data [OF conn plain comps_def, folded K_def]
  note classes = group_classes [where arrays = conn, folded comps_def]
  have "\<forall>k \<in> set (map fst byid). dashless k"
  proof
    fix k assume "k \<in> set (map fst byid)"
    then obtain d where "d \<in> set ds" "k = K d" unfolding keys by blast
    then show "dashless k" using plain [of d k] by (simp add: touches_def K_def)
  qed
  from merge_components [OF comp(1) this]
  have gs: "gs = map (\<lambda>(i, x). (i, group_order x)) (filter (\<lambda>(k, _). k \<notin> set (concat comps)) byid @
      map (\<lambda>c. (?J c, merged byid c)) comps)"
    unfolding gs comps_def [symmetric] by (simp only:)
  define ks where "ks = map fst (filter (\<lambda>(k, _). k \<notin> set (concat comps)) byid)"
  have "map snd gs = map (\<lambda>k. group_order (data_at byid k)) ks @ map (\<lambda>c. group_order (merged byid c)) comps"
    using arg_cong [OF dict_entries [OF ok, of "\<lambda>(k, _). k \<notin> set (concat comps)"], of "map group_order"]
    by (simp add: gs ks_def case_prod_unfold comp_def)
  moreover have "distinct ks" unfolding ks_def using ok by (simp add: dict_ok_def distinct_map_filter)
  then have "distinct (ks @ concat comps)" using classes(1) by (auto simp: ks_def)
  moreover have "k \<in> set ks" if "k \<in> set (map fst byid)" "k \<notin> set (concat comps)" for k
    using that by (force simp: ks_def)
  then have "K ` set ds \<subseteq> set (ks @ concat comps)" unfolding keys [symmetric] by auto
  moreover note comp(2,3)
  ultimately show thesis by (rule found [OF data])
qed

text \<open>
  C13: when the ids of the data are plain, the groups of \<open>indexStakeEntity\<close> hold every successful message
  and event exactly once, each group in the order of the chain, and two data that touch a common entity
  are in one group, so that what runs in parallel never writes the same entity.
\<close>

theorem stake_groups_spec:
  assumes "stake_groups ids paths all = Inr gs"
    and plain: "\<forall>d \<in> set (successful_data all). \<forall>i \<in> touches ids paths d. dashless i \<and> strip_quotes i = i"
  shows "mset (concat (map snd gs)) = mset (successful_data all) \<and> (\<forall>g \<in> set gs. sorted_wrt comes_before (snd g)) \<and>
    (\<forall>d \<in> set (successful_data all). \<forall>d' \<in> set (successful_data all).
       touches ids paths d \<inter> touches ids paths d' \<noteq> {} \<longrightarrow> (\<exists>g \<in> set gs. d \<in> set (snd g) \<and> d' \<in> set (snd g)))"
proof -
  define ds where ds: "ds = successful_data all"
  let ?K = "entity_of ids paths"
  let ?at = "\<lambda>i. filter (\<lambda>d. ?K d = i) ds"
  obtain byid ks comps where data: "\<And>i. data_at byid i = data_of (?at i)"
    and snds: "map snd gs = map (\<lambda>k. group_order (data_at byid k)) ks @ map (\<lambda>c. group_order (merged byid c)) comps"
    and ks: "distinct (ks @ concat comps)" "?K ` set ds \<subseteq> set (ks @ concat comps)"
    and touch: "\<And>d i c. d \<in> set ds \<Longrightarrow> i \<in> touches ids paths d \<Longrightarrow> c \<in> set comps \<Longrightarrow> i \<in> set c \<Longrightarrow> ?K d \<in> set c"
      "\<And>d i. d \<in> set ds \<Longrightarrow> i \<in> touches ids paths d \<Longrightarrow> i \<notin> set (concat comps) \<Longrightarrow> i = ?K d"
    using stake_groups_shape [OF assms(1) ds plain [folded ds]] by blast
  have one: "mset (group_order (data_at byid k)) = mset (?at k)" "sorted_wrt comes_before (group_order (data_at byid k))" for k
    by (simp_all only: data group_order_data group_order_data_sorted)
  note many = merged_data [OF data]
  have "mset (concat (map snd gs)) = mset (concat (map ?at (ks @ concat comps)))"
  proof -
    have "mset (concat (map (\<lambda>k. group_order (data_at byid k)) ks)) = mset (concat (map ?at ks))"
      by (rule concat_mset_cong) (rule one)
    moreover have "mset (concat (map (\<lambda>c. group_order (merged byid c)) comps)) =
        mset (concat (map (\<lambda>c. concat (map ?at c)) comps))"
      by (rule concat_mset_cong) (rule many(1))
    moreover have "concat (map (\<lambda>c. concat (map ?at c)) comps) = concat (map ?at (concat comps))"
      by (induction comps) simp_all
    ultimately show ?thesis by (simp only: snds map_append concat_append mset_append)
  qed
  then have all: "mset (concat (map snd gs)) = mset ds" using mset_by_key [OF ks] by simp
  have "\<forall>g \<in> set (map snd gs). sorted_wrt comes_before g"
    unfolding snds using one(2) many(2) by auto
  moreover have "\<exists>g \<in> set (map snd gs). d \<in> set g \<and> d' \<in> set g"
    if d: "d \<in> set ds" "d' \<in> set ds" and common: "e \<in> touches ids paths d" "e \<in> touches ids paths d'" for d d' e
  proof (cases "e \<in> set (concat comps)")
    case True
    then obtain c where c: "c \<in> set comps" "e \<in> set c" by auto
    have "x \<in> set (group_order (merged byid c))" if "x \<in> set ds" "?K x \<in> set c" for x
      using that arg_cong [OF many(1) [of c], of set_mset] by auto
    then show ?thesis using touch(1) d common c unfolding snds
      by (intro bexI [of _ "group_order (merged byid c)"]) auto
  next
    case False
    then have e: "?K d = e" "?K d' = e" using touch(2) d common by metis+
    then have "e \<in> set ks" using ks(2) d False by auto
    moreover have "x \<in> set (group_order (data_at byid e))" if "x \<in> set ds" "?K x = e" for x
      using that arg_cong [OF one(1) [of e], of set_mset] by auto
    ultimately show ?thesis using e d unfolding snds by (intro bexI [of _ "group_order (data_at byid e)"]) auto
  qed
  ultimately show ?thesis using all unfolding ds by fastforce
qed

definition ids_example :: "string \<Rightarrow> (attribute list \<Rightarrow> entity_ids res) option" where
  "ids_example t = Some (\<lambda>as. Inr (if t = ''end'' then ManyIds (map snd as) else OneId (snd (hd as))))"

definition plan_example :: "datum list" where
  "plan_example =
     [Ev (supplier_event_example 3 KEndBlock None ''end'' [(''source'', ''a''), (''destination'', ''b'')]),
      Ev (supplier_event_example 1 KEndBlock None ''begin'' [(''source'', ''b'')]),
      Ev (supplier_event_example 2 KEndBlock None ''begin'' [(''source'', ''c'')])]"

theorem stake_groups_spec_witness:
  "stake_groups ids_example (\<lambda>_. None) plan_example =
     Inr [(''c'', [plan_example ! 2]), (''a-b'', [plan_example ! 1, plan_example ! 0])] \<and>
   touches ids_example (\<lambda>_. None) (plan_example ! 0) = {''a'', ''b''} \<and>
   (\<exists>g \<in> set [(''c'', [plan_example ! 2]), (''a-b'', [plan_example ! 1, plan_example ! 0])].
      plan_example ! 0 \<in> set (snd g) \<and> plan_example ! 1 \<in> set (snd g))"
proof -
  let ?gs = "[(''c'', [plan_example ! 2]), (''a-b'', [plan_example ! 1, plan_example ! 0])]"
  let ?touches = "touches ids_example (\<lambda>_. None)"
  have run: "stake_groups ids_example (\<lambda>_. None) plan_example = Inr ?gs" by code_simp
  have data: "successful_data plan_example = plan_example" by code_simp
  have t: "?touches (plan_example ! 0) = {''a'', ''b''}" "?touches (plan_example ! 1) = {''b''}"
    "?touches (plan_example ! 2) = {''c''}"
    by code_simp+
  have all: "set plan_example = {plan_example ! 0, plan_example ! 1, plan_example ! 2}" by code_simp
  have "\<forall>i \<in> {''a'', ''b'', ''c''}. dashless i \<and> strip_quotes i = i" by code_simp
  then have "\<forall>d \<in> set plan_example. \<forall>i \<in> ?touches d. dashless i \<and> strip_quotes i = i"
    unfolding all ball_simps t by blast
  note spec = stake_groups_spec [OF run, unfolded data, OF this]
  have mem: "plan_example ! 0 \<in> set plan_example" "plan_example ! 1 \<in> set plan_example" unfolding all by simp_all
  have "?touches (plan_example ! 0) \<inter> ?touches (plan_example ! 1) \<noteq> {}" unfolding t by simp
  from spec [THEN conjunct2, THEN conjunct2, rule_format, OF mem this]
  have "\<exists>g \<in> set ?gs. plan_example ! 0 \<in> set (snd g) \<and> plan_example ! 1 \<in> set (snd g)" .
  with run t(1) show ?thesis by (intro conjI)
qed

end
