(* ===== verification/Balances.thy ===== *)
theory Balances
  imports Store Ids Coins
begin

text \<open>
  \<open>src/mappings/bank/balanceChange.ts\<close>: the net change of every balance in a block, computed from
  the \<open>coin_spent\<close> and \<open>coin_received\<close> events, and the rewrite of the Balance table: rows of an
  earlier attempt at the block are undone, the current rows of the changed balances are closed and
  one new version per changed balance is inserted. \<open>enforceAccountsExists\<close> inserts the rows of
  accounts seen for the first time; its rows carry a key computed from the account's id, so that
  the insert skips known accounts. The block id and the historical unit are the block's height.
\<close>

record balance =
  bal_id :: string
  bal_account_id :: string
  bal_denom :: "string option"
  bal_amount :: int
  last_updated_block_id :: int

type_synonym balance_table = "balance hrow list"

subsection \<open>Accounts\<close>

record module_account =
  ma_id :: string
  ma_name :: string
  ma_account_number :: int
  ma_sequence :: int
  ma_permissions :: "string list"

record account_params =
  ap_id :: string
  ap_chain_id :: string
  ap_module :: "module_account option"

record account_row =
  ar_key :: string
  ar_id :: string
  ar_chain_id :: string

record module_row =
  mr_key :: string
  mr_module :: module_account

definition account_doc :: "(bytes \<Rightarrow> bytes) \<Rightarrow> account_params \<Rightarrow> account_row" where
  "account_doc sha256 a =
     \<lparr>ar_key = generate_deterministic_uuid sha256 (ap_id a), ar_id = ap_id a, ar_chain_id = ap_chain_id a\<rparr>"

text \<open>The documents of module accounts are built from the records that have one.\<close>

definition module_doc :: "(bytes \<Rightarrow> bytes) \<Rightarrow> account_params \<Rightarrow> module_row res" where
  "module_doc sha256 a =
     bind_res (require ''module'' (ap_module a)) (\<lambda>m.
       Inr \<lparr>mr_key = generate_deterministic_uuid sha256 (ap_id a), mr_module = m\<rparr>)"

definition enforce_accounts_exists ::
  "(bytes \<Rightarrow> bytes) \<Rightarrow> int \<Rightarrow> account_params list \<Rightarrow>
   (account_row hrow sql list \<times> module_row hrow sql list) res" where
  "enforce_accounts_exists sha256 b accounts =
     (if accounts = [] then Inr ([], [])
      else
        bind_res (optimized_bulk_create ar_id None b (\<lambda>a. Inr (account_doc sha256 a)) Omit accounts)
          (\<lambda>acc. bind_res (optimized_bulk_create (ma_id \<circ> mr_module) None b (module_doc sha256) Omit
              (filter (\<lambda>a. ap_module a \<noteq> None) accounts))
            (\<lambda>mods. Inr (acc, mods))))"

subsection \<open>Changes\<close>

definition find_index :: "('a \<Rightarrow> bool) \<Rightarrow> 'a list \<Rightarrow> nat option" where
  "find_index p xs = (let n = length (takeWhile (\<lambda>x. \<not> p x) xs) in if n < length xs then Some n else None)"

text \<open>
  The body of the loop: the address, the balance id and the signed amount of one event. The amount
  is read from the attribute after the address's one.
\<close>

definition event_change :: "cosmos_event \<Rightarrow> (string \<times> string \<times> int) res" where
  "event_change e =
     (let as = attributes (event e); ty = ev_type (event e) in
      case find_index (\<lambda>(k, _). k = ''receiver'' \<or> k = ''spender'') as of
        None \<Rightarrow> throw (''Event '' @ ty @ '' does not have a receiver or spender attribute'')
      | Some key_index \<Rightarrow>
          (let (key, address) = as ! key_index in
           case find_index (\<lambda>(k, _). k = ''amount'') as of
             None \<Rightarrow> throw (''Event '' @ ty @ '' does not have an amount attribute'')
           | Some _ \<Rightarrow>
               if length as \<le> key_index + 1 then throw ''TypeError: input is undefined''
               else bind_res (parse_coins (snd (as ! (key_index + 1)))) (\<lambda>cs. case cs of
                   [] \<Rightarrow> throw ''TypeError: coin is undefined''
                 | c # _ \<Rightarrow> bind_res (big_int (amount c)) (\<lambda>coins.
                     Inr (address, dash address (denom c),
                          if key = ''spender'' then 0 - coins else coins)))))"

definition add_change :: "(string \<times> int) list \<Rightarrow> string \<Rightarrow> int \<Rightarrow> (string \<times> int) list" where
  "add_change m i v = dict_set i ((case map_of m i of None \<Rightarrow> 0 | Some w \<Rightarrow> w) + v) m"

definition get_balance_changes :: "cosmos_event list \<Rightarrow> ((string \<times> int) list \<times> string list) res" where
  "get_balance_changes es =
     foldM_res (\<lambda>(m, addrs) e. bind_res (event_change e) (\<lambda>(address, i, v).
       Inr (add_change m i v, add_unique address addrs))) ([], []) es"

subsection \<open>Writing the balances\<close>

definition undo_block :: "int \<Rightarrow> balance hrow sql list" where
  "undo_block b =
     [Delete (\<lambda>r. last_updated_block_id (row_data r) = b), Update (closed_at b) reopen_row]"

definition balances_map :: "balance list \<Rightarrow> (string \<times> int) list" where
  "balances_map bs = foldl (\<lambda>d r. dict_set (bal_id r) (bal_amount r) d) [] bs"

definition new_balance :: "int \<Rightarrow> (string \<times> int) list \<Rightarrow> string \<times> int \<Rightarrow> balance" where
  "new_balance b cur = (\<lambda>(i, change).
     \<lparr>bal_id = i, bal_account_id = hd (split_on (CHR ''-'') i),
      bal_denom = (case tl (split_on (CHR ''-'') i) of [] \<Rightarrow> None | d # _ \<Rightarrow> Some d),
      bal_amount = (case map_of cur i of None \<Rightarrow> 0 | Some a \<Rightarrow> a) + change,
      last_updated_block_id = b\<rparr>)"

definition close_balances :: "int \<Rightarrow> string list \<Rightarrow> balance hrow sql" where
  "close_balances b ids = Update (\<lambda>r. row_id r \<in> set ids \<and> in_range b r) (close_row b)"

text \<open>\<open>None\<close> stands for a paginated read that never ends.\<close>

definition update_balances ::
  "(string \<times> int) list \<Rightarrow> int \<Rightarrow> balance_table \<Rightarrow> balance_table res option" where
  "update_balances entries b t =
     (let ids = map fst entries in
      if ids = [] then Some (Inr t)
      else
        let t1 = run_all (\<lambda>_. None) (undo_block b) t in
        (case chunk_array ids 1000 of
           Inl e \<Rightarrow> Some (Inl e)
         | Inr batches \<Rightarrow>
             (case those (map (\<lambda>batch. fetch_paginated_records
                       (get_by_fields b (\<lambda>d. bal_id d \<in> set batch) t1)) batches) of
                None \<Rightarrow> None
              | Some found \<Rightarrow>
                  (let cur = balances_map (concat found);
                       docs = map (new_balance b cur) entries;
                       t2 = (if cur \<noteq> [] then run_sql (\<lambda>_. None) (close_balances b (map fst cur)) t1 else t1)
                   in Some (map_res (\<lambda>ss. run_all (\<lambda>_. None) ss t2)
                        (optimized_bulk_create bal_id None b Inr Omit docs))))))"

subsection \<open>Lemmas\<close>

definition bal :: "(string \<times> int) list \<Rightarrow> string \<Rightarrow> int" where
  "bal m i = (case map_of m i of None \<Rightarrow> 0 | Some v \<Rightarrow> v)"

definition change_total :: "string \<Rightarrow> (string \<times> string \<times> int) list \<Rightarrow> int" where
  "change_total i cs = (\<Sum>(_, _, v) \<leftarrow> filter (\<lambda>(_, j, _). j = i) cs. v)"

lemma change_total_simps [simp]:
  "change_total i [] = 0"
  "change_total i ((a, j, v) # cs) = (if j = i then v else 0) + change_total i cs"
  by (simp_all add: change_total_def)

lemma bal_add_change [simp]: "bal (add_change m j v) i = bal m i + (if j = i then v else 0)"
  by (simp add: bal_def add_change_def)

lemma add_change_keys [simp]: "fst ` set (add_change m j v) = insert j (fst ` set m)"
  by (simp add: add_change_def keys_dict_set)

lemma add_change_ok [simp]: "dict_ok m \<Longrightarrow> dict_ok (add_change m j v)"
  by (simp add: add_change_def)

lemma balance_changes_from:
  assumes "foldM_res (\<lambda>(m, addrs) e. bind_res (event_change e) (\<lambda>(address, i, v).
       Inr (add_change m i v, add_unique address addrs))) (m0, a0) es = Inr (m, addrs)"
    and "dict_ok m0" and "distinct a0"
  obtains cs where "mapM_res event_change es = Inr cs"
    and "\<And>i. bal m i = bal m0 i + change_total i cs"
    and "fst ` set m = fst ` set m0 \<union> (\<lambda>(_, i, _). i) ` set cs"
    and "dict_ok m" and "distinct addrs" and "set addrs = set a0 \<union> fst ` set cs"
  using assms
proof (induction es arbitrary: m0 a0 thesis)
  case Nil
  then show ?case by (auto intro: Nil.prems(1) [of "[]"])
next
  case (Cons e es)
  obtain a i v where ev: "event_change e = Inr (a, i, v)"
    using Cons.prems(2) by (cases "event_change e") auto
  have "distinct (add_unique a a0)" "set (add_unique a a0) = insert a (set a0)"
    using Cons.prems(4) by auto
  with Cons.prems ev obtain cs where cs: "mapM_res event_change es = Inr cs"
    "\<And>j. bal m j = bal (add_change m0 i v) j + change_total j cs"
    "fst ` set m = fst ` set (add_change m0 i v) \<union> (\<lambda>(_, i, _). i) ` set cs"
    "dict_ok m" "distinct addrs" "set addrs = insert a (set a0) \<union> fst ` set cs"
    by (auto elim!: Cons.IH [rotated])
  show ?case
    by (rule Cons.prems(1) [of "(a, i, v) # cs"]) (use cs ev in auto)
qed

definition settled :: "int \<Rightarrow> balance_table \<Rightarrow> bool" where
  "settled b t \<longleftrightarrow> hist_ok bal_id b t \<and>
     list_all (\<lambda>r. lower r < b \<and> upper r \<noteq> Some b \<and> last_updated_block_id (row_data r) \<noteq> b) t"

definition live_amount :: "balance_table \<Rightarrow> string \<Rightarrow> int" where
  "live_amount t i = (case live_map t i of None \<Rightarrow> 0 | Some d \<Rightarrow> bal_amount d)"

lemma undo_block_settled: "settled b t \<Longrightarrow> run_all (\<lambda>_. None) (undo_block b) t = t"
  unfolding settled_def undo_block_def list_all_iff
  by (auto simp: closed_at_def filter_id_conv intro!: map_idI)

text \<open>The undo also takes back what the entity class has saved at the block before.\<close>

definition undoable :: "int \<Rightarrow> balance_table \<Rightarrow> bool" where
  "undoable b t \<longleftrightarrow> list_all (\<lambda>r. last_updated_block_id (row_data r) \<noteq> b \<longrightarrow>
     lower r < b \<and> (case upper r of None \<Rightarrow> True | Some u \<Rightarrow> u \<le> b)) t"

lemma settled_undoable: "settled b t \<Longrightarrow> undoable b t"
  by (auto simp: settled_def undoable_def hist_ok_def list_all_iff)

lemma undo_put_version:
  assumes "undoable b t" and "last_updated_block_id e = b"
  shows "undoable b (put_version bal_id b e t)"
    and "run_all (\<lambda>_. None) (undo_block b) (put_version bal_id b e t) = run_all (\<lambda>_. None) (undo_block b) t"
proof -
  let ?close = "\<lambda>r. if row_id r \<in> {bal_id e} \<and> in_range b r then close_row b r else r"
  have row: "last_updated_block_id (row_data (?close r)) = last_updated_block_id (row_data r)" for r
    by (simp add: close_row_def)
  have reopen: "closed_at b (close_row b r) \<and> reopen_row (close_row b r) = r \<and> \<not> closed_at b r"
    if "r \<in> set t" "last_updated_block_id (row_data r) \<noteq> b" "in_range b r" for r
  proof -
    have "upper r = None" "lower r < b" using assms(1) that
      by (auto simp: undoable_def list_all_iff in_range_def split: option.splits)
    then show ?thesis by (cases r) (simp add: closed_at_def close_row_def reopen_row_def)
  qed
  show "undoable b (put_version bal_id b e t)"
    using assms by (auto simp: undoable_def put_version_eq list_all_iff close_row_def new_row_def)
  show "run_all (\<lambda>_. None) (undo_block b) (put_version bal_id b e t) = run_all (\<lambda>_. None) (undo_block b) t"
    unfolding put_version_eq undo_block_def
    by (simp add: assms(2) new_row_def filter_map comp_def row del: insert_iff singleton_iff) (use reopen in force)
qed

lemma undo_put_versions:
  assumes "undoable b t" and "\<forall>e \<in> set es. last_updated_block_id e = b"
  shows "run_all (\<lambda>_. None) (undo_block b) (put_versions bal_id b es t) = run_all (\<lambda>_. None) (undo_block b) t"
  using assms by (induction es arbitrary: t) (simp_all add: put_versions_def undo_put_version)

lemma update_balances_undone:
  assumes "settled b t" and "\<forall>e \<in> set es. last_updated_block_id e = b" and "entries \<noteq> []"
  shows "update_balances entries b (put_versions bal_id b es t) = update_balances entries b t"
  using assms(3) undo_put_versions [OF settled_undoable [OF assms(1)] assms(2)] by (simp add: update_balances_def)

lemma map_of_balances_map:
  "map_of (balances_map bs) i = map_of (rev (map (\<lambda>d. (bal_id d, bal_amount d)) bs)) i"
proof -
  have "map_of (foldl (\<lambda>d r. dict_set (bal_id r) (bal_amount r) d) d bs) =
      map_of d ++ map_of (rev (map (\<lambda>d. (bal_id d, bal_amount d)) bs))" for d
    by (induction bs arbitrary: d) (simp_all add: map_add_def fun_eq_iff split: option.split)
  from this [of "[]"] show ?thesis by (simp add: balances_map_def)
qed

lemma those_Some: "those (map (\<lambda>x. Some (f x)) xs) = Some (map f xs)"
  by (induction xs) auto

text \<open>The amounts read for the ids are those of their live rows.\<close>

lemma found_balances:
  assumes ok: "hist_ok bal_id b t" and "concat batches = ids"
  defines "found \<equiv> concat (map (\<lambda>batch. current b (\<lambda>d. bal_id d \<in> set batch) t) batches)"
  shows "map_of (balances_map found) i = (if i \<in> set ids then map_option bal_amount (live_map t i) else None)"
proof -
  have found: "d \<in> set found \<longleftrightarrow> bal_id d \<in> set ids \<and> live_map t (bal_id d) = Some d" for d
  proof -
    have "row_id r = bal_id (row_data r)" if "r \<in> set t" for r
      using ok that by (auto simp: hist_ok_def list_all_iff)
    then show ?thesis
      unfolding found_def assms(2) [symmetric] live_map_eq [OF ok]
      by (auto simp: hist_ok_current [OF ok])
  qed
  show ?thesis
  proof (cases "map_of (balances_map found) i")
    case None
    then have "\<forall>d \<in> set found. bal_id d \<noteq> i"
      by (auto simp: map_of_balances_map map_of_eq_None_iff image_iff)
    moreover have "live_map t i = Some d \<Longrightarrow> bal_id d = i" for d
      using ok by (auto simp: live_map_eq [OF ok] hist_ok_def list_all_iff)
    ultimately show ?thesis using None found by (cases "live_map t i") auto
  next
    case (Some a)
    then obtain d where "d \<in> set found" "bal_id d = i" "bal_amount d = a"
      by (auto simp: map_of_balances_map dest!: map_of_SomeD)
    with found Some show ?thesis by auto
  qed
qed

text \<open>The whole rewrite, on a table that holds only the blocks before.\<close>

definition closed_balances :: "int \<Rightarrow> string set \<Rightarrow> balance_table \<Rightarrow> balance_table" where
  "closed_balances b I t = map (\<lambda>r. if row_id r \<in> I \<and> in_range b r then close_row b r else r) t"

lemma update_balances_settled:
  assumes "settled b t" and "entries \<noteq> []"
  obtains cur I where
    "update_balances entries b t =
       Some (Inr (closed_balances b I t @ map (new_row bal_id b \<circ> new_balance b cur) entries))"
    "I = set (map fst entries) \<inter> dom (live_map t)"
    "\<And>i. i \<in> set (map fst entries) \<Longrightarrow> map_of cur i = map_option bal_amount (live_map t i)"
proof -
  define ids where "ids = map fst entries"
  define batches where "batches = slices 1000 ids"
  define found where "found = concat (map (\<lambda>batch. current b (\<lambda>d. bal_id d \<in> set batch) t) batches)"
  define cur where "cur = balances_map found"
  define I where "I = set (map fst cur)"
  have ok: "hist_ok bal_id b t" using assms(1) by (simp add: settled_def)
  have ids_ne: "ids \<noteq> []" using assms(2) by (simp add: ids_def)
  have cur: "map_of cur i = (if i \<in> set ids then map_option bal_amount (live_map t i) else None)" for i
    unfolding cur_def found_def
    by (rule found_balances [OF ok]) (simp add: batches_def concat_slices)
  have I: "I = set ids \<inter> dom (live_map t)"
  proof -
    have "I = dom (map_of cur)" by (simp add: I_def dom_map_of_conv_image_fst)
    then show ?thesis using cur by (auto split: if_splits)
  qed
  have t2: "(if cur \<noteq> [] then run_sql (\<lambda>_. None) (close_balances b (map fst cur)) t else t) =
      closed_balances b I t"
    by (auto simp: close_balances_def closed_balances_def I_def)
  obtain ss where "optimized_bulk_create bal_id None b Inr Omit
      (map (new_balance b cur) entries) = Inr ss"
    "run_all (\<lambda>_. None) ss (closed_balances b I t) =
      closed_balances b I t @ map (new_row bal_id b \<circ> new_balance b cur) entries"
    using optimized_bulk_create_omit [of bal_id None b "\<lambda>x. x"
        "map (new_balance b cur) entries"]
    by (auto simp: comp_def)
  then have upd: "update_balances entries b t =
     Some (Inr (closed_balances b I t @ map (new_row bal_id b \<circ> new_balance b cur) entries))"
    using assms(2) t2
    by (cases "cur = []")
      (simp_all add: update_balances_def undo_block_settled [OF assms(1)] chunk_array_def Let_def
        fetch_current those_Some ids_ne flip: ids_def batches_def found_def cur_def)
  show ?thesis by (rule that [OF upd]) (simp_all add: I cur ids_def)
qed

lemma undo_closed_balances:
  assumes "settled b t"
  shows "run_all (\<lambda>_. None) (undo_block b)
     (closed_balances b I t @ map (new_row bal_id b \<circ> new_balance b cur) entries) = t"
proof -
  have "filter (\<lambda>r. last_updated_block_id (row_data r) \<noteq> b) (closed_balances b I t) = closed_balances b I t"
  proof (intro filter_True ballI)
    fix r assume "r \<in> set (closed_balances b I t)"
    then obtain r' where "r' \<in> set t" "row_data r = row_data r'"
      by (auto simp: closed_balances_def)
    with assms show "last_updated_block_id (row_data r) \<noteq> b"
      by (simp add: settled_def list_all_iff)
  qed
  moreover have "map (\<lambda>r. if closed_at b r then reopen_row r else r) (closed_balances b I t) = t"
  proof -
    have "closed_at b (close_row b r) \<and> reopen_row (close_row b r) = r"
      if "r \<in> set t" "in_range b r" for r
      using assms that hist_ok_in_range [of bal_id b t r]
      by (simp add: settled_def list_all_iff closed_at_def reopen_row_def close_row_def live_def)
    moreover have "\<not> closed_at b r" if "r \<in> set t" for r
      using assms that by (simp add: settled_def list_all_iff closed_at_def)
    ultimately show ?thesis
      unfolding closed_balances_def map_map comp_def by (intro map_idI) auto
  qed
  moreover have "filter (\<lambda>r. last_updated_block_id (row_data r) \<noteq> b)
      (map (new_row bal_id b \<circ> new_balance b cur) entries) = []"
    by (simp add: new_balance_def split_beta filter_empty_conv)
  ultimately show ?thesis by (simp add: undo_block_def)
qed

lemma update_balances_undo:
  assumes "run_all (\<lambda>_. None) (undo_block b) t = t'" "run_all (\<lambda>_. None) (undo_block b) t' = t'"
    and "entries \<noteq> []"
  shows "update_balances entries b t = update_balances entries b t'"
  using assms by (simp add: update_balances_def)

lemma new_balance_id [simp]: "bal_id (new_balance b cur e) = fst e"
  by (simp add: new_balance_def split_beta)

text \<open>
  C23: the changes computed for a block are, for every balance, the sum of the signed amounts of its
  events (added when received, subtracted when spent); there is one entry per balance touched, and
  the address set holds every address once.
\<close>

theorem balance_changes_sum:
  assumes "get_balance_changes es = Inr (m, addrs)"
  shows "\<exists>cs. mapM_res event_change es = Inr cs \<and> (\<forall>i. bal m i = change_total i cs) \<and>
    distinct (map fst m) \<and> fst ` set m = (\<lambda>(_, i, _). i) ` set cs \<and>
    distinct addrs \<and> set addrs = fst ` set cs"
proof -
  from assms obtain cs where "mapM_res event_change es = Inr cs" "\<And>i. bal m i = bal [] i + change_total i cs"
    "fst ` set m = fst ` set [] \<union> (\<lambda>(_, i, _). i) ` set cs" "dict_ok m" "distinct addrs"
    "set addrs = set [] \<union> fst ` set cs"
    unfolding get_balance_changes_def by (rule balance_changes_from) simp_all
  then show ?thesis by (auto simp: bal_def dict_ok_def)
qed

definition coin_event :: "string \<Rightarrow> string \<Rightarrow> string \<Rightarrow> string \<Rightarrow> cosmos_event" where
  "coin_event ty key addr amount_text =
     \<lparr>event_idx = 0, event_kind = KFinalizeBlock, kind_text = ''FinalizeBlock'',
      event = \<lparr>ev_type = ty, attributes = [(key, addr), (''amount'', amount_text)]\<rparr>,
      event_tx = None, event_msg = None, event_height = 7\<rparr>"

theorem balance_changes_sum_witness:
  "get_balance_changes [coin_event ''coin_spent'' ''spender'' ''a'' ''5upokt'',
       coin_event ''coin_received'' ''receiver'' ''b'' ''5upokt'',
       coin_event ''coin_received'' ''receiver'' ''a'' ''2upokt''] =
     Inr ([(''a-upokt'', - 3), (''b-upokt'', 5)], [''a'', ''b'']) \<and>
   distinct (map fst [(''a-upokt'', - 3 :: int), (''b-upokt'', 5)])"
proof -
  have "get_balance_changes [coin_event ''coin_spent'' ''spender'' ''a'' ''5upokt'',
       coin_event ''coin_received'' ''receiver'' ''b'' ''5upokt'',
       coin_event ''coin_received'' ''receiver'' ''a'' ''2upokt''] =
     Inr ([(''a-upokt'', - 3), (''b-upokt'', 5)], [''a'', ''b''])"
    by code_simp
  with balance_changes_sum [OF this] show ?thesis by blast
qed

lemma update_balances_run:
  assumes "settled b t" and "distinct (map fst entries)"
  shows "\<exists>t'. update_balances entries b t = Some (Inr t') \<and> hist_ok bal_id b t' \<and>
    (\<forall>i. live_amount t' i = live_amount t i + bal entries i) \<and>
    (\<forall>i. i \<notin> fst ` set entries \<longrightarrow> live_map t' i = live_map t i) \<and>
    run_all (\<lambda>_. None) (undo_block b) t' = t"
proof (cases "entries = []")
  case True
  then show ?thesis using assms undo_block_settled [OF assms(1)] by (auto simp: update_balances_def settled_def bal_def)
next
  case False
  from update_balances_settled [OF assms(1) False] obtain cur I where
    upd: "update_balances entries b t =
       Some (Inr (closed_balances b I t @ map (new_row bal_id b \<circ> new_balance b cur) entries))"
    and I: "I = set (map fst entries) \<inter> dom (live_map t)"
    and cur: "\<And>i. i \<in> set (map fst entries) \<Longrightarrow> map_of cur i = map_option bal_amount (live_map t i)"
    by blast
  define docs where "docs = map (new_balance b cur) entries"
  define t' where "t' = closed_balances b I t @ map (new_row bal_id b) docs"
  have ok: "hist_ok bal_id b t" using assms(1) by (simp add: settled_def)
  have live: "live_map (closed_balances b I t) i = (if i \<in> fst ` set entries then None else live_map t i)" for i
    using live_map_close [OF ok, of I i] by (auto simp: closed_balances_def I)
  have ids: "map bal_id docs = map fst entries" by (simp add: docs_def)
  have "hist_ok bal_id b t'"
    unfolding t'_def
  proof (rule hist_ok_insert)
    show "hist_ok bal_id b (closed_balances b I t)"
      using hist_ok_close [OF ok] by (simp add: closed_balances_def)
    show "distinct (map bal_id docs)" using assms(2) ids by simp
    show "live_map (closed_balances b I t) (bal_id e) = None" if "e \<in> set docs" for e
    proof -
      have "bal_id e \<in> fst ` set entries" using that by (force simp: docs_def)
      then show ?thesis by (simp add: live)
    qed
  qed
  moreover have live': "live_map t' i =
      (case map_of entries i of None \<Rightarrow> live_map t i | Some v \<Rightarrow> Some (new_balance b cur (i, v)))" for i
  proof -
    have "map_of (map (\<lambda>e. (bal_id e, e)) docs) i = map_option (\<lambda>v. new_balance b cur (i, v)) (map_of entries i)"
      unfolding docs_def by (induction entries) auto
    moreover have "live_map t' i = (case live_map (closed_balances b I t) i of
        Some d \<Rightarrow> Some d | None \<Rightarrow> map_of (map (\<lambda>e. (bal_id e, e)) docs) i)"
      unfolding t'_def by (rule live_map_insert) (auto simp: live docs_def)
    ultimately show ?thesis
      by (auto simp: live map_of_eq_None_iff split: option.splits dest: map_of_SomeD)
  qed
  moreover have "live_amount t' i = live_amount t i + bal entries i" for i
  proof (cases "map_of entries i")
    case (Some v)
    then have "i \<in> set (map fst entries)" by (auto dest: map_of_SomeD)
    with Some cur [of i] show ?thesis
      by (simp add: live_amount_def live' bal_def new_balance_def split: option.split)
  qed (simp add: live_amount_def live' bal_def)
  moreover have "i \<notin> fst ` set entries \<Longrightarrow> live_map t' i = live_map t i" for i
    using map_of_eq_None_iff [of entries i] by (simp add: live')
  moreover have "run_all (\<lambda>_. None) (undo_block b) t' = t"
    using undo_closed_balances [OF assms(1), of I cur entries] by (simp add: t'_def docs_def)
  ultimately show ?thesis using upd by (auto simp: t'_def docs_def)
qed

text \<open>
  C6: rewriting the balances at a block ends without an error, keeps one live row per balance, and
  sets the amount of every balance of the changes to its old amount (zero for a new balance) plus its
  change, leaving the other balances alone. Doing it again, as after a failed attempt at the block,
  gives the same table.
\<close>

theorem update_balances_spec:
  assumes "settled b t" and "distinct (map fst entries)"
  shows "\<exists>t'. update_balances entries b t = Some (Inr t') \<and> hist_ok bal_id b t' \<and>
    (\<forall>i. live_amount t' i = live_amount t i + bal entries i) \<and>
    (\<forall>i. i \<notin> fst ` set entries \<longrightarrow> live_map t' i = live_map t i) \<and>
    update_balances entries b t' = Some (Inr t')"
proof -
  obtain t' where t': "update_balances entries b t = Some (Inr t')" "hist_ok bal_id b t'"
    "\<forall>i. live_amount t' i = live_amount t i + bal entries i"
    "\<forall>i. i \<notin> fst ` set entries \<longrightarrow> live_map t' i = live_map t i" and undo: "run_all (\<lambda>_. None) (undo_block b) t' = t"
    using update_balances_run [OF assms] by blast
  have "update_balances entries b t' = Some (Inr t')"
  proof (cases "entries = []")
    case False
    then show ?thesis using update_balances_undo [OF undo undo_block_settled [OF assms(1)]] t'(1) by simp
  qed (simp add: update_balances_def)
  with t' show ?thesis by blast
qed

definition balance_rows_example :: balance_table where
  "balance_rows_example =
     [\<lparr>row_id = ''a-upokt'', row_data = \<lparr>bal_id = ''a-upokt'', bal_account_id = ''a'',
         bal_denom = Some ''upokt'', bal_amount = 10, last_updated_block_id = 3\<rparr>,
       lower = 3, upper = Some 5\<rparr>,
      \<lparr>row_id = ''a-upokt'', row_data = \<lparr>bal_id = ''a-upokt'', bal_account_id = ''a'',
         bal_denom = Some ''upokt'', bal_amount = 12, last_updated_block_id = 5\<rparr>,
       lower = 5, upper = None\<rparr>]"

theorem update_balances_spec_witness:
  "\<exists>t'. update_balances [(''a-upokt'', - 3), (''b-upokt'', 5)] 7 balance_rows_example = Some (Inr t') \<and>
     live_amount t' ''a-upokt'' = 9 \<and> live_amount t' ''b-upokt'' = 5"
proof -
  have "settled 7 balance_rows_example" by code_simp
  from update_balances_spec [OF this, of "[(''a-upokt'', - 3), (''b-upokt'', 5)]"]
  obtain t' where t': "update_balances [(''a-upokt'', - 3), (''b-upokt'', 5)] 7 balance_rows_example = Some (Inr t')"
    "live_amount t' i = live_amount balance_rows_example i + bal [(''a-upokt'', - 3), (''b-upokt'', 5)] i" for i
    by auto
  have "live_amount balance_rows_example ''a-upokt'' = 12" "live_amount balance_rows_example ''b-upokt'' = 0"
    by code_simp+
  with t' show ?thesis by (simp add: bal_def)
qed

subsection \<open>Accounts are inserted once\<close>

definition row_keys :: "account_row hrow list \<Rightarrow> string list" where
  "row_keys t = map (ar_key \<circ> row_data) t"

lemma insert_rows_keys:
  "distinct (row_keys t) \<Longrightarrow>
     distinct (row_keys (foldl (insert_row (\<lambda>r. Some (ar_key (row_data r)))) t rs)) \<and>
     set (row_keys (foldl (insert_row (\<lambda>r. Some (ar_key (row_data r)))) t rs)) =
       set (row_keys t) \<union> set (row_keys rs) \<and>
     take (length t) (foldl (insert_row (\<lambda>r. Some (ar_key (row_data r)))) t rs) = t"
proof (induction rs arbitrary: t)
  case Nil
  then show ?case by (simp add: row_keys_def)
next
  case (Cons r rs)
  define t' where "t' = insert_row (\<lambda>r. Some (ar_key (row_data r))) t r"
  have t': "t' = (if ar_key (row_data r) \<in> set (row_keys t) then t else t @ [r])"
    by (auto simp: t'_def insert_row_def row_keys_def image_iff)
  with Cons.prems have "distinct (row_keys t')" by (auto simp: row_keys_def)
  from Cons.IH [OF this] t' show ?case
    unfolding foldl_Cons t'_def [symmetric]
    by (auto simp: row_keys_def split: if_splits dest: arg_cong [where f = "take (length t)"])
qed

text \<open>
  Enforcing a block's accounts keeps every row of the Account table, adds a row for exactly the
  accounts whose key is not there yet, and never makes a second row with a key, however often an
  account is named and however often it runs.
\<close>

theorem enforce_accounts_exists_once:
  assumes "enforce_accounts_exists sha256 b accounts = Inr (acc, mods)" and "distinct (row_keys t)"
  defines "t' \<equiv> run_all (\<lambda>r. Some (ar_key (row_data r))) acc t"
  shows "distinct (row_keys t') \<and> take (length t) t' = t \<and>
    set (row_keys t') = set (row_keys t) \<union> (generate_deterministic_uuid sha256 \<circ> ap_id) ` set accounts"
proof -
  obtain ss where "optimized_bulk_create ar_id None b (\<lambda>a. Inr (account_doc sha256 a)) Omit accounts = Inr ss"
    "run_all (\<lambda>r. Some (ar_key (row_data r))) ss t =
       foldl (insert_row (\<lambda>r. Some (ar_key (row_data r)))) t (map (new_row ar_id b \<circ> account_doc sha256) accounts)"
    using optimized_bulk_create_omit [of ar_id None b "account_doc sha256" accounts] by auto
  with assms(1) have "t' = foldl (insert_row (\<lambda>r. Some (ar_key (row_data r)))) t
      (map (new_row ar_id b \<circ> account_doc sha256) accounts)"
    by (auto simp: t'_def enforce_accounts_exists_def res_eq_Inr split: if_splits)
  then show ?thesis
    using insert_rows_keys [OF assms(2), of "map (new_row ar_id b \<circ> account_doc sha256) accounts"]
    by (simp add: row_keys_def account_doc_def image_image comp_def)
qed

theorem enforce_accounts_exists_once_witness:
  "\<exists>acc mods. enforce_accounts_exists (\<lambda>bs. take 32 (rev bs @ replicate 32 0)) 7
       [\<lparr>ap_id = ''a'', ap_chain_id = ''c'', ap_module = None\<rparr>] = Inr (acc, mods) \<and>
     distinct (row_keys (run_all (\<lambda>r. Some (ar_key (row_data r))) acc []))"
proof -
  obtain acc mods where *: "enforce_accounts_exists (\<lambda>bs. take 32 (rev bs @ replicate 32 0)) 7
       [\<lparr>ap_id = ''a'', ap_chain_id = ''c'', ap_module = None\<rparr>] = Inr (acc, mods)"
    by (simp add: enforce_accounts_exists_def optimized_bulk_create_def batch_size_def)
  have "distinct (row_keys [])" by (simp add: row_keys_def)
  with enforce_accounts_exists_once [OF * this] * show ?thesis by blast
qed

end
