(* ===== verification/Validators.thy ===== *)
theory Validators
  imports Balances Coins Crypto JsNumber Claims Reconcile "HOL-Library.Countable"
begin

text \<open>
  \<open>src/mappings/pocket/validator.ts\<close>: creation of validators, their rewards and commissions, and the
  reconciliation of the stored validators with the chain's. A description or a commission is a flat
  object of texts (\<open>flat\<close>); a decoded \<open>MsgCreateValidator\<close> and the signer infos of its transaction
  come with the message. \<open>collate\<close> is the position of a key in the order of \<open>localeCompare\<close>, and a
  self delegation that is not a number is \<open>None\<close>.
\<close>

type_synonym flat = "(string \<times> string option) list"

record validator =
  va_id :: string
  va_ed25519 :: string
  va_signer :: string
  va_signer_pokt :: string
  va_description :: "flat option"
  va_commission :: "flat option"
  va_min_self :: "int option"
  va_stake_denom :: string
  va_stake_amount :: int
  va_status :: stake_status
  va_transaction :: string
  va_create_msg :: string

record create_validator =
  cv_pubkey :: "any_msg option"
  cv_validator_address :: string
  cv_description :: "flat option"
  cv_commission :: "flat option"
  cv_min_self :: string
  cv_value :: coin

record msg_create_validator =
  mcv_id :: string
  mcv_pubkey :: "string \<times> string"
  mcv_address :: string
  mcv_signer :: string
  mcv_signer_pokt :: string
  mcv_description :: "flat option"
  mcv_commission :: "flat option"
  mcv_min_self :: "int option"
  mcv_stake :: "int \<times> string"
  mcv_transaction_id :: string
  mcv_block_id :: int

record reward_row =
  rw_id :: string
  rw_block_id :: int
  rw_validator :: string
  rw_event :: string
  rw_amount :: int
  rw_denom :: string

text \<open>A validator of the chain's answer; \<open>bond\<close> is the number of its \<open>BondStatus\<close>.\<close>

record chain_validator =
  ch_operator :: string
  ch_description :: "flat option"
  ch_commission :: "flat option"
  ch_min_self :: string
  ch_tokens :: string
  ch_bond :: int

record validator_db =
  validators :: "validator hrow list"
  msg_create_validators :: "msg_create_validator tbl"
  validator_accounts :: "account_row hrow list"
  reward_rows :: "reward_row hrow list"
  commission_rows :: "reward_row hrow list"
  reported_missing :: "string list"

definition fetch_all_validator_by_status :: "int \<Rightarrow> stake_status \<Rightarrow> validator_db \<Rightarrow> validator list" where
  "fetch_all_validator_by_status b s st = fetch_all b (\<lambda>v. va_status v = s) (validators st)"

subsection \<open>Creation\<close>

definition PREFIX :: string where
  "PREFIX = ''pokt''"

definition VALIDATOR_PREFIX :: string where
  "VALIDATOR_PREFIX = ''poktvaloper''"

text \<open>The signer's address under both prefixes, and whether it was derived from the key.\<close>

definition signer_addresses ::
  "crypto \<Rightarrow> ('pk, 'mpk) amino \<Rightarrow> signer_info \<Rightarrow> any_msg \<Rightarrow> (string \<times> string \<times> bool) res" where
  "signer_addresses c a si pk =
     bind_res (is_multi si) (\<lambda>multi.
       if multi then
         bind_res (extract_threshold_and_pubkeys a (any_value pk)) (\<lambda>(thr, keys).
         bind_res (get_multi_sign_pub_key_address a keys thr VALIDATOR_PREFIX) (\<lambda>(oper, _).
         bind_res (get_multi_sign_pub_key_address a keys thr PREFIX) (\<lambda>(addr, _).
           Inr (oper, addr, True))))
       else if any_type_url pk = Secp256k1 then
         bind_res (pub_key_to_address c Secp256k1 (any_value pk) (Some VALIDATOR_PREFIX) False) (\<lambda>oper.
         bind_res (pub_key_to_address c Secp256k1 (any_value pk) (Some PREFIX) False) (\<lambda>addr.
           Inr (oper, addr, True)))
       else Inr (''Unsupported Signer: '' @ any_type_url pk, ''Unsupported Signer: '' @ any_type_url pk, False))"

definition first_public_key :: "signer_info list \<Rightarrow> (signer_info \<times> any_msg) res" where
  "first_public_key infos = (case infos of
     si # _ \<Rightarrow> map_res (Pair si) (require ''[handleValidatorMsgCreate] missing signerInfos public key'' (public_key si))
   | [] \<Rightarrow> throw ''[handleValidatorMsgCreate] missing signerInfos public key'')"

definition created_validator :: "msg_create_validator \<Rightarrow> string \<Rightarrow> validator" where
  "created_validator m operator =
     \<lparr>va_id = operator, va_ed25519 = mcv_address m, va_signer = mcv_signer m, va_signer_pokt = mcv_signer_pokt m,
      va_description = mcv_description m, va_commission = mcv_commission m, va_min_self = mcv_min_self m,
      va_stake_denom = snd (mcv_stake m), va_stake_amount = fst (mcv_stake m), va_status = Staked,
      va_transaction = mcv_transaction_id m, va_create_msg = mcv_id m\<rparr>"

definition handle_validator_msg_create_one ::
  "crypto \<Rightarrow> ('pk, 'mpk) amino \<Rightarrow> string \<Rightarrow> int \<Rightarrow> cosmos_msg \<times> signer_info list \<times> create_validator \<Rightarrow>
   (validator \<times> msg_create_validator \<times> account_params list) res" where
  "handle_validator_msg_create_one c a chain b = (\<lambda>(msg, infos, cv).
     bind_res (first_public_key infos) (\<lambda>(si, pk).
     bind_res (signer_addresses c a si pk) (\<lambda>(oper, addr, derived).
     bind_res (require ''Pubkey is nil'' (cv_pubkey cv)) (\<lambda>key.
     bind_res (require_str ''[handleValidatorMsgCreate] missing validatorAddress in MsgCreateValidator''
         (cv_validator_address cv)) (\<lambda>operator.
     if derived \<and> oper \<noteq> operator then
       throw (''[handleValidatorMsgCreate] derived signer address '' @ oper @ '' != msg validatorAddress '' @ operator)
     else
       bind_res (am_to_base64 a (Some (any_value key))) (\<lambda>key64.
       bind_res (pub_key_to_address c Ed25519 (any_value key) (Some VALIDATOR_PREFIX) False) (\<lambda>address.
       bind_res (big_int (amount (cv_value cv))) (\<lambda>stake.
         let m = \<lparr>mcv_id = message_id msg, mcv_pubkey = (any_type_url key, key64), mcv_address = address,
               mcv_signer = oper, mcv_signer_pokt = addr, mcv_description = cv_description cv,
               mcv_commission = cv_commission cv, mcv_min_self = parse_int (cv_min_self cv),
               mcv_stake = (stake, denom (cv_value cv)), mcv_transaction_id = tx_hash (msg_tx msg), mcv_block_id = b\<rparr> in
         Inr (created_validator m operator, m,
              [\<lparr>ap_id = oper, ap_chain_id = chain, ap_module = None\<rparr>,
               \<lparr>ap_id = addr, ap_chain_id = chain, ap_module = None\<rparr>])))))))))"

text \<open>The accounts are inserted once, whatever the rows of other handlers.\<close>

definition add_accounts :: "(bytes \<Rightarrow> bytes) \<Rightarrow> int \<Rightarrow> account_params list \<Rightarrow> account_row hrow list \<Rightarrow> account_row hrow list res" where
  "add_accounts sha256 b ps t =
     map_res (\<lambda>(ss, _). run_all (\<lambda>r. Some (ar_key (row_data r))) ss t) (enforce_accounts_exists sha256 b ps)"

definition handle_validator_msg_create ::
  "crypto \<Rightarrow> ('pk, 'mpk) amino \<Rightarrow> string \<Rightarrow> int \<Rightarrow> (cosmos_msg \<times> signer_info list \<times> create_validator) list \<Rightarrow>
   validator_db \<Rightarrow> validator_db res" where
  "handle_validator_msg_create c a chain b msgs st =
     bind_res (foldM_res (\<lambda>(vs, st) m.
         bind_res (handle_validator_msg_create_one c a chain b m) (\<lambda>(v, row, ps).
         map_res (\<lambda>accounts. (vs @ [v], st\<lparr>validator_accounts := accounts,
             msg_create_validators := save mcv_id row (msg_create_validators st)\<rparr>))
           (add_accounts (c_sha256 c) b ps (validator_accounts st)))) ([], st) msgs) (\<lambda>(vs, st').
       Inr (if vs = [] then st' else st'\<lparr>validators := put_versions va_id b vs (validators st')\<rparr>))"

subsection \<open>Rewards and commissions\<close>

definition handle_validator_reward_or_commission :: "int \<Rightarrow> cosmos_event \<Rightarrow> reward_row res" where
  "handle_validator_reward_or_commission b ev =
     (let as = attributes (event ev) in
      bind_res (require_str ''[handleValidatorReward] validator not provided in event''
          (text_or_empty (attr_first ''validator'' as))) (\<lambda>v.
      bind_res (parse_coins (case attr_first ''amount'' as of None \<Rightarrow> ''0upokt'' | Some a \<Rightarrow> a)) (\<lambda>coins.
        case coins of
          [] \<Rightarrow> throw ''[handleValidatorReward] amount not provided in event''
        | coin # _ \<Rightarrow>
            map_res (\<lambda>n. \<lparr>rw_id = dash (get_event_id ev) v, rw_block_id = b, rw_validator = v,
                rw_event = get_event_id ev, rw_amount = n, rw_denom = denom coin\<rparr>) (big_int (amount coin)))))"

definition store_rewards :: "int \<Rightarrow> cosmos_event list \<Rightarrow> reward_row hrow list \<Rightarrow> reward_row hrow list res" where
  "store_rewards b evs t = map_res (\<lambda>ss. run_all (\<lambda>_. None) ss t)
     (optimized_bulk_create rw_id (Some rw_block_id) b (handle_validator_reward_or_commission b) ByBlockId evs)"

definition handle_validator_rewards :: "int \<Rightarrow> cosmos_event list \<Rightarrow> validator_db \<Rightarrow> validator_db res" where
  "handle_validator_rewards b evs st =
     map_res (\<lambda>t. st\<lparr>reward_rows := t\<rparr>) (store_rewards b evs (reward_rows st))"

definition handle_validator_commission :: "int \<Rightarrow> cosmos_event list \<Rightarrow> validator_db \<Rightarrow> validator_db res" where
  "handle_validator_commission b evs st =
     map_res (\<lambda>t. st\<lparr>commission_rows := t\<rparr>) (store_rewards b evs (commission_rows st))"

subsection \<open>Reconciliation\<close>

definition map_bond_status :: "int \<Rightarrow> stake_status" where
  "map_bond_status n = (if n = 3 then Staked else if n = 2 then Unstaking else Unstaked)"

definition canonical :: "(string \<Rightarrow> nat) \<Rightarrow> flat option \<Rightarrow> flat option" where
  "canonical collate v = map_option
     (\<lambda>f. sort_key (\<lambda>(k, _). collate k) (filter (\<lambda>(_, x). x \<noteq> None \<and> x \<noteq> Some []) f)) v"

definition json_field_equals :: "(string \<Rightarrow> nat) \<Rightarrow> flat option \<Rightarrow> flat option \<Rightarrow> bool" where
  "json_field_equals collate a b \<longleftrightarrow> canonical collate a = canonical collate b"

definition or_text :: "string \<Rightarrow> string \<Rightarrow> string" where
  "or_text s d = (if s = [] then d else s)"

definition or_else :: "'a option \<Rightarrow> 'a option \<Rightarrow> 'a option" where
  "or_else x y = (case x of None \<Rightarrow> y | Some _ \<Rightarrow> x)"

definition synced :: "chain_validator \<Rightarrow> int \<Rightarrow> validator \<Rightarrow> validator" where
  "synced cv tokens v =
     v\<lparr>va_description := or_else (ch_description cv) (va_description v),
       va_commission := or_else (ch_commission cv) (va_commission v),
       va_min_self := parse_int (or_text (ch_min_self cv) ''0''),
       va_stake_amount := tokens, va_status := map_bond_status (ch_bond cv)\<rparr>"

text \<open>\<open>NaN === NaN\<close> is false.\<close>

definition in_sync :: "(string \<Rightarrow> nat) \<Rightarrow> validator \<Rightarrow> validator \<Rightarrow> bool" where
  "in_sync collate v w \<longleftrightarrow> va_status v = va_status w \<and> va_stake_amount v = va_stake_amount w \<and>
     va_min_self v \<noteq> None \<and> va_min_self v = va_min_self w \<and>
     json_field_equals collate (va_description v) (va_description w) \<and>
     json_field_equals collate (va_commission v) (va_commission w)"

definition reconcile_one ::
  "(string \<Rightarrow> nat) \<Rightarrow> validator_db \<Rightarrow> validator list \<Rightarrow> chain_validator \<Rightarrow> validator list res" where
  "reconcile_one collate st acc cv = (case live_map (validators st) (ch_operator cv) of
     None \<Rightarrow> Inr acc
   | Some v \<Rightarrow> map_res (\<lambda>tokens. if in_sync collate v (synced cv tokens v) then acc else acc @ [synced cv tokens v])
       (big_int (or_text (ch_tokens cv) ''0'')))"

definition close_out :: "validator \<Rightarrow> validator" where
  "close_out v = v\<lparr>va_status := Unstaked, va_stake_amount := 0\<rparr>"

definition reconcile_validators ::
  "(string \<Rightarrow> nat) \<Rightarrow> int \<Rightarrow> chain_validator list res \<Rightarrow> validator_db \<Rightarrow> validator_db res" where
  "reconcile_validators collate b answer st = (case answer of
     Inl _ \<Rightarrow> Inr st
   | Inr chain \<Rightarrow>
       bind_res (foldM_res (reconcile_one collate st) [] chain) (\<lambda>upserts.
         let seen = set (map ch_operator chain);
             tracked = fetch_all_validator_by_status b Staked st @ fetch_all_validator_by_status b Unstaking st;
             gone = filter (\<lambda>v. va_id v \<notin> seen) tracked;
             closed = map close_out (filter (\<lambda>v. va_status v = Unstaking) gone);
             lost = map va_id (filter (\<lambda>v. va_status v \<noteq> Unstaking) gone) in
         Inr (st\<lparr>reported_missing := js_set (filter (\<lambda>i. i \<notin> seen) (reported_missing st) @ lost),
              validators := (if upserts @ closed = [] then validators st
                else put_versions va_id b (upserts @ closed) (validators st))\<rparr>)))"

subsection \<open>Lemmas\<close>

lemma synced_id [simp]: "va_id (synced cv n v) = va_id v" and close_out_id [simp]: "va_id (close_out v) = va_id v"
  by (simp_all add: synced_def close_out_def)

text \<open>The chain's numbers can be read.\<close>

definition chain_reads :: "(chain_validator \<Rightarrow> int) \<Rightarrow> chain_validator \<Rightarrow> bool" where
  "chain_reads val cv \<longleftrightarrow> big_int (or_text (ch_tokens cv) ''0'') = Inr (val cv) \<and>
     parse_int (or_text (ch_min_self cv) ''0'') \<noteq> None"

lemma in_sync_synced: "chain_reads val cv \<Longrightarrow> in_sync collate (synced cv n v) (synced cv n (synced cv n v))"
  by (simp add: in_sync_def synced_def json_field_equals_def or_else_def chain_reads_def split: option.split)

text \<open>What is written for a stored validator, and what becomes of it.\<close>

definition sync_write :: "(string \<Rightarrow> nat) \<Rightarrow> (chain_validator \<Rightarrow> int) \<Rightarrow> chain_validator \<Rightarrow> validator \<Rightarrow> validator option" where
  "sync_write collate val cv v =
     (if in_sync collate v (synced cv (val cv) v) then None else Some (synced cv (val cv) v))"

interpretation va_chain: reconciliation va_id ch_operator va_status "sync_write collate val" close_out for collate val
  by unfold_locales (auto simp: sync_write_def close_out_def split: if_splits)

definition reconciled_validator ::
  "(string \<Rightarrow> nat) \<Rightarrow> (chain_validator \<Rightarrow> int) \<Rightarrow> chain_validator list \<Rightarrow> validator \<Rightarrow> validator" where
  "reconciled_validator collate val chain v = (case chain_entry ch_operator chain (va_id v) of
     Some cv \<Rightarrow> if in_sync collate v (synced cv (val cv) v) then v else synced cv (val cv) v
   | None \<Rightarrow> if va_status v = Unstaking then close_out v else v)"

lemma reconciled_by_validator:
  "reconciled_by va_id ch_operator va_status (sync_write collate val) close_out chain =
     reconciled_validator collate val chain"
  by (rule ext) (simp add: reconciled_by_def reconciled_validator_def sync_write_def split: option.split)

abbreviation validator_writes ::
  "(string \<Rightarrow> nat) \<Rightarrow> (chain_validator \<Rightarrow> int) \<Rightarrow> int \<Rightarrow> chain_validator list \<Rightarrow> validator hrow list \<Rightarrow> validator list" where
  "validator_writes collate val b chain t \<equiv> chain_upserts ch_operator (sync_write collate val) chain (live_map t) @
     chain_dropped va_id ch_operator va_status close_out b chain t"

lemma reconcile_ones:
  assumes "list_all (chain_reads val) chain"
  shows "foldM_res (reconcile_one collate st) acc chain =
    Inr (acc @ chain_upserts ch_operator (sync_write collate val) chain (live_map (validators st)))"
  using assms
  by (induction chain arbitrary: acc)
    (auto simp: reconcile_one_def sync_write_def chain_reads_def chain_upserts_Cons split: option.split)

lemma reconcile_validators_run:
  assumes "list_all (chain_reads val) chain"
  shows "\<exists>st'. reconcile_validators collate b (Inr chain) st = Inr st' \<and>
    validators st' = put_versions va_id b (validator_writes collate val b chain (validators st)) (validators st)"
  using reconcile_ones [OF assms, of collate st "[]"]
  by (simp add: reconcile_validators_def chain_dropped_def fetch_all_validator_by_status_def filter_filter
      conj_commute [of "va_status _ = _"] Let_def)

text \<open>A listed validator agrees with the chain after the reconciliation, so that a second one writes nothing.\<close>

lemma reconciled_in_sync:
  assumes "list_all (chain_reads val) chain" "distinct (map ch_operator chain)" "cv \<in> set chain" "va_id w = ch_operator cv"
  shows "in_sync collate (reconciled_validator collate val chain w) (synced cv (val cv) (reconciled_validator collate val chain w))"
proof -
  have "chain_entry ch_operator chain (va_id w) = Some cv" using assms(3,4) chain_entry_mem [OF assms(2)] by simp
  moreover have "chain_reads val cv" using assms(1,3) by (simp add: list_all_iff)
  ultimately show ?thesis using in_sync_synced by (simp add: reconciled_validator_def)
qed

lemma nothing_to_write:
  assumes "hist_ok va_id b t'"
    and "\<And>i. live_map t' i = map_option (reconciled_validator collate val chain) (live_map t i)"
    and "\<And>cv v. cv \<in> set chain \<Longrightarrow> live_map t' (ch_operator cv) = Some v \<Longrightarrow> in_sync collate v (synced cv (val cv) v)"
  shows "validator_writes collate val b chain t' = []"
proof -
  have "x \<notin> set (chain_upserts ch_operator (sync_write collate val) chain (live_map t'))" for x
    using assms(3) by (auto simp: chain_upserts_mem sync_write_def split: if_splits)
  then have "chain_upserts ch_operator (sync_write collate val) chain (live_map t') = []" using hd_in_set by blast
  then show ?thesis
    using va_chain.none_dropped [OF assms(1), of collate val chain t] assms(2) by (simp add: reconciled_by_validator)
qed


definition validator_example :: "string \<Rightarrow> int \<Rightarrow> stake_status \<Rightarrow> validator" where
  "validator_example i n s = \<lparr>va_id = i, va_ed25519 = ''E'', va_signer = i, va_signer_pokt = ''p'',
     va_description = Some [(''moniker'', Some ''m'')], va_commission = None, va_min_self = Some 1,
     va_stake_denom = ''upokt'', va_stake_amount = n, va_status = s, va_transaction = ''AB'', va_create_msg = ''AB-0''\<rparr>"

definition validator_db_example :: validator_db where
  "validator_db_example = \<lparr>validators = map (new_row va_id 3)
       [validator_example ''a'' 5 Staked, validator_example ''b'' 6 Unstaking, validator_example ''c'' 7 Staked],
     msg_create_validators = (\<lambda>_. None), validator_accounts = [], reward_rows = [], commission_rows = [],
     reported_missing = []\<rparr>"

definition chain_validator_example :: chain_validator where
  "chain_validator_example = \<lparr>ch_operator = ''a'', ch_description = Some [(''details'', Some []), (''moniker'', Some ''m'')],
     ch_commission = None, ch_min_self = ''1'', ch_tokens = ''9'', ch_bond = 2\<rparr>"


subsection \<open>Fields compared as JSON\<close>

definition flat_value :: "flat \<Rightarrow> string \<Rightarrow> string option" where
  "flat_value f k = (case map_of f k of Some (Some x) \<Rightarrow> if x = [] then None else Some x | _ \<Rightarrow> None)"

lemma flat_value_mem:
  assumes "distinct (map fst f)"
  shows "flat_value f k = Some x \<longleftrightarrow> (k, Some x) \<in> set (filter (\<lambda>(_, x). x \<noteq> None \<and> x \<noteq> Some []) f)"
proof -
  have "(k, Some x) \<in> set f \<longleftrightarrow> map_of f k = Some (Some x)" using map_of_eq_Some_iff [OF assms] by metis
  then show ?thesis by (auto simp: flat_value_def split: option.splits if_splits)
qed

text \<open>
  Two descriptions or commissions count as equal exactly when both or none are absent and they have
  the same texts, not counting absent and empty ones, whatever the order of the keys; the order only
  has to tell the keys apart.
\<close>

theorem json_field_equals_spec:
  assumes "inj collate" and "distinct (map fst f)" and "distinct (map fst g)"
  shows "(json_field_equals collate (Some f) (Some g) \<longleftrightarrow> flat_value f = flat_value g) \<and>
    \<not> json_field_equals collate None (Some f) \<and> json_field_equals collate None None"
proof -
  define kept :: "flat \<Rightarrow> flat" where "kept = filter (\<lambda>(_, x). x \<noteq> None \<and> x \<noteq> Some [])"
  have key: "(\<lambda>(k, _). collate k) = collate \<circ> fst" by auto
  have can: "canonical collate (Some h) = Some (sort_key (collate \<circ> fst) (kept h))" for h
    by (simp add: canonical_def kept_def key)
  have dist: "distinct (map (collate \<circ> fst) (sort_key (collate \<circ> fst) (kept h)))" if "distinct (map fst h)" for h
  proof -
    have "distinct (map fst (kept h))" using that by (simp add: kept_def distinct_map_filter)
    then have "distinct (map collate (map fst (kept h)))"
      using distinct_map [of collate "map fst (kept h)"] inj_on_subset [OF assms(1)] by blast
    then have "distinct (map (collate \<circ> fst) (kept h))" by simp
    then show ?thesis by (simp add: distinct_map inj_on_def)
  qed
  have "sort_key (collate \<circ> fst) (kept f) = sort_key (collate \<circ> fst) (kept g) \<longleftrightarrow> set (kept f) = set (kept g)"
  proof
    assume eq: "set (kept f) = set (kept g)"
    have "inj_on (collate \<circ> fst) (set (kept f))" using dist [OF assms(2)] by (simp add: distinct_map)
    then show "sort_key (collate \<circ> fst) (kept f) = sort_key (collate \<circ> fst) (kept g)"
      using eq dist [OF assms(2)] dist [OF assms(3)]
      by (intro map_sorted_distinct_set_unique [of "collate \<circ> fst"]) simp_all
  qed (metis set_sort)
  moreover have "set (kept f) = set (kept g) \<longleftrightarrow> flat_value f = flat_value g"
  proof
    assume eq: "flat_value f = flat_value g"
    have "(k, x) \<in> set (kept f) \<longleftrightarrow> (k, x) \<in> set (kept g)" for k x
      using flat_value_mem [OF assms(2), of k "the x"] flat_value_mem [OF assms(3), of k "the x"] eq
      by (cases x) (auto simp: kept_def)
    then show "set (kept f) = set (kept g)" by auto
  next
    assume eq: "set (kept f) = set (kept g)"
    have "flat_value f k = Some x \<longleftrightarrow> flat_value g k = Some x" for k x
      using flat_value_mem [OF assms(2), folded kept_def] flat_value_mem [OF assms(3), folded kept_def] eq by blast
    then show "flat_value f = flat_value g" by (metis option.exhaust ext)
  qed
  ultimately show ?thesis by (simp add: json_field_equals_def can) (simp add: canonical_def)
qed

theorem json_field_equals_spec_witness:
  "\<exists>collate. inj collate \<and> json_field_equals collate (Some [(''b'', Some ''x''), (''a'', Some [])]) (Some [(''b'', Some ''x'')])"
proof -
  obtain collate :: "string \<Rightarrow> nat" where "inj collate" by (rule that [OF inj_to_nat])
  moreover have "flat_value [(''b'', Some ''x''), (''a'', Some [])] = flat_value [(''b'', Some ''x'')]"
    by (auto simp: flat_value_def fun_eq_iff)
  ultimately show ?thesis
    using json_field_equals_spec [of collate "[(''b'', Some ''x''), (''a'', Some [])]" "[(''b'', Some ''x'')]"] by auto
qed

end
