(* ===== verification/Routing.thy ===== *)
theory Routing
  imports Gateways StakePlan Validators JsNumber "HOL-Library.Sublist"
begin

text \<open>
  How \<open>src/mappings/indexer.manager.ts\<close> routes a block to its handlers: the block height to stop at, the
  events worth indexing, the messages and events by type, and the indexing of applications and gateways
  with the handlers of \<open>src/mappings/handlers.ts\<close>. What the source runs with \<open>Promise.all\<close> runs here in
  the order of the array: the groups of \<open>StakeGroups\<close> touch different entities.
\<close>

subsection \<open>Stopping\<close>

text \<open>\<open>Number\<close> of an unset variable is not a number, and no height is above it.\<close>

definition evaluate_block_height_stop :: "string option \<Rightarrow> nat \<Rightarrow> unit res" where
  "evaluate_block_height_stop env h = (case Option.bind env js_number of
     None \<Rightarrow> Inr ()
   | Some n \<Rightarrow> if n < of_nat h then throw (''POCKETDEX_STOP_AT_BLOCK_HEIGHT='' @ text_or_empty env @ '' reached'')
       else Inr ())"

subsection \<open>Events worth indexing\<close>

definition CoinReceiveType :: string where
  "CoinReceiveType = ''coin_received''"

definition CoinSpentType :: string where
  "CoinSpentType = ''coin_spent''"

definition is_valid_event :: "string set \<Rightarrow> cosmos_event \<Rightarrow> bool" where
  "is_valid_event modules e \<longleftrightarrow>
     (if ev_type (event e) = ''message'' then False
      else if ev_type (event e) = ''tx'' then False
      else if \<not> has_valid_amount_attribute e then False
      else \<not> (list_ex (\<lambda>(_, v). prefix PREFIX v \<and> v \<in> modules) (attributes (event e)) \<and>
        (ev_type (event e) = CoinReceiveType \<or> ev_type (event e) = CoinSpentType)))"

subsection \<open>By type\<close>

text \<open>
  Every handled type starts with an empty list; what has no handler is noted in the set of types that is
  logged.
\<close>

definition add_by_type ::
  "string list \<Rightarrow> ('d \<Rightarrow> string) \<Rightarrow> (string \<times> 'd list) list \<times> string list \<Rightarrow> 'd \<Rightarrow> (string \<times> 'd list) list \<times> string list" where
  "add_by_type handled key = (\<lambda>(m, unhandled) d.
     if key d \<notin> set handled then (m, add_unique (key d) unhandled)
     else (case map_of m (key d) of None \<Rightarrow> (m, unhandled) | Some ds \<Rightarrow> (dict_set (key d) (ds @ [d]) m, unhandled)))"

definition by_type :: "string list \<Rightarrow> ('d \<Rightarrow> string) \<Rightarrow> 'd list \<Rightarrow> (string \<times> 'd list) list \<times> string list" where
  "by_type handled key ds = foldl (add_by_type handled key) (foldl (\<lambda>m t. dict_set t [] m) [] handled, []) ds"

definition msg_handler_types :: "string list" where
  "msg_handler_types = [''/cosmos.authz.v1beta1.MsgGrant'', ''/pocket.migration.MsgClaimMorseAccount'',
     ''/pocket.migration.MsgRecoverMorseAccount'', ''/pocket.migration.MsgClaimMorseApplication'',
     ''/cosmos.bank.v1beta1.MsgSend'', ''/cosmos.staking.v1beta1.MsgCreateValidator'',
     ''/cosmos.authz.v1beta1.MsgExec'', ''/pocket.application.MsgStakeApplication'',
     ''/pocket.application.MsgDelegateToGateway'', ''/pocket.application.MsgUndelegateFromGateway'',
     ''/pocket.application.MsgUnstakeApplication'', ''/pocket.application.MsgTransferApplication'',
     ''/pocket.service.MsgAddService'', ''/pocket.supplier.MsgStakeSupplier'',
     ''/pocket.supplier.MsgUnstakeSupplier'', ''/pocket.migration.MsgClaimMorseSupplier'',
     ''/pocket.gateway.MsgStakeGateway'', ''/pocket.gateway.MsgUnstakeGateway'',
     ''/pocket.proof.MsgCreateClaim'', ''/pocket.proof.MsgSubmitProof'']"

definition event_handler_types :: "string list" where
  "event_handler_types = [''cosmos.authz.v1beta1.EventGrant'', ''rewards'', ''commission'',
     ''pocket.application.EventTransferBegin'', ''pocket.application.EventTransferEnd'',
     ''pocket.application.EventTransferError'', ''pocket.application.EventApplicationUnbondingBegin'',
     ''pocket.application.EventApplicationUnbondingEnd'', ''pocket.supplier.EventSupplierServiceConfigActivated'',
     ''pocket.supplier.EventSupplierUnbondingBegin'', ''pocket.supplier.EventSupplierUnbondingEnd'',
     ''pocket.service.EventRelayMiningDifficultyUpdated'', ''pocket.gateway.EventGatewayUnstaked'',
     ''pocket.gateway.EventGatewayUnbondingBegin'', ''pocket.gateway.EventGatewayUnbondingEnd'',
     ''pocket.tokenomics.EventClaimSettled'', ''pocket.tokenomics.EventClaimExpired'',
     ''pocket.tokenomics.EventSupplierSlashed'', ''pocket.tokenomics.EventApplicationOverserviced'',
     ''pocket.tokenomics.EventApplicationReimbursementRequest'', ''pocket.tokenomics.EventSettlementBatch'',
     ''pocket.tokenomics.EventValidatorRewardDistribution'', ''pocket.proof.EventClaimUpdated'',
     ''pocket.proof.EventProofUpdated'', ''pocket.proof.EventProofValidityChecked'',
     ''mint'', ''coinbase'', ''transfer'', ''burn'']"

definition msgs_by_type :: "cosmos_block \<Rightarrow> (string \<times> cosmos_msg list) list \<times> string list" where
  "msgs_by_type blk = by_type msg_handler_types type_url (block_messages blk)"

definition events_by_type :: "string set \<Rightarrow> cosmos_block \<Rightarrow> (string \<times> cosmos_event list) list \<times> string list" where
  "events_by_type modules blk = by_type (event_handler_types @ [CoinReceiveType, CoinSpentType])
     (\<lambda>e. ev_type (event e)) (filter (is_valid_event modules) (block_events blk))"

text \<open>The documents of a type, \<open>byTypeMap[type]\<close>.\<close>

definition docs_of :: "(string \<times> 'd list) list \<Rightarrow> string \<Rightarrow> 'd list" where
  "docs_of m t = (case map_of m t of None \<Rightarrow> [] | Some ds \<Rightarrow> ds)"

datatype by_tx_status = AllTxs | SuccessTxs | ErrorTxs

definition msgs_with_status :: "by_tx_status \<Rightarrow> cosmos_msg list \<Rightarrow> cosmos_msg list" where
  "msgs_with_status s ms = (case s of AllTxs \<Rightarrow> ms
     | SuccessTxs \<Rightarrow> fst (filter_msg_by_tx_status ms) | ErrorTxs \<Rightarrow> snd (filter_msg_by_tx_status ms))"

definition events_with_status :: "by_tx_status \<Rightarrow> cosmos_event list \<Rightarrow> cosmos_event list" where
  "events_with_status s es = (case s of AllTxs \<Rightarrow> es
     | SuccessTxs \<Rightarrow> fst (filter_events_by_tx_status es) | ErrorTxs \<Rightarrow> snd (filter_events_by_tx_status es))"

text \<open>
  The calls of \<open>handleByType\<close>: the types that have documents, with the documents of the status, which may
  be none.
\<close>

definition handle_by_type ::
  "string list \<Rightarrow> (string \<Rightarrow> 'd list) \<Rightarrow> ('d list \<Rightarrow> 'd list) \<Rightarrow> (string \<Rightarrow> 'd list \<Rightarrow> 's \<Rightarrow> 's res) \<Rightarrow> 's \<Rightarrow> 's res" where
  "handle_by_type types docs with_status handlers st =
     foldM_res (\<lambda>st t. if docs t = [] then Inr st else handlers t (with_status (docs t)) st) st types"

subsection \<open>Stake entities\<close>

definition index_stake_entity ::
  "(string \<Rightarrow> (attribute list \<Rightarrow> entity_ids res) option) \<Rightarrow> (string \<Rightarrow> (decoded_msg \<Rightarrow> string) option) \<Rightarrow>
   (datum \<Rightarrow> 's \<Rightarrow> 's res) \<Rightarrow> datum list \<Rightarrow> 's \<Rightarrow> 's res" where
  "index_stake_entity ids paths handle all st =
     bind_res (stake_groups ids paths all) (\<lambda>gs.
       foldM_res (\<lambda>st (_, ds). foldM_res (\<lambda>st d. handle d st) st ds) st gs)"

text \<open>\<open>get(decodedMsg, path)\<close> with the paths of stake messages; an absent member is the key \<open>undefined\<close>.\<close>

definition decoded_path :: "string \<Rightarrow> decoded_msg \<Rightarrow> string" where
  "decoded_path path d =
     (if path = ''appAddress'' then
        (case d of DelegateToGateway a _ \<Rightarrow> a | UndelegateFromGateway a _ \<Rightarrow> a | _ \<Rightarrow> ''undefined'')
      else if path = ''address'' then
        (case d of StakeApplication a _ _ \<Rightarrow> a | UnstakeApplication a \<Rightarrow> a | StakeGateway a _ \<Rightarrow> a | UnstakeGateway a \<Rightarrow> a
         | _ \<Rightarrow> ''undefined'')
      else if path = ''shannonDestAddress'' then
        (case d of ClaimMorseApplication a _ _ _ _ \<Rightarrow> a | ClaimMorseAccount a _ _ _ \<Rightarrow> a | _ \<Rightarrow> ''undefined'')
      else if path = ''sourceAddress'' then (case d of TransferApplication a _ \<Rightarrow> a | _ \<Rightarrow> ''undefined'')
      else ''undefined'')"

definition path_table :: "(string \<times> string) list \<Rightarrow> string \<Rightarrow> (decoded_msg \<Rightarrow> string) option" where
  "path_table table t = map_option decoded_path (map_of table t)"

definition optional_id :: "string option \<Rightarrow> entity_ids" where
  "optional_id i = (case i of None \<Rightarrow> NoId | Some s \<Rightarrow> OneId s)"

definition get_id_of_transfer_events :: "attribute list \<Rightarrow> entity_ids res" where
  "get_id_of_transfer_events as = Inr (optional_id (attr_first ''source_address'' as))"

text \<open>\<open>JSON.parse(value).address\<close> of the first attribute with the key.\<close>

definition get_id_of_json_attribute :: "string \<Rightarrow> attribute list \<Rightarrow> entity_ids res" where
  "get_id_of_json_attribute key as = (case attr_first key as of
     None \<Rightarrow> Inr NoId | Some v \<Rightarrow> map_res optional_id (json_address v))"

definition get_ids_of_transfer_end :: "attribute list \<Rightarrow> entity_ids res" where
  "get_ids_of_transfer_end as = Inr (ManyIds (take 2 (map (\<lambda>(_, v). strip_quotes v)
     (filter (\<lambda>(k, _). k = ''source_address'' \<or> k = ''destination_address'') as))))"

subsection \<open>Applications\<close>

definition app_msg_types :: "string list" where
  "app_msg_types = [''/pocket.application.MsgDelegateToGateway'', ''/pocket.application.MsgUndelegateFromGateway'',
     ''/pocket.application.MsgUnstakeApplication'', ''/pocket.application.MsgStakeApplication'',
     ''/pocket.migration.MsgClaimMorseApplication'', ''/pocket.application.MsgTransferApplication'']"

definition app_event_types :: "string list" where
  "app_event_types = [''pocket.application.EventTransferBegin'', ''pocket.application.EventTransferEnd'',
     ''pocket.application.EventTransferError'', ''pocket.application.EventApplicationUnbondingBegin'',
     ''pocket.application.EventApplicationUnbondingEnd'']"

definition app_ids :: "string \<Rightarrow> (attribute list \<Rightarrow> entity_ids res) option" where
  "app_ids t =
     (if t = ''pocket.application.EventTransferBegin'' \<or> t = ''pocket.application.EventTransferError''
        then Some get_id_of_transfer_events
      else if t = ''pocket.application.EventTransferEnd'' then Some get_ids_of_transfer_end
      else if t = ''pocket.application.EventApplicationUnbondingBegin'' \<or> t = ''pocket.application.EventApplicationUnbondingEnd''
        then Some (get_id_of_json_attribute ''application'')
      else None)"

definition app_paths :: "string \<Rightarrow> (decoded_msg \<Rightarrow> string) option" where
  "app_paths = path_table
     [(''/pocket.application.MsgDelegateToGateway'', ''appAddress''),
      (''/pocket.application.MsgUndelegateFromGateway'', ''appAddress''),
      (''/pocket.application.MsgUnstakeApplication'', ''address''),
      (''/pocket.application.MsgStakeApplication'', ''address''),
      (''/pocket.migration.MsgClaimMorseApplication'', ''shannonDestAddress''),
      (''/pocket.application.MsgTransferApplication'', ''sourceAddress'')]"

text \<open>The entries of \<open>MsgHandlers\<close> and \<open>EventHandlers\<close> for applications.\<close>

definition app_msg_handler :: "crypto \<Rightarrow> int \<Rightarrow> string \<Rightarrow> cosmos_msg list \<Rightarrow> app_db \<Rightarrow> app_db res" where
  "app_msg_handler c b t ms =
     (if t = ''/pocket.migration.MsgClaimMorseApplication'' then handle_msg_claim_morse_application c b ms
      else if t = ''/pocket.application.MsgStakeApplication'' then handle_app_msg_stake b ms
      else if t = ''/pocket.application.MsgDelegateToGateway'' then handle_delegate_to_gateway_msg b ms
      else if t = ''/pocket.application.MsgUndelegateFromGateway'' then handle_undelegate_from_gateway_msg b ms
      else if t = ''/pocket.application.MsgUnstakeApplication'' then handle_unstake_application_msg b ms
      else if t = ''/pocket.application.MsgTransferApplication'' then handle_transfer_application_msg b ms
      else (\<lambda>_. throw ''TypeError: handler is not a function''))"

definition app_event_handler :: "int \<Rightarrow> string \<Rightarrow> cosmos_event list \<Rightarrow> app_db \<Rightarrow> app_db res" where
  "app_event_handler b t es =
     (if t = ''pocket.application.EventTransferBegin'' then handle_transfer_application_begin_event b es
      else if t = ''pocket.application.EventTransferEnd'' then handle_transfer_application_end_event b es
      else if t = ''pocket.application.EventTransferError'' then handle_transfer_application_error_event b es
      else if t = ''pocket.application.EventApplicationUnbondingBegin'' then handle_application_unbonding_begin_event b es
      else if t = ''pocket.application.EventApplicationUnbondingEnd'' then handle_application_unbonding_end_event b es
      else (\<lambda>_. throw ''TypeError: handler is not a function''))"

definition handle_app_datum :: "crypto \<Rightarrow> int \<Rightarrow> datum \<Rightarrow> app_db \<Rightarrow> app_db res" where
  "handle_app_datum c b d = (case d of
     Ev e \<Rightarrow> app_event_handler b (ev_type (event e)) [e]
   | Ms m \<Rightarrow> app_msg_handler c b (type_url m) [m])"

definition data_of_types ::
  "string list \<Rightarrow> string list \<Rightarrow> (string \<Rightarrow> cosmos_msg list) \<Rightarrow> (string \<Rightarrow> cosmos_event list) \<Rightarrow> datum list" where
  "data_of_types msg_types event_types msgs evs =
     map Ms (concat (map msgs msg_types)) @ map Ev (concat (map evs event_types))"

definition APPLICATION_RECONCILE_MSG_TYPES :: "string list" where
  "APPLICATION_RECONCILE_MSG_TYPES = [''/pocket.application.MsgStakeApplication'',
     ''/pocket.application.MsgUnstakeApplication'', ''/pocket.application.MsgTransferApplication'',
     ''/pocket.application.MsgDelegateToGateway'', ''/pocket.application.MsgUndelegateFromGateway'',
     ''/pocket.migration.MsgClaimMorseApplication'']"

definition APPLICATION_RECONCILE_EVENT_TYPES :: "string list" where
  "APPLICATION_RECONCILE_EVENT_TYPES = [''pocket.tokenomics.EventClaimSettled'',
     ''pocket.tokenomics.EventApplicationOverserviced'', ''pocket.tokenomics.EventApplicationReimbursementRequest'',
     ''pocket.application.EventApplicationUnbondingBegin'', ''pocket.application.EventApplicationUnbondingEnd'',
     ''pocket.application.EventTransferBegin'', ''pocket.application.EventTransferEnd'',
     ''pocket.application.EventTransferError'']"

definition has_app_change :: "(string \<Rightarrow> cosmos_msg list) \<Rightarrow> (string \<Rightarrow> cosmos_event list) \<Rightarrow> bool" where
  "has_app_change msgs evs \<longleftrightarrow>
     list_ex (\<lambda>t. 0 < length (msgs t)) APPLICATION_RECONCILE_MSG_TYPES \<or>
     list_ex (\<lambda>t. 0 < length (evs t)) APPLICATION_RECONCILE_EVENT_TYPES"

text \<open>
  The stakes, then the reconciliation with the chain's list of applications, on a change or on every block
  when the environment says so.
\<close>

definition index_applications ::
  "crypto \<Rightarrow> bool \<Rightarrow> int \<Rightarrow> chain_app list \<Rightarrow> (string \<Rightarrow> cosmos_msg list) \<Rightarrow> (string \<Rightarrow> cosmos_event list) \<Rightarrow>
   app_db \<Rightarrow> app_db res" where
  "index_applications c every_block b chain msgs evs st =
     bind_res (index_stake_entity app_ids app_paths (handle_app_datum c b)
         (data_of_types app_msg_types app_event_types msgs evs) st) (\<lambda>st'.
       if has_app_change msgs evs \<or> every_block then reconcile_applications b chain st' else Inr st')"

subsection \<open>Gateways\<close>

definition gateway_msg_types :: "string list" where
  "gateway_msg_types = [''/pocket.gateway.MsgUnstakeGateway'', ''/pocket.gateway.MsgStakeGateway'']"

definition gateway_event_types :: "string list" where
  "gateway_event_types = [''pocket.gateway.EventGatewayUnstaked'', ''pocket.gateway.EventGatewayUnbondingBegin'',
     ''pocket.gateway.EventGatewayUnbondingEnd'']"

definition gateway_ids :: "string \<Rightarrow> (attribute list \<Rightarrow> entity_ids res) option" where
  "gateway_ids t = (if t \<in> set gateway_event_types then Some (get_id_of_json_attribute ''gateway'') else None)"

definition gateway_paths :: "string \<Rightarrow> (decoded_msg \<Rightarrow> string) option" where
  "gateway_paths = path_table
     [(''/pocket.gateway.MsgStakeGateway'', ''address''), (''/pocket.gateway.MsgUnstakeGateway'', ''address'')]"

definition handle_gateway_datum :: "int \<Rightarrow> datum \<Rightarrow> gateway_db \<Rightarrow> gateway_db res" where
  "handle_gateway_datum b d = (case d of
     Ev e \<Rightarrow>
       (if ev_type (event e) = ''pocket.gateway.EventGatewayUnstaked'' then handle_gateway_unstake_event b [e]
        else if ev_type (event e) = ''pocket.gateway.EventGatewayUnbondingBegin'' then handle_event_gateway_unbonding_begin b [e]
        else if ev_type (event e) = ''pocket.gateway.EventGatewayUnbondingEnd'' then handle_event_gateway_unbonding_end b [e]
        else (\<lambda>_. throw ''TypeError: handler is not a function''))
   | Ms m \<Rightarrow>
       (if type_url m = ''/pocket.gateway.MsgStakeGateway'' then handle_gateway_msg_stake b [m]
        else if type_url m = ''/pocket.gateway.MsgUnstakeGateway'' then handle_gateway_msg_unstake b [m]
        else (\<lambda>_. throw ''TypeError: handler is not a function'')))"

definition index_gateway ::
  "int \<Rightarrow> (string \<Rightarrow> cosmos_msg list) \<Rightarrow> (string \<Rightarrow> cosmos_event list) \<Rightarrow> gateway_db \<Rightarrow> gateway_db res" where
  "index_gateway b msgs evs st = index_stake_entity gateway_ids gateway_paths (handle_gateway_datum b)
     (data_of_types gateway_msg_types gateway_event_types msgs evs) st"

subsection \<open>Lemmas\<close>

lemma by_type_docs:
  assumes "fst ` set m = set handled"
  shows "docs_of (fst (foldl (add_by_type handled key) (m, u) ds)) t =
      docs_of m t @ (if t \<in> set handled then filter (\<lambda>d. key d = t) ds else []) \<and>
    set (snd (foldl (add_by_type handled key) (m, u) ds)) = set u \<union> (key ` set ds - set handled)"
  using assms
proof (induction ds arbitrary: m u)
  case Nil
  then show ?case by simp
next
  case (Cons d ds)
  show ?case
  proof (cases "key d \<in> set handled")
    case True
    then obtain xs where xs: "map_of m (key d) = Some xs"
      using Cons.prems by (metis map_of_eq_None_iff not_None_eq)
    have keys: "fst ` set (dict_set (key d) (xs @ [d]) m) = set handled"
      using Cons.prems True keys_dict_set [of "key d" "xs @ [d]" m] by auto
    show ?thesis using Cons.IH [OF keys, of u] True xs by (auto simp: add_by_type_def docs_of_def)
  next
    case False
    then show ?thesis using Cons.IH [OF Cons.prems, of "add_unique (key d) u"] by (auto simp: add_by_type_def)
  qed
qed

lemma empty_docs:
  fixes m :: "(string \<times> 'd list) list"
  shows "fst ` set (foldl (\<lambda>m t. dict_set t [] m) m ts) = fst ` set m \<union> set ts \<and>
    (\<forall>t. docs_of m t = [] \<longrightarrow> docs_of (foldl (\<lambda>m t. dict_set t [] m) m ts) t = [])"
proof (induction ts arbitrary: m)
  case Nil
  then show ?case by simp
next
  case (Cons t ts)
  have "docs_of (dict_set t ([] :: 'd list) m) u = []" if "docs_of m u = []" for u
    using that by (simp add: docs_of_def)
  moreover have "fst ` set (dict_set t ([] :: 'd list) m) = insert t (fst ` set m)" using keys_dict_set [of t "[]" m] by simp
  ultimately show ?case using Cons [of "dict_set t [] m"] by simp
qed

lemma by_type_eq:
  fixes key :: "'d \<Rightarrow> string" and ds :: "'d list"
  shows "docs_of (fst (by_type handled key ds)) t = (if t \<in> set handled then filter (\<lambda>d. key d = t) ds else [])"
    and "set (snd (by_type handled key ds)) = key ` set ds - set handled"
proof -
  define m :: "(string \<times> 'd list) list" where "m = foldl (\<lambda>m t. dict_set t [] m) [] handled"
  have m: "fst ` set m = set handled" "docs_of m t = []"
    using empty_docs [of "[] :: (string \<times> 'd list) list" handled] by (simp_all add: docs_of_def m_def)
  from by_type_docs [OF m(1), of key "[]" ds t] m(2)
  show "docs_of (fst (by_type handled key ds)) t = (if t \<in> set handled then filter (\<lambda>d. key d = t) ds else [])"
    "set (snd (by_type handled key ds)) = key ` set ds - set handled"
    by (simp_all add: by_type_def m_def)
qed


text \<open>The groups hold successful data only.\<close>

definition group_data :: "stake_data \<Rightarrow> datum set" where
  "group_data x = set (non_finalized x) \<union> Ev ` set (finalized_events x)"

lemma group_data_simps [simp]:
  "group_data no_data = {}" "group_data (add_datum d x) = insert d (group_data x)" "set (group_order x) = group_data x"
  by (auto simp: group_data_def no_data_def add_datum_def group_order_def split: datum.splits)

definition stake_data_within :: "datum set \<Rightarrow> (string \<times> stake_data) list \<Rightarrow> bool" where
  "stake_data_within S byid \<longleftrightarrow> (\<forall>p \<in> set byid. group_data (snd p) \<subseteq> S)"

lemma within_at: "stake_data_within S byid \<Longrightarrow> group_data (data_at byid i) \<subseteq> S"
  unfolding stake_data_within_def data_at_def by (cases "map_of byid i") (force dest: map_of_SomeD)+

lemma within_set: "stake_data_within S byid \<Longrightarrow> group_data x \<subseteq> S \<Longrightarrow> stake_data_within S (dict_set i x byid)"
  unfolding stake_data_within_def by (induction i x byid rule: dict_set.induct) auto

lemma within_collect:
  assumes "foldM_res (collect_datum ids paths) (conn, byid) ds = Inr (conn', byid')"
    and "stake_data_within S byid" and "set ds \<subseteq> S"
  shows "stake_data_within S byid'"
  using assms
proof (induction ds arbitrary: conn byid)
  case Nil
  then show ?case by simp
next
  case (Cons d ds)
  from Cons.prems(1) obtain conn1 byid1 where d: "collect_datum ids paths (conn, byid) d = Inr (conn1, byid1)"
    and rest: "foldM_res (collect_datum ids paths) (conn1, byid1) ds = Inr (conn', byid')"
    by (auto simp: bind_eq_Inr)
  from d obtain i where "byid1 = dict_set i (add_datum d (data_at byid i)) byid"
    by (auto simp: collect_datum_def map_res_eq_Inr)
  then have "stake_data_within S byid1"
    using within_at [OF Cons.prems(2), of i] Cons.prems(2,3) by (auto intro!: within_set)
  with Cons.IH [OF rest] Cons.prems(3) show ?case by simp
qed

lemma within_merge:
  assumes "stake_data_within S byid"
  shows "stake_data_within S (merge_component byid c)"
proof -
  have "stake_data_within S (foldl (\<lambda>d i. dict_del i d) byid c)"
    using assms unfolding dict_del_all stake_data_within_def by auto
  moreover have "group_data (merged byid c) \<subseteq> S"
    using within_at [OF assms] by (force simp: merged_def group_data_def)
  ultimately show ?thesis unfolding merge_component_def merged_def [symmetric] by (rule within_set)
qed

lemma within_merges: "stake_data_within S byid \<Longrightarrow> stake_data_within S (foldl merge_component byid cs)"
  by (induction cs arbitrary: byid) (simp_all add: within_merge)

lemma stake_groups_within:
  assumes "stake_groups ids paths all = Inr gs" and "(i, ds) \<in> set gs"
  shows "set ds \<subseteq> set (successful_data all)"
proof -
  from assms(1) obtain conn byid where
    fold: "foldM_res (collect_datum ids paths) ([], []) (successful_data all) = Inr (conn, byid)"
    and gs: "gs = map (\<lambda>(i, x). (i, group_order x)) (foldl merge_component byid (group_connected_components conn))"
    by (auto simp: stake_groups_def map_res_eq_Inr)
  have "stake_data_within (set (successful_data all)) byid"
    using within_collect [OF fold] by (simp add: stake_data_within_def)
  then have "stake_data_within (set (successful_data all)) (foldl merge_component byid (group_connected_components conn))"
    by (rule within_merges)
  then show ?thesis using assms(2) unfolding gs by (force simp: stake_data_within_def)
qed

lemma index_stake_entity_invariant:
  assumes "index_stake_entity ids paths handle all st = Inr st'" and "P st"
    and "\<And>d s s'. d \<in> set (successful_data all) \<Longrightarrow> handle d s = Inr s' \<Longrightarrow> P s \<Longrightarrow> P s'"
  shows "P st'"
proof -
  from assms(1) obtain gs where gs: "stake_groups ids paths all = Inr gs"
    and run: "foldM_res (\<lambda>st (_, ds). foldM_res (\<lambda>st d. handle d st) st ds) st gs = Inr st'"
    by (auto simp: index_stake_entity_def bind_eq_Inr)
  have "P s'" if "g \<in> set gs" "P s" "(\<lambda>(_, ds). foldM_res (\<lambda>st d. handle d st) s ds) g = Inr s'" for g s s'
  proof -
    obtain i ds where g: "g = (i, ds)" by force
    then have sub: "set ds \<subseteq> set (successful_data all)" using stake_groups_within [OF gs] that(1) by blast
    show ?thesis
    proof (rule foldM_res_invariant [where P = P and f = "\<lambda>st d. handle d st" and xs = ds and s = s])
      show "P y'" if "x \<in> set ds" "P y" "handle x y = Inr y'" for y x y'
        using assms(3) sub that by blast
    qed (use that g in auto)
  qed
  then show ?thesis
    by (rule foldM_res_invariant [where P = P, OF run assms(2), rotated]) auto
qed

end
