(* ===== verification/StakeIndex.thy ===== *)
theory StakeIndex
  imports Routing
begin

text \<open>
  The indexing of a block's stakes, \<open>indexStake\<close> of \<open>src/mappings/indexer.manager.ts\<close>: applications,
  gateways and suppliers. The three share tables: the end of a gateway's unbonding removes delegations of
  applications, and the claims of applications and of suppliers mark the same Morse accounts, so the
  state of one is handed to the next.
\<close>

text \<open>The suppliers work on the claimable accounts of the applications' tables.\<close>

definition index_stake ::
  "crypto \<Rightarrow> (string \<Rightarrow> string option) \<Rightarrow> bool \<Rightarrow> int \<Rightarrow> chain_app list \<Rightarrow> (string \<Rightarrow> cosmos_msg list) \<Rightarrow>
   (string \<Rightarrow> cosmos_event list) \<Rightarrow> gateway_db \<times> supplier_db \<Rightarrow> (gateway_db \<times> supplier_db) res" where
  "index_stake c host every_block b chain msgs evs = (\<lambda>(gw, sdb).
     bind_res (index_applications c every_block b chain msgs evs (gw_apps gw)) (\<lambda>apps.
     bind_res (index_gateway b msgs evs (gw\<lparr>gw_apps := apps\<rparr>)) (\<lambda>gw'.
     map_res (\<lambda>sdb'. (gw'\<lparr>gw_apps := (gw_apps gw')\<lparr>morse_claimables := supplier_claimables sdb'\<rparr>\<rparr>, sdb'))
       (index_supplier c host b msgs evs (sdb\<lparr>supplier_claimables := morse_claimables (gw_apps gw')\<rparr>)))))"

subsection \<open>The invariant of the stake tables\<close>

definition plain_datum :: "datum \<Rightarrow> bool" where
  "plain_datum d \<longleftrightarrow> (case d of Ev e \<Rightarrow> plain_event e | Ms m \<Rightarrow> plain_msg m)"

lemmas app_step_intros = app_step.stake app_step.delegate app_step.undelegate app_step.unstake app_step.transfer
  app_step.transfer_begin app_step.transfer_end app_step.transfer_error app_step.unbonding_begin app_step.unbonding_end

text \<open>Each datum is a step of the application tables; a claim of a Morse application is none, it throws.\<close>

lemma handle_app_datum_step:
  assumes "handle_app_datum c b d st = Inr st'" and "plain_datum d"
  shows "app_step (b, st) (b, st')"
proof (cases d)
  case (Ev e)
  then have "list_all plain_event [e]" using assms(2) by (simp add: plain_datum_def)
  then show ?thesis using assms(1) unfolding Ev handle_app_datum_def app_event_handler_def
    by (auto simp del: list.pred_inject split: if_splits intro: app_step_intros)
next
  case (Ms m)
  have "handle_msg_claim_morse_application c b [m] st \<noteq> Inr st'"
    using claim_morse_application_throws [of "[m]" c b st] by fastforce
  moreover have "list_all plain_msg [m]" using assms(2) Ms by (simp add: plain_datum_def)
  ultimately show ?thesis using assms(1) unfolding Ms handle_app_datum_def app_msg_handler_def
    by (auto simp del: list.pred_inject split: if_splits intro: app_step_intros)
qed

lemma handle_gateway_datum_step:
  assumes "handle_gateway_datum b d st = Inr st'"
  shows "gateway_step (b, st) (b, st')"
  using assms
  by (cases d) (auto simp: handle_gateway_datum_def split: if_splits intro: gateway_step.gw_stake gateway_step.gw_unstake
    gateway_step.gw_unstaked gateway_step.gw_begin gateway_step.gw_end)

lemma index_applications_ok:
  assumes "index_applications c every_block b chain msgs evs st = Inr st'" and "app_ok b st"
    and "\<forall>d \<in> set (data_of_types app_msg_types app_event_types msgs evs). plain_datum d"
  shows "app_ok b st'"
proof -
  obtain st1 where run: "index_stake_entity app_ids app_paths (handle_app_datum c b)
      (data_of_types app_msg_types app_event_types msgs evs) st = Inr st1"
    and last: "(if has_app_change msgs evs \<or> every_block then reconcile_applications b chain st1 else Inr st1) = Inr st'"
    using assms(1) by (auto simp: index_applications_def bind_eq_Inr)
  have "app_ok b st1"
  proof (rule index_stake_entity_invariant [where P = "app_ok b", OF run assms(2)])
    fix d s s'
    assume "d \<in> set (successful_data (data_of_types app_msg_types app_event_types msgs evs))"
      "handle_app_datum c b d s = Inr s'" "app_ok b s"
    then show "app_ok b s'"
      using assms(3) app_step_ok [OF handle_app_datum_step] by (simp add: set_successful_data)
  qed
  then show ?thesis using last app_step_ok [OF app_step.reconcile] by (auto split: if_splits)
qed

lemma index_gateway_inv:
  assumes "index_gateway b msgs evs st = Inr st'" and "gw_inv b st"
  shows "gw_inv b st'"
  using index_stake_entity_invariant [where P = "gw_inv b", OF assms(1) [unfolded index_gateway_def] assms(2)]
    handle_gateway_datum_step gateway_step_inv by blast

text \<open>
  Indexing the stakes of a block keeps the tables of applications and gateways in order: every
  application, service, delegation and gateway has at most one current row, the rows have the ids of
  their keys, and an unstaked gateway has no stake. This holds whatever the messages and events are, as
  long as the addresses they carry are plain.
\<close>

theorem index_stake_inv:
  assumes "index_stake c host every_block b chain msgs evs (gw, sdb) = Inr (gw', sdb')"
    and "gateway_ok b gw" and "\<forall>i g. get_gateway i gw = Some g \<longrightarrow> gw_stake_status g = Unstaked \<longrightarrow> gw_stake_amount g = 0"
    and "\<forall>d \<in> set (data_of_types app_msg_types app_event_types msgs evs). plain_datum d"
  shows "gateway_ok b gw' \<and>
    (\<forall>i g. get_gateway i gw' = Some g \<longrightarrow> gw_stake_status g = Unstaked \<longrightarrow> gw_stake_amount g = 0)"
proof -
  obtain apps gw1 where apps: "index_applications c every_block b chain msgs evs (gw_apps gw) = Inr apps"
    and gw1: "index_gateway b msgs evs (gw\<lparr>gw_apps := apps\<rparr>) = Inr gw1"
    and gw': "gw' = gw1\<lparr>gw_apps := (gw_apps gw1)\<lparr>morse_claimables := supplier_claimables sdb'\<rparr>\<rparr>"
    using assms(1) by (auto simp: index_stake_def bind_eq_Inr map_res_eq_Inr)
  have "app_ok b apps" using index_applications_ok [OF apps] assms(2,4) by (simp add: gateway_ok_def)
  then have "gw_inv b (gw\<lparr>gw_apps := apps\<rparr>)"
    using assms(2,3) by (simp add: gw_inv_def gateway_ok_def gateways_settled_def Gateways.settled_def get_gateway_def)
  from index_gateway_inv [OF gw1 this] show ?thesis
    by (simp add: gw' gw_inv_def gateway_ok_def gateways_settled_def Gateways.settled_def get_gateway_def app_ok_def)
qed

text \<open>
  A block with a successful event of an application's unbonding that names the application by
  \<open>application_address\<close> cannot be indexed: the grouping looks at \<open>application\<close> only, although the
  handlers of both events accept either attribute.
\<close>

theorem unbonding_event_needs_application:
  assumes "e \<in> set (evs t)" and "ev_type (event e) = t" and "succeeded (Ev e)"
    and "t = ''pocket.application.EventApplicationUnbondingBegin'' \<or> t = ''pocket.application.EventApplicationUnbondingEnd''"
    and "''application'' \<notin> fst ` set (attributes (event e))"
  shows "\<exists>err. index_applications c every_block b chain msgs evs st = Inl err"
proof (rule ccontr)
  let ?all = "data_of_types app_msg_types app_event_types msgs evs"
  assume "\<not> ?thesis"
  then obtain st' where "index_applications c every_block b chain msgs evs st = Inr st'"
    by (cases "index_applications c every_block b chain msgs evs st") auto
  then obtain r where fold: "foldM_res (collect_datum app_ids app_paths) ([], []) (successful_data ?all) = Inr r"
    by (auto simp: index_applications_def index_stake_entity_def stake_groups_def bind_eq_Inr map_res_eq_Inr)
  have "t \<in> set app_event_types" using assms(4) by (auto simp: app_event_types_def)
  then have "Ev e \<in> set (successful_data ?all)"
    using assms(1,3) by (auto simp: set_successful_data data_of_types_def)
  then obtain before after where "successful_data ?all = before @ Ev e # after" by (meson split_list)
  then obtain s s' where "collect_datum app_ids app_paths s (Ev e) = Inr s'"
    using fold by (auto simp: foldM_res_append bind_eq_Inr)
  then obtain i where "event_entity app_ids (event e) = Inr i"
    by (cases s) (auto simp: collect_datum_def datum_entity_def map_res_eq_Inr)
  moreover have "attr_first ''application'' (attributes (event e)) = None"
    using assms(5) by (simp add: attr_first_def map_of_eq_None_iff)
  ultimately show False
    using assms(2,4) by (auto simp: event_entity_def app_ids_def get_id_of_json_attribute_def)
qed

subsection \<open>Witnesses\<close>

definition stake_events_example :: "string \<Rightarrow> cosmos_event list" where
  "stake_events_example t = (if t = ''pocket.gateway.EventGatewayUnbondingEnd'' then [unbonded_event_example] else [])"

definition stake_msgs_example :: "string \<Rightarrow> cosmos_msg list" where
  "stake_msgs_example t = (if t = ''/pocket.application.MsgDelegateToGateway'' then [delegate_msg_example] else [])"

theorem index_stake_inv_witness:
  "case index_stake crypto_example (\<lambda>_. None) False 7 [] stake_msgs_example stake_events_example
      (gateway_db_example, supplier_db_example) of
     Inr (gw', _) \<Rightarrow> gateway_ok 7 gw' \<and>
       (case get_gateway ''h'' gw' of Some g \<Rightarrow> gw_stake_status g = Unstaked \<and> gw_stake_amount g = 0 | None \<Rightarrow> False)
   | Inl _ \<Rightarrow> False"
proof -
  let ?run = "index_stake crypto_example (\<lambda>_. None) False 7 [] stake_msgs_example stake_events_example
    (gateway_db_example, supplier_db_example)"
  have "case ?run of Inr (gw', _) \<Rightarrow>
      (case get_gateway ''h'' gw' of Some g \<Rightarrow> gw_stake_status g = Unstaked | None \<Rightarrow> False) | Inl _ \<Rightarrow> False"
    by code_simp
  then obtain gw' sdb' g where run: "?run = Inr (gw', sdb')" "get_gateway ''h'' gw' = Some g" "gw_stake_status g = Unstaked"
    by (auto split: sum.splits option.splits)
  have start: "\<forall>i g. get_gateway i gateway_db_example = Some g \<longrightarrow> gw_stake_status g = Unstaked \<longrightarrow> gw_stake_amount g = 0"
    by (auto simp: get_gateway_def gateway_db_example_def live_map_def gateway_example_def new_row_def split: if_splits)
  have "\<forall>d \<in> set (data_of_types app_msg_types app_event_types stake_msgs_example stake_events_example). plain_datum d"
    by code_simp
  from index_stake_inv [OF run(1) gateway_ok_example start this] show ?thesis using run by simp
qed

definition unbonding_by_address_example :: cosmos_event where
  "unbonding_by_address_example = event_example ''pocket.application.EventApplicationUnbondingEnd''
     [(''application_address'', quoted ''a''), (''reason'', quoted ''APPLICATION_UNBONDING_REASON_ELECTIVE''),
      (''session_end_height'', quoted ''6''), (''unbonding_end_height'', quoted ''7'')]"

theorem unbonding_event_needs_application_witness:
  "(\<exists>st'. handle_application_unbonding_end_event 7 [unbonding_by_address_example] app_db_example = Inr st') \<and>
   (\<exists>err. index_applications crypto_example False 7 [] (\<lambda>_. [])
      (\<lambda>t. if t = ''pocket.application.EventApplicationUnbondingEnd'' then [unbonding_by_address_example] else [])
      app_db_example = Inl err)"
proof
  have "case handle_application_unbonding_end_event 7 [unbonding_by_address_example] app_db_example of
    Inr _ \<Rightarrow> True | Inl _ \<Rightarrow> False" by code_simp
  then show "\<exists>st'. handle_application_unbonding_end_event 7 [unbonding_by_address_example] app_db_example = Inr st'"
    by (auto split: sum.splits)
  have "''application'' \<notin> fst ` set (attributes (event unbonding_by_address_example))"
    "succeeded (Ev unbonding_by_address_example)"
    "ev_type (event unbonding_by_address_example) = ''pocket.application.EventApplicationUnbondingEnd''"
    by code_simp+
  then show "\<exists>err. index_applications crypto_example False 7 [] (\<lambda>_. [])
      (\<lambda>t. if t = ''pocket.application.EventApplicationUnbondingEnd'' then [unbonding_by_address_example] else [])
      app_db_example = Inl err"
    by (intro unbonding_event_needs_application [where e = unbonding_by_address_example
        and t = "''pocket.application.EventApplicationUnbondingEnd''"]) simp_all
qed

end
