(* ===== verification/Authz.thy ===== *)
theory Authz
  imports Migration Primitives Coins
begin

text \<open>
  \<open>src/mappings/authz\<close> and \<open>pocket/params.ts\<close>: the execution of messages on behalf of the governance
  account (parameter updates, imports and recoveries of Morse accounts, anything else that can be
  decoded) and the authorizations it rests on. The codecs of the generated client, \<open>lodash\<close> and
  \<open>json-bigint\<close> are the fields of the parameter \<open>codecs\<close>; \<open>'d\<close> are the messages its codecs decode.
\<close>

datatype 'd sub_msg = ImportSub import_msg | RecoverSub recover_msg | ParamSub 'd | ModuleSub 'd

record 'd codecs =
  cd_update_param :: "string \<Rightarrow> bytes \<Rightarrow> ('d \<times> json) res"
  cd_import :: "bytes \<Rightarrow> import_msg res"
  cd_recover :: "bool \<Rightarrow> bytes \<Rightarrow> recover_msg res"
  cd_module_types :: "(string \<times> (bytes \<Rightarrow> 'd res)) list"
  cd_stringify_exec :: "string \<Rightarrow> any_msg list \<Rightarrow> string"
  cd_stringify :: "'d sub_msg \<Rightarrow> string"
  cd_stringify_json :: "json \<Rightarrow> string"
  cd_snake_case :: "string \<Rightarrow> string"

subsection \<open>Parameters\<close>

record param =
  pa_id :: string
  pa_namespace :: string
  pa_key :: string
  pa_value :: string
  pa_block_id :: int

definition msg_update_params_map :: "string list" where
  "msg_update_params_map =
     [''/pocket.application.MsgUpdateParam'', ''/pocket.application.MsgUpdateParams'',
      ''/pocket.service.MsgUpdateParam'', ''/pocket.service.MsgUpdateParams'',
      ''/pocket.supplier.MsgUpdateParam'', ''/pocket.supplier.MsgUpdateParams'',
      ''/pocket.gateway.MsgUpdateParam'', ''/pocket.gateway.MsgUpdateParams'',
      ''/pocket.proof.MsgUpdateParam'', ''/pocket.proof.MsgUpdateParams'',
      ''/pocket.shared.MsgUpdateParam'', ''/pocket.shared.MsgUpdateParams'',
      ''/pocket.tokenomics.MsgUpdateParam'', ''/pocket.tokenomics.MsgUpdateParams'',
      ''/pocket.session.MsgUpdateParam'', ''/pocket.session.MsgUpdateParams'',
      ''/pocket.migration.MsgUpdateParams'', ''/cosmos.auth.v1beta1.MsgUpdateParams'',
      ''/cosmos.bank.v1beta1.MsgUpdateParams'', ''/cosmos.distribution.v1beta1.MsgUpdateParams'',
      ''/cosmos.mint.v1beta1.MsgUpdateParams'', ''/cosmos.slashing.v1beta1.MsgUpdateParams'',
      ''/cosmos.staking.v1beta1.MsgUpdateParams'', ''/cosmos.consensus.v1.MsgUpdateParams'',
      ''/cosmos.gov.v1.MsgUpdateParams'']"

text \<open>A string is stored as it is, anything else as JSON.\<close>

definition sanitize :: "(json \<Rightarrow> string) \<Rightarrow> json \<Rightarrow> string" where
  "sanitize stringify v = (case v of JStr s \<Rightarrow> s | _ \<Rightarrow> stringify v)"

definition ends_with :: "string \<Rightarrow> string \<Rightarrow> bool" where
  "ends_with s suf \<longleftrightarrow> drop (length s - length suf) s = suf"

definition type_namespace :: "string \<Rightarrow> string" where
  "type_namespace ty = (case split_on (CHR ''.'') ty of _ # n # _ \<Rightarrow> n | _ \<Rightarrow> ''undefined'')"

definition param_of :: "'d codecs \<Rightarrow> string \<Rightarrow> int \<Rightarrow> string \<Rightarrow> json \<Rightarrow> param" where
  "param_of cd namespace b key v =
     (let snake = cd_snake_case cd key in
      \<lparr>pa_id = get_param_id namespace snake, pa_namespace = namespace, pa_key = snake,
       pa_value = sanitize (cd_stringify_json cd) v, pa_block_id = b\<rparr>)"

text \<open>\<open>Object.entries\<close>: the entries of an object, in the order of the codec; it throws on \<open>undefined\<close> and \<open>null\<close>.\<close>

definition object_entries :: "json option \<Rightarrow> (string \<times> json) list res" where
  "object_entries j = (case j of Some (JObj kvs) \<Rightarrow> Inr kvs | None \<Rightarrow> throw ''TypeError: undefined''
     | Some JNull \<Rightarrow> throw ''TypeError: null'' | Some _ \<Rightarrow> Inr [])"

text \<open>\<open>snakeCase(undefined)\<close> is the snake case of the empty text.\<close>

definition update_params :: "'d codecs \<Rightarrow> string \<Rightarrow> int \<Rightarrow> json \<Rightarrow> param list res" where
  "update_params cd ty b j =
     (if ends_with ty ''MsgUpdateParams'' then
        map_res (map (\<lambda>(k, v). param_of cd (type_namespace ty) b k v)) (object_entries (json_get ''params'' j))
      else
        map_res (\<lambda>kvs. map (\<lambda>(k, v). param_of cd (type_namespace ty) b
              (case json_get_str ''name'' j of None \<Rightarrow> [] | Some n \<Rightarrow> n) v)
            (filter (\<lambda>(k, v). take 2 k = ''as'') kvs))
          (object_entries (Some j)))"

definition handle_update_param :: "'d codecs \<Rightarrow> any_msg \<Rightarrow> int \<Rightarrow> ('d \<times> param list) option res" where
  "handle_update_param cd m b =
     (if any_type_url m \<notin> set msg_update_params_map then Inr None
      else bind_res (cd_update_param cd (any_type_url m) (any_value m)) (\<lambda>(d, j).
        map_res (\<lambda>ps. Some (d, ps)) (update_params cd (any_type_url m) b j)))"

subsection \<open>Executions\<close>

record message_row =
  me_id :: string
  me_idx :: nat
  me_type_url :: string
  me_json :: string
  me_transaction_id :: string
  me_block_id :: int

record authz_exec =
  ae_id :: string
  ae_grantee :: string
  ae_transaction_id :: string
  ae_block_id :: int

record authz_msg_exec =
  am_id :: string
  am_authz_exec :: string
  am_message :: string

record authz_exec_msg =
  ex_grantee :: string
  ex_msgs :: "any_msg list"

record authz_result =
  az_messages :: "message_row list"
  az_execs :: "authz_exec list"
  az_exec_msgs :: "authz_msg_exec list"
  az_params :: "param list"
  az_imports :: "msg_import_morse_accounts list"
  az_claimables :: "morse_claimable list"
  az_recovers :: "msg_recover_morse_account list"

definition empty_result :: authz_result where
  "empty_result = \<lparr>az_messages = [], az_execs = [], az_exec_msgs = [], az_params = [], az_imports = [],
     az_claimables = [], az_recovers = []\<rparr>"

definition merge_results :: "authz_result \<Rightarrow> authz_result \<Rightarrow> authz_result" where
  "merge_results r s = \<lparr>az_messages = az_messages r @ az_messages s, az_execs = az_execs r @ az_execs s,
     az_exec_msgs = az_exec_msgs r @ az_exec_msgs s, az_params = az_params r @ az_params s,
     az_imports = az_imports r @ az_imports s, az_claimables = az_claimables r @ az_claimables s,
     az_recovers = az_recovers r @ az_recovers s\<rparr>"

text \<open>Decoding one message: what it adds to the result, and the decoded message if there is a codec.\<close>

definition decode_sub ::
  "crypto \<Rightarrow> 'd codecs \<Rightarrow> int \<Rightarrow> cosmos_msg \<Rightarrow> any_msg \<Rightarrow> (authz_result \<times> 'd sub_msg option) res" where
  "decode_sub c cd b msg m =
     (if any_type_url m = ''/pocket.migration.MsgImportMorseClaimableAccounts'' then
        map_res (\<lambda>(d, row, accounts). (empty_result\<lparr>az_imports := [row], az_claimables := accounts\<rparr>, Some (ImportSub d)))
          (handle_msg_import_morse_claimable_accounts c (cd_import cd) b (any_value m) (message_id msg) (tx_hash (msg_tx msg)))
      else if any_type_url m = ''/pocket.migration.MsgRecoverMorseAccount''
          \<or> any_type_url m = ''/pocket.migration.MsgAdminRecoverMorseAccount'' then
        map_res (\<lambda>(d, row). (empty_result\<lparr>az_recovers := [row]\<rparr>, Some (RecoverSub d)))
          (handle_msg_recover_morse_account (cd_recover cd) b (any_value m)
            (any_type_url m = ''/pocket.migration.MsgAdminRecoverMorseAccount'') (message_id msg) (msg_tx msg))
      else
        bind_res (handle_update_param cd m b) (\<lambda>p. case p of
            Some (d, ps) \<Rightarrow> Inr (empty_result\<lparr>az_params := ps\<rparr>, Some (ParamSub d))
          | None \<Rightarrow> (case map_of (cd_module_types cd) (any_type_url m) of
              None \<Rightarrow> Inr (empty_result, None)
            | Some decode \<Rightarrow> map_res (\<lambda>d. (empty_result, Some (ModuleSub d))) (decode (any_value m)))))"

text \<open>The row of a decoded message carries the type of the execution, not its own.\<close>

definition sub_rows :: "'d codecs \<Rightarrow> int \<Rightarrow> cosmos_msg \<Rightarrow> nat \<Rightarrow> 'd sub_msg option \<Rightarrow> authz_result" where
  "sub_rows cd b msg i d = (case d of
     None \<Rightarrow> empty_result
   | Some d \<Rightarrow> let sub_id = dash (message_id msg) (show_nat i) in
       empty_result\<lparr>az_messages := [\<lparr>me_id = sub_id, me_idx = msg_idx msg, me_type_url = type_url msg,
           me_json = cd_stringify cd d, me_transaction_id = tx_hash (msg_tx msg), me_block_id = b\<rparr>],
         az_exec_msgs := [\<lparr>am_id = sub_id, am_authz_exec = message_id msg, am_message = sub_id\<rparr>]\<rparr>)"

definition exec_rows :: "'d codecs \<Rightarrow> int \<Rightarrow> cosmos_msg \<Rightarrow> authz_exec_msg \<Rightarrow> authz_result" where
  "exec_rows cd b msg ex = empty_result\<lparr>
     az_messages := [\<lparr>me_id = message_id msg, me_idx = msg_idx msg, me_type_url = type_url msg,
       me_json = cd_stringify_exec cd (ex_grantee ex) (ex_msgs ex), me_transaction_id = tx_hash (msg_tx msg),
       me_block_id = b\<rparr>],
     az_execs := [\<lparr>ae_id = message_id msg, ae_grantee = ex_grantee ex, ae_transaction_id = tx_hash (msg_tx msg),
       ae_block_id = b\<rparr>]\<rparr>"

definition handle_authz_exec_one ::
  "crypto \<Rightarrow> 'd codecs \<Rightarrow> int \<Rightarrow> cosmos_msg \<times> authz_exec_msg \<Rightarrow> authz_result res" where
  "handle_authz_exec_one c cd b = (\<lambda>(msg, ex).
     foldM_res (\<lambda>r (i, m). map_res (\<lambda>(s, d). merge_results r (merge_results s (sub_rows cd b msg i d)))
         (decode_sub c cd b msg m)) (exec_rows cd b msg ex) (enumerate 0 (ex_msgs ex)))"

record authz_db =
  message_rows :: "message_row tbl"
  authz_execs :: "authz_exec tbl"
  authz_exec_msgs :: "authz_msg_exec tbl"
  param_rows :: "param tbl"
  msg_imports :: "msg_import_morse_accounts tbl"
  authz_claimables :: "morse_claimable hrow list"
  msg_recovers :: "msg_recover_morse_account tbl"

definition recover_item :: "msg_recover_morse_account \<Rightarrow> claim_item" where
  "recover_item m = \<lparr>ci_public_key = [], ci_morse_address = Some (mrm_morse_src m),
     ci_destination = mrm_shannon_dest m, ci_transaction_hash = mrm_transaction_id m, ci_claimed_msg_id = mrm_id m\<rparr>"

text \<open>
  The saves and the UPDATE of the recovered accounts are sent together: the UPDATE is on its way before the
  save has closed the rows of the imported accounts and inserts the new ones.
\<close>

definition handle_authz_exec ::
  "crypto \<Rightarrow> 'd codecs \<Rightarrow> int \<Rightarrow> (cosmos_msg \<times> authz_exec_msg) list \<Rightarrow> authz_db \<Rightarrow> authz_db res" where
  "handle_authz_exec c cd b msgs st =
     bind_res (mapM_res (handle_authz_exec_one c cd b) msgs) (\<lambda>rs.
     let r = foldl merge_results empty_result rs in
     map_res (\<lambda>ss. st\<lparr>message_rows := bulk_create me_id (az_messages r) (message_rows st),
         authz_execs := bulk_create ae_id (az_execs r) (authz_execs st),
         authz_exec_msgs := bulk_create am_id (az_exec_msgs r) (authz_exec_msgs st),
         param_rows := bulk_create pa_id (az_params r) (param_rows st),
         msg_imports := bulk_create mim_id (az_imports r) (msg_imports st),
         authz_claimables := put_versions mc_id b (az_claimables r) (run_all (\<lambda>_. None) ss (authz_claimables st)),
         msg_recovers := bulk_create mrm_id (az_recovers r) (msg_recovers st)\<rparr>)
       (update_morse_claimable_accounts c b (map recover_item (az_recovers r))))"

subsection \<open>Grants\<close>

record authz =
  gz_id :: string
  gz_event :: string
  gz_granter :: string
  gz_grantee :: string
  gz_msg :: string
  gz_type :: string
  gz_block_id :: int
  gz_expiration :: "int option"

text \<open>A decoded \<open>MsgGrant\<close>: granter, grantee, type of the authorization, expiration in milliseconds.\<close>

record grant_msg =
  gm_granter :: string
  gm_grantee :: string
  gm_authorization :: "string option"
  gm_expiration :: "int option"

definition grant_attr :: "string \<Rightarrow> cosmos_event \<Rightarrow> string" where
  "grant_attr k ev = (case attr_last k (attributes (event ev)) of None \<Rightarrow> [] | Some v \<Rightarrow> parse_attribute v)"

definition handle_event_grant_one :: "int \<Rightarrow> cosmos_event \<Rightarrow> authz res" where
  "handle_event_grant_one b ev =
     bind_res (require_str ''[handleEventGrant] granter not found in event'' (grant_attr ''granter'' ev)) (\<lambda>granter.
     bind_res (require_str ''[handleEventGrant] grantee not found in event'' (grant_attr ''grantee'' ev)) (\<lambda>grantee.
     bind_res (require_str ''[handleEventGrant] msgTypeUrl not found in event'' (grant_attr ''msg_type_url'' ev)) (\<lambda>ty.
       Inr \<lparr>gz_id = get_authz_id granter ty grantee, gz_event = get_event_id ev, gz_granter = granter,
            gz_grantee = grantee, gz_msg = ty, gz_type = ''cosmos.authz.v1beta1.EventGrant'', gz_block_id = b,
            gz_expiration = None\<rparr>)))"

text \<open>The first grant event of the message's transaction.\<close>

definition is_grant_event :: "cosmos_msg \<Rightarrow> cosmos_event \<Rightarrow> bool" where
  "is_grant_event msg e \<longleftrightarrow> ev_type (event e) = ''cosmos.authz.v1beta1.EventGrant'' \<and> is_event_of_message_kind e \<and>
     map_option tx_hash (event_tx e) = Some (tx_hash (msg_tx msg))"

definition handle_msg_grant_one :: "int \<Rightarrow> cosmos_event list \<Rightarrow> cosmos_msg \<times> grant_msg \<Rightarrow> authz res" where
  "handle_msg_grant_one b evs = (\<lambda>(msg, g).
     bind_res (require ''[handleMsgGrant] event for MsgGrant not found'' (find (is_grant_event msg) evs)) (\<lambda>e.
     bind_res (require_str ''[handleMsgGrant] msgType not found in event''
         (case attr_first ''msg_type_url'' (attributes (event e)) of None \<Rightarrow> [] | Some v \<Rightarrow> parse_attribute v)) (\<lambda>ty.
     bind_res (require ''TypeError: authorization is undefined'' (gm_authorization g)) (\<lambda>auth.
       Inr \<lparr>gz_id = get_authz_id (gm_granter g) ty (gm_grantee g), gz_event = get_event_id e,
            gz_granter = gm_granter g, gz_grantee = gm_grantee g, gz_msg = ty, gz_type = auth, gz_block_id = b,
            gz_expiration = gm_expiration g\<rparr>))))"

definition handle_event_grant :: "int \<Rightarrow> cosmos_event list \<Rightarrow> authz tbl \<Rightarrow> authz tbl res" where
  "handle_event_grant b evs t = map_res (\<lambda>as. bulk_create gz_id as t)
     (mapM_res (handle_event_grant_one b) (filter is_event_of_finalized_block_kind evs))"

definition handle_msg_grant :: "int \<Rightarrow> cosmos_event list \<Rightarrow> (cosmos_msg \<times> grant_msg) list \<Rightarrow> authz tbl \<Rightarrow> authz tbl res" where
  "handle_msg_grant b evs msgs t = map_res (\<lambda>as. bulk_create gz_id as t) (mapM_res (handle_msg_grant_one b evs) msgs)"

subsection \<open>Grants of one transaction\<close>

lemma is_grant_event_tx: "tx_hash (msg_tx m) = tx_hash (msg_tx m') \<Longrightarrow> is_grant_event m = is_grant_event m'"
  by (simp add: is_grant_event_def fun_eq_iff)

text \<open>
  The grants of one transaction are all given the message type of its first grant event, so that two
  of them by the same granter to the same grantee get one id, whatever messages they authorize, and only
  the later one is stored.
\<close>

theorem grants_of_one_transaction:
  assumes "handle_msg_grant b evs [(m, g), (m', g')] t = Inr t'"
    and "tx_hash (msg_tx m) = tx_hash (msg_tx m')" and "gm_granter g = gm_granter g'" and "gm_grantee g = gm_grantee g'"
  shows "\<exists>a a'. handle_msg_grant_one b evs (m, g) = Inr a \<and> handle_msg_grant_one b evs (m', g') = Inr a' \<and>
    gz_id a = gz_id a' \<and> gz_msg a = gz_msg a' \<and> t' = t(gz_id a' \<mapsto> a')"
proof -
  obtain a a' where one: "handle_msg_grant_one b evs (m, g) = Inr a" "handle_msg_grant_one b evs (m', g') = Inr a'"
    and t': "t' = bulk_create gz_id [a, a'] t"
    using assms(1) by (auto simp: handle_msg_grant_def map_res_eq_Inr bind_eq_Inr)
  moreover have "gz_id a = gz_id a'" "gz_msg a = gz_msg a'"
    using one assms(2-4) is_grant_event_tx [OF assms(2)]
    by (auto simp: handle_msg_grant_one_def res_eq_Inr)
  ultimately show ?thesis by (auto simp: save_def)
qed

definition grant_tx_example :: cosmos_tx where
  "grant_tx_example = \<lparr>tx_hash = ''AB'', tx_idx = 0, tx_code = 0, tx_events = []\<rparr>"

definition grant_msg_example :: "nat \<Rightarrow> cosmos_msg" where
  "grant_msg_example i = \<lparr>msg_idx = i, type_url = ''/cosmos.authz.v1beta1.MsgGrant'', decoded = OtherMsg,
     msg_tx = grant_tx_example, msg_height = 7\<rparr>"

definition grant_event_example :: "nat \<Rightarrow> string \<Rightarrow> cosmos_event" where
  "grant_event_example i ty = \<lparr>event_idx = i, event_kind = KMessage, kind_text = ''Message'',
     event = \<lparr>ev_type = ''cosmos.authz.v1beta1.EventGrant'', attributes = [(''msg_type_url'', quoted ty)]\<rparr>,
     event_tx = Some grant_tx_example, event_msg = Some (grant_msg_example i), event_height = 7\<rparr>"

theorem grants_of_one_transaction_witness:
  "let evs = [grant_event_example 0 ''/a.Send'', grant_event_example 1 ''/b.Vote''];
       g = \<lparr>gm_granter = ''x'', gm_grantee = ''y'', gm_authorization = Some ''/auth'', gm_expiration = None\<rparr> in
   case handle_msg_grant 7 evs [(grant_msg_example 0, g), (grant_msg_example 1, g)] (\<lambda>_. None) of
     Inr t' \<Rightarrow> dom t' = {get_authz_id ''x'' ''/a.Send'' ''y''} | Inl _ \<Rightarrow> False"
proof -
  define evs where "evs = [grant_event_example 0 ''/a.Send'', grant_event_example 1 ''/b.Vote'']"
  define g where "g = \<lparr>gm_granter = ''x'', gm_grantee = ''y'', gm_authorization = Some ''/auth'', gm_expiration = None\<rparr>"
  have "case handle_msg_grant 7 evs [(grant_msg_example 0, g), (grant_msg_example 1, g)] (\<lambda>_. None) of
      Inr t' \<Rightarrow> True | Inl _ \<Rightarrow> False"
    unfolding evs_def g_def by code_simp
  then obtain t' where run: "handle_msg_grant 7 evs [(grant_msg_example 0, g), (grant_msg_example 1, g)] (\<lambda>_. None) = Inr t'"
    by (auto split: sum.splits)
  have tx: "tx_hash (msg_tx (grant_msg_example 0)) = tx_hash (msg_tx (grant_msg_example 1))"
    by (simp add: grant_msg_example_def)
  have id: "map_res gz_id (handle_msg_grant_one 7 evs (grant_msg_example 1, g)) = Inr (get_authz_id ''x'' ''/a.Send'' ''y'')"
    unfolding evs_def g_def by code_simp
  from grants_of_one_transaction [OF run tx refl refl] obtain a' where
    "handle_msg_grant_one 7 evs (grant_msg_example 1, g) = Inr a'" "t' = [gz_id a' \<mapsto> a']"
    by blast
  then show ?thesis using run id by (simp add: evs_def g_def Let_def)
qed

end
