(* ===== verification/Queries.thy ===== *)
theory Queries
  imports Chain
begin

text \<open>
  \<open>src/mappings/utils/query_client.ts\<close>, \<open>utils/retry.ts\<close> and the page loop of \<open>bank/supply.ts\<close>:
  reading a whole set from a chain query that answers in pages, and calling again a query that
  failed. A query is an argument that may throw; a page is its items and the key of the next page.
  The loops ask for pages as long as a key comes back, so they end only when the chain's pages do:
  \<open>None\<close> is a loop that does not end, and \<open>page_chain\<close> says when it does.
\<close>

type_synonym 'a page_query = "bytes option \<Rightarrow> ('a list \<times> bytes option) res"

partial_function (option) page_loop ::
  "'a page_query \<Rightarrow> bytes option \<Rightarrow> 'a list \<Rightarrow> 'a list res option" where
  "page_loop q k acc =
     (case q k of
        Inl e \<Rightarrow> Some (Inl e)
      | Inr (xs, next_key) \<Rightarrow>
          (case next_key of
             None \<Rightarrow> Some (Inr (acc @ xs))
           | Some k' \<Rightarrow> if k' = [] then Some (Inr (acc @ xs)) else page_loop q (Some k') (acc @ xs)))"

declare page_loop.simps [code]

text \<open>\<open>queryTotalSupply\<close>: a first call without a key, then the loop.\<close>

definition query_total_supply :: "'a page_query \<Rightarrow> 'a list res option" where
  "query_total_supply q = page_loop q None []"

text \<open>\<open>allValidators\<close> and \<open>allApplications\<close>: the missing key is sent as an empty one.\<close>

definition all_pages :: "(bytes \<Rightarrow> ('a list \<times> bytes option) res) \<Rightarrow> 'a list res option" where
  "all_pages q = page_loop (\<lambda>k. q (case k of None \<Rightarrow> [] | Some k' \<Rightarrow> k')) None []"

definition all_validators :: "(bytes \<Rightarrow> ('v list \<times> bytes option) res) \<Rightarrow> 'v list res option" where
  "all_validators q = all_pages q"

definition all_applications :: "(bytes \<Rightarrow> ('a list \<times> bytes option) res) \<Rightarrow> 'a list res option" where
  "all_applications q = all_pages q"

text \<open>
  \<open>retryOnFail\<close>: \<open>fn k\<close> is the outcome of the \<open>k\<close>-th call. The message of an error that is not an
  \<open>Error\<close> object is its text, which \<open>js_error\<close> is already.
\<close>

function retry_on_fail :: "(nat \<Rightarrow> 'a res) \<Rightarrow> nat \<Rightarrow> nat \<Rightarrow> 'a res" where
  "retry_on_fail fn max_retries retries =
     (case fn retries of
        Inr a \<Rightarrow> Inr a
      | Inl (JsError m) \<Rightarrow>
          if retries < max_retries then retry_on_fail fn max_retries (retries + 1)
          else throw (''[retryFunction] max retries reached, last error: '' @ m))"
  by pat_completeness auto
termination
  by (relation "measure (\<lambda>(_, max_retries, retries). max_retries - retries)") auto

declare retry_on_fail.simps [simp del]

subsection \<open>Lemmas\<close>

text \<open>The pages from a key on, when they end.\<close>

inductive page_chain :: "'a page_query \<Rightarrow> bytes option \<Rightarrow> 'a list \<Rightarrow> bool" where
  last_page: "q k = Inr (xs, nk) \<Longrightarrow> nk = None \<or> nk = Some [] \<Longrightarrow> page_chain q k xs"
| more_pages: "q k = Inr (xs, Some k') \<Longrightarrow> k' \<noteq> [] \<Longrightarrow> page_chain q (Some k') ys \<Longrightarrow>
    page_chain q k (xs @ ys)"

lemma page_chain_loop: "page_chain q k xs \<Longrightarrow> page_loop q k acc = Some (Inr (acc @ xs))"
proof (induction arbitrary: acc rule: page_chain.induct)
  case (last_page q k xs nk)
  then show ?case by (subst page_loop.simps) auto
next
  case (more_pages q k xs k' ys)
  then show ?case by (subst page_loop.simps) auto
qed

lemma loop_page_chain:
  assumes "page_loop q k acc = Some r"
  shows "\<forall>zs. r = Inr zs \<longrightarrow> (\<exists>xs. zs = acc @ xs \<and> page_chain q k xs)"
proof (rule page_loop.raw_induct [OF _ assms])
  fix loop :: "'a page_query \<Rightarrow> bytes option \<Rightarrow> 'a list \<Rightarrow> 'a list res option"
    and q :: "'a page_query" and k acc r
  assume IH: "\<And>q k acc r. loop q k acc = Some r \<Longrightarrow>
      \<forall>zs. r = Inr zs \<longrightarrow> (\<exists>xs. zs = acc @ xs \<and> page_chain q k xs)"
    and r: "(case q k of Inl e \<Rightarrow> Some (Inl e) | Inr (xs, None) \<Rightarrow> Some (Inr (acc @ xs))
      | Inr (xs, Some k') \<Rightarrow> if k' = [] then Some (Inr (acc @ xs)) else loop q (Some k') (acc @ xs)) = Some r"
  show "\<forall>zs. r = Inr zs \<longrightarrow> (\<exists>xs. zs = acc @ xs \<and> page_chain q k xs)"
  proof (intro allI impI)
    fix zs assume zs: "r = Inr zs"
    then obtain ys nk where page: "q k = Inr (ys, nk)" using r by (auto split: sum.splits)
    show "\<exists>xs. zs = acc @ xs \<and> page_chain q k xs"
    proof (cases "nk = None \<or> nk = Some []")
      case True
      with r zs page have "zs = acc @ ys" by auto
      with page True show ?thesis by (blast intro: last_page)
    next
      case False
      then obtain k' where k': "nk = Some k'" "k' \<noteq> []" by auto
      with r page have "loop q (Some k') (acc @ ys) = Some r" by simp
      from IH [OF this] zs obtain xs where "zs = acc @ ys @ xs" "page_chain q (Some k') xs" by auto
      with page k' show ?thesis by (auto intro: more_pages)
    qed
  qed
qed

lemma retry_first_success:
  "fn k = Inr a \<Longrightarrow> (\<And>j. retries \<le> j \<Longrightarrow> j < k \<Longrightarrow> \<exists>e. fn j = Inl e) \<Longrightarrow>
     retries \<le> k \<Longrightarrow> k \<le> max_retries \<Longrightarrow> retry_on_fail fn max_retries retries = Inr a"
proof (induction "k - retries" arbitrary: retries)
  case 0
  then show ?case by (subst retry_on_fail.simps) simp
next
  case (Suc n)
  then have "retries < k" by simp
  obtain m where "fn retries = Inl (JsError m)"
    using Suc.prems(2) [of retries] \<open>retries < k\<close> by (metis js_error.exhaust order_refl)
  moreover have "retry_on_fail fn max_retries (retries + 1) = Inr a"
    using Suc \<open>retries < k\<close> by (intro Suc.hyps(1)) auto
  ultimately show ?case using \<open>retries < k\<close> Suc.prems(4) by (subst retry_on_fail.simps) simp
qed

lemma retry_all_fail:
  "(\<And>j. retries \<le> j \<Longrightarrow> j \<le> max_retries \<Longrightarrow> \<exists>e. fn j = Inl e) \<Longrightarrow> retries \<le> max_retries \<Longrightarrow>
     fn max_retries = Inl (JsError m) \<Longrightarrow>
     retry_on_fail fn max_retries retries = throw (''[retryFunction] max retries reached, last error: '' @ m)"
proof (induction "max_retries - retries" arbitrary: retries)
  case 0
  then show ?case by (subst retry_on_fail.simps) simp
next
  case (Suc n)
  then have lt: "retries < max_retries" by simp
  obtain m' where "fn retries = Inl (JsError m')"
    using Suc.prems(1) [of retries] lt by (metis js_error.exhaust less_imp_le order_refl)
  moreover have "retry_on_fail fn max_retries (retries + 1) =
      throw (''[retryFunction] max retries reached, last error: '' @ m)"
    using Suc lt by (intro Suc.hyps(1)) auto
  ultimately show ?case using lt by (subst retry_on_fail.simps) simp
qed

text \<open>
  C40: reading all pages of a chain query ends with a result exactly when the keys of its pages lead to
  a page without a next key, and the result is the items of those pages in order.
\<close>

theorem all_pages_complete:
  "all_pages q = Some (Inr xs) \<longleftrightarrow> page_chain (\<lambda>k. q (case k of None \<Rightarrow> [] | Some k' \<Rightarrow> k')) None xs"
  using loop_page_chain [of _ None "[]"] page_chain_loop [of _ None xs "[]"]
  by (fastforce simp: all_pages_def)

text \<open>
  C28: a retried call answers with its first success within the \<open>max_retries + 1\<close> attempts, and throws
  the last attempt's error when all of them fail.
\<close>

theorem retry_on_fail_spec:
  "(\<exists>k a. k \<le> max_retries \<and> fn k = Inr a \<and> (\<forall>j < k. \<exists>e. fn j = Inl e) \<and>
      retry_on_fail fn max_retries 0 = Inr a) \<or>
   (\<exists>m. (\<forall>j \<le> max_retries. \<exists>e. fn j = Inl e) \<and> fn max_retries = Inl (JsError m) \<and>
      retry_on_fail fn max_retries 0 = throw (''[retryFunction] max retries reached, last error: '' @ m))"
proof (cases "\<exists>k \<le> max_retries. \<exists>a. fn k = Inr a")
  case True
  define k where "k = (LEAST k. \<exists>a. fn k = Inr a)"
  have "\<exists>a. fn k = Inr a"
    unfolding k_def by (rule LeastI_ex [of "\<lambda>k. \<exists>a. fn k = Inr a"]) (use True in blast)
  then obtain a where a: "fn k = Inr a" by blast
  have "k \<le> max_retries" using True Least_le [of "\<lambda>k. \<exists>a. fn k = Inr a"] order_trans unfolding k_def by blast
  moreover have less: "\<exists>e. fn j = Inl e" if "j < k" for j
    using not_less_Least [of j "\<lambda>k. \<exists>a. fn k = Inr a"] that by (cases "fn j") (auto simp: k_def)
  moreover have "retry_on_fail fn max_retries 0 = Inr a"
    using retry_first_success [of fn k a 0 max_retries] a less \<open>k \<le> max_retries\<close> by simp
  ultimately show ?thesis using a by blast
next
  case False
  then have all: "\<exists>e. fn j = Inl e" if "j \<le> max_retries" for j
    using that by (cases "fn j") auto
  then obtain m where "fn max_retries = Inl (JsError m)" by (metis js_error.exhaust order_refl)
  then show ?thesis using retry_all_fail [of 0 max_retries fn m] all by blast
qed

theorem retry_on_fail_spec_witness:
  "retry_on_fail (\<lambda>k :: nat. if k < 2 then throw ''down'' else Inr (5 :: nat)) 3 0 = Inr 5"
proof -
  let ?fn = "\<lambda>k :: nat. if k < 2 then throw ''down'' else Inr (5 :: nat)"
  have "?fn 2 = Inr 5" by simp
  then have "\<not> (\<exists>e. ?fn 2 = Inl e)" by simp
  then have "\<not> (\<forall>j \<le> 3. \<exists>e. ?fn j = Inl e)" by (metis (no_types, lifting) eval_nat_numeral(3) le_Suc_eq order_refl)
  with retry_on_fail_spec [of 3 ?fn] show ?thesis by (auto simp: throw_def split: if_splits)
qed

end
