(* ===== verification/Bank.thy ===== *)
theory Bank
  imports Balances Queries Primitives
begin

text \<open>
  \<open>src/mappings/bank/supply.ts\<close>, \<open>bank/moduleAccounts.ts\<close> and \<open>bank/transfer.ts\<close>. The supply of
  a denomination at a block is a BlockSupply row that points to the last Supply row with a different
  amount; \<open>handle_supply\<close> reads the rows of the block before and moves the pointer only when the
  amount changed.
\<close>

subsection \<open>Supply\<close>

record supply_row =
  sup_id :: string
  sup_denom :: string
  sup_amount :: int

record block_supply =
  bs_id :: string
  bs_block_id :: int
  bs_supply_id :: string

record supply_state =
  supply_denoms :: "string list"
  supplies :: "supply_row tbl"
  block_supplies :: "block_supply tbl"

definition get_supply_id :: "string \<Rightarrow> nat \<Rightarrow> string" where
  "get_supply_id d h = d @ ''@'' @ show_nat h"

definition get_supply_record :: "coin \<Rightarrow> nat \<Rightarrow> supply_row res" where
  "get_supply_record c h = map_res (\<lambda>a. \<lparr>sup_id = get_supply_id (denom c) h, sup_denom = denom c, sup_amount = a\<rparr>)
     (big_int (amount c))"

definition fetch_all_supply_denom :: "string list \<Rightarrow> string list option" where
  "fetch_all_supply_denom rows = fetch_paginated_records (\<lambda>off lim. take lim (drop off rows))"

definition supply_id_height :: "nat \<Rightarrow> nat" where
  "supply_id_height h = (if h = 1 then h else h - 1)"

definition block_supply_props :: "block_supply tbl \<Rightarrow> nat \<Rightarrow> string \<Rightarrow> block_supply" where
  "block_supply_props saved h d =
     \<lparr>bs_id = get_supply_id d h, bs_block_id = get_block_id h,
      bs_supply_id = (case saved (get_supply_id d (supply_id_height h)) of
         None \<Rightarrow> get_supply_id d h | Some bs \<Rightarrow> bs_supply_id bs)\<rparr>"

definition block_supplies_map :: "block_supply tbl \<Rightarrow> nat \<Rightarrow> string list \<Rightarrow> (string \<times> block_supply) list" where
  "block_supplies_map saved h denoms =
     foldl (\<lambda>m d. dict_set (get_supply_id d h) (block_supply_props saved h d) m) [] denoms"

text \<open>One coin of the loop: the Supply rows and the map of the block's rows.\<close>

definition supply_step ::
  "nat \<Rightarrow> supply_row tbl \<times> (string \<times> block_supply) list \<Rightarrow> coin \<Rightarrow>
   (supply_row tbl \<times> (string \<times> block_supply) list) res" where
  "supply_step h = (\<lambda>(sups, m) c.
     let i = get_supply_id (denom c) h in
     bind_res (require (''[handleSupply]: BlockSupply not found for id='' @ i) (map_of m i)) (\<lambda>latest.
     bind_res (case sups (bs_supply_id latest) of
         Some s \<Rightarrow> Inr (s, sups)
       | None \<Rightarrow> map_res (\<lambda>s. (s, save sup_id s sups)) (get_supply_record c h)) (\<lambda>(denom_supply, sups').
     if show_int (sup_amount denom_supply) \<noteq> amount c
     then map_res (\<lambda>s. (save sup_id s sups', dict_set i (latest\<lparr>bs_supply_id := sup_id s\<rparr>) m))
            (get_supply_record c h)
     else Inr (sups', m))))"

definition index_supply :: "nat \<Rightarrow> coin list \<Rightarrow> string list \<Rightarrow> supply_state \<Rightarrow> supply_state res" where
  "index_supply h coins saved st =
     (let new = filter (\<lambda>d. d \<notin> set saved) (map denom coins);
          denoms = saved @ new;
          m = block_supplies_map (block_supplies st) h denoms in
      if coins = [] then throw (''[handleSupply]: query.totalSupply returned 0 records, block.header.height='' @ show_nat h)
      else map_res (\<lambda>(sups, m'). \<lparr>supply_denoms = supply_denoms st @ new, supplies = sups,
             block_supplies = bulk_create bs_id (map snd m') (block_supplies st)\<rparr>)
           (foldM_res (supply_step h) (supplies st, m) coins))"

definition handle_supply :: "nat \<Rightarrow> coin page_query \<Rightarrow> supply_state \<Rightarrow> supply_state res option" where
  "handle_supply h q st =
     Option.bind (fetch_all_supply_denom (supply_denoms st)) (\<lambda>saved.
     Option.bind (query_total_supply q) (\<lambda>answer.
       Some (bind_res answer (\<lambda>coins. index_supply h coins saved st))))"

subsection \<open>Module accounts\<close>

record base_account =
  ba_address :: string
  ba_account_number :: int
  ba_sequence :: int

record chain_module_account =
  cma_base :: "base_account option"
  cma_name :: string
  cma_permissions :: "string list"

type_synonym extended_account = "base_account \<times> chain_module_account \<times> coin list"

text \<open>\<open>baseAccount?.address\<close> of an account that passed the filter of \<open>queryModuleAccounts\<close>.\<close>

definition get_module_account_props :: "base_account \<Rightarrow> chain_module_account \<Rightarrow> module_account" where
  "get_module_account_props b m =
     \<lparr>ma_id = ba_address b, ma_name = cma_name m, ma_account_number = ba_account_number b,
      ma_sequence = ba_sequence b, ma_permissions = cma_permissions m\<rparr>"

text \<open>
  The queries \<open>moduleAccounts\<close> and \<open>allBalances\<close> and the decoder of an account are arguments. An
  account without a base account is dropped.
\<close>

definition query_module_accounts ::
  "any_msg list option res \<Rightarrow> (bytes \<Rightarrow> chain_module_account res) \<Rightarrow> (string \<Rightarrow> coin list res) \<Rightarrow>
   extended_account list res" where
  "query_module_accounts module_accounts decode all_balances =
     bind_res module_accounts (\<lambda>accounts.
     bind_res (mapM_res (\<lambda>a. decode (any_value a)) (case accounts of None \<Rightarrow> [] | Some as \<Rightarrow> as)) (\<lambda>decoded.
       mapM_res (\<lambda>(b, m). map_res (\<lambda>coins. (b, m, coins)) (all_balances (ba_address b)))
         (List.map_filter (\<lambda>m. map_option (\<lambda>b. (b, m)) (cma_base m)) decoded)))"

definition module_balance_step ::
  "int \<Rightarrow> string \<Rightarrow> balance tbl \<Rightarrow> coin \<Rightarrow> balance tbl res" where
  "module_balance_step block_id addr t c =
     (let i = get_balance_id addr (denom c) in
      case t i of
        None \<Rightarrow> map_res (\<lambda>a. save bal_id \<lparr>bal_id = i, bal_account_id = addr, bal_denom = Some (denom c),
            bal_amount = a, last_updated_block_id = block_id\<rparr> t) (big_int (amount c))
      | Some prev \<Rightarrow>
          if show_int (bal_amount prev) \<noteq> amount c
          then map_res (\<lambda>a. save bal_id (prev\<lparr>bal_amount := a, last_updated_block_id := block_id\<rparr>) t)
                 (big_int (amount c))
          else Inr t)"

text \<open>
  The handler: \<open>attempt k\<close> is the outcome of the \<open>k\<close>-th call of \<open>queryModuleAccounts\<close>. Its result
  is the set of addresses, the Balance table and the accounts passed to \<open>enforceAccountsExists\<close>.
\<close>

definition handle_module_accounts ::
  "nat \<Rightarrow> string \<Rightarrow> (nat \<Rightarrow> extended_account list res) \<Rightarrow> balance tbl \<Rightarrow>
   (string list \<times> balance tbl \<times> account_params list) res" where
  "handle_module_accounts h chain attempt t =
     bind_res (retry_on_fail attempt 150 0) (\<lambda>accounts.
     bind_res (foldM_res (\<lambda>t (b, m, coins). foldM_res (module_balance_step (get_block_id h) (ba_address b)) t coins)
         t accounts) (\<lambda>t'.
       Inr (js_set (map (\<lambda>(b, _, _). ba_address b) accounts), t',
         map (\<lambda>(b, m, _). \<lparr>ap_id = ba_address b, ap_chain_id = chain,
               ap_module = Some (get_module_account_props b m)\<rparr>) accounts)))"

subsection \<open>Native transfers\<close>

record native_transfer =
  nt_id :: string
  nt_sender :: string
  nt_recipient :: string
  nt_amounts :: "coin list"
  nt_denom :: string
  nt_status :: tx_status
  nt_event_id :: string
  nt_message_id :: string
  nt_transaction_id :: string
  nt_block_id :: int

definition handle_native_transfer_msg :: "cosmos_msg \<Rightarrow> native_transfer res" where
  "handle_native_transfer_msg msg =
     (let i = message_id msg; tx = msg_tx msg;
          err = throw (''[handleNativeTransfer] (block='' @ show_nat (msg_height msg) @ '' tx='' @ tx_hash tx @
                  '' msg='' @ i @ ''): cannot index msg'') in
      case decoded msg of
        BankSend src dst (Some amounts) \<Rightarrow>
          if src = [] \<or> dst = [] then err
          else (case amounts of
              [] \<Rightarrow> throw ''TypeError: amounts[0] is undefined''
            | c # _ \<Rightarrow> Inr \<lparr>nt_id = i, nt_sender = src, nt_recipient = dst, nt_amounts = amounts,
                nt_denom = denom c, nt_status = get_tx_status tx, nt_event_id = i, nt_message_id = i,
                nt_transaction_id = tx_hash tx, nt_block_id = get_block_id (msg_height msg)\<rparr>)
      | _ \<Rightarrow> err)"

definition handle_native_transfer ::
  "cosmos_msg list \<Rightarrow> native_transfer tbl \<Rightarrow> native_transfer tbl res" where
  "handle_native_transfer msgs t =
     map_res (\<lambda>rows. bulk_create nt_id rows t) (mapM_res handle_native_transfer_msg msgs)"

subsection \<open>Lemmas\<close>

lemma get_supply_id_inject [simp]: "get_supply_id d h = get_supply_id d' h' \<longleftrightarrow> d = d' \<and> h = h'"
proof -
  have no: "CHR ''@'' \<notin> set (show_nat k)" for k
    using show_nat_digits [of k] by (auto simp: list_all_iff is_digit_def)
  have "get_supply_id d h = get_supply_id d' h' \<longleftrightarrow>
      rev (show_nat h) @ CHR ''@'' # rev d = rev (show_nat h') @ CHR ''@'' # rev d'"
    using rev_is_rev_conv [of "get_supply_id d h" "get_supply_id d' h'"]
    by (simp add: get_supply_id_def del: rev_is_rev_conv)
  with no show ?thesis by (auto simp: append_sep_inject)
qed

lemma map_of_block_supplies_map:
  "map_of (block_supplies_map saved h ds) i =
     (if \<exists>d \<in> set ds. i = get_supply_id d h then Some (block_supply_props saved h (THE d. i = get_supply_id d h)) else None)"
proof -
  have "map_of (foldl (\<lambda>m d. dict_set (get_supply_id d h) (block_supply_props saved h d) m) m0 ds) i =
     (if \<exists>d \<in> set ds. i = get_supply_id d h then Some (block_supply_props saved h (THE d. i = get_supply_id d h))
      else map_of m0 i)" for m0
    by (induction ds arbitrary: m0) auto
  from this [of "[]"] show ?thesis by (simp add: block_supplies_map_def)
qed

lemma block_supplies_map_at [simp]:
  "map_of (block_supplies_map saved h ds) (get_supply_id d h) =
     (if d \<in> set ds then Some (block_supply_props saved h d) else None)"
  by (auto simp: map_of_block_supplies_map)

lemma supply_step_ok:
  assumes "map_of m (get_supply_id (denom c) h) = Some bs"
    and "bs_supply_id bs = get_supply_id (denom c) k" "k = h \<or> sups (bs_supply_id bs) \<noteq> None"
    and "amount c = show_int a"
  shows "\<exists>sups' m' bs' s k'. supply_step h (sups, m) c = Inr (sups', m') \<and>
    map_of m' = (map_of m)(get_supply_id (denom c) h \<mapsto> bs') \<and>
    sups' (bs_supply_id bs') = Some s \<and> sup_amount s = a \<and>
    bs_supply_id bs' = get_supply_id (denom c) k' \<and>
    (\<forall>s0. sups (bs_supply_id bs) = Some s0 \<and> sup_amount s0 = a \<longrightarrow> bs' = bs) \<and>
    (\<forall>i. i \<noteq> get_supply_id (denom c) h \<longrightarrow> sups' i = sups i)"
proof -
  have rec: "get_supply_record c h =
      Inr \<lparr>sup_id = get_supply_id (denom c) h, sup_denom = denom c, sup_amount = a\<rparr>"
    by (simp add: get_supply_record_def assms(4))
  have upd: "(map_of m)(get_supply_id (denom c) h \<mapsto> bs) = map_of m"
    using assms(1) by (simp add: fun_upd_idem)
  show ?thesis
  proof (cases "sups (bs_supply_id bs)")
    case None
    with assms rec upd show ?thesis
      by (auto simp: supply_step_def Let_def intro!: exI [of _ bs])
  next
    case (Some s0)
    show ?thesis
    proof (cases "sup_amount s0 = a")
      case True
      with Some assms rec upd show ?thesis
        by (auto simp: supply_step_def Let_def intro!: exI [of _ bs])
    next
      case False
      with Some assms rec show ?thesis
        by (auto simp: supply_step_def Let_def
            intro!: exI [of _ "bs\<lparr>bs_supply_id := get_supply_id (denom c) h\<rparr>"])
    qed
  qed
qed

definition supply_ready :: "nat \<Rightarrow> supply_row tbl \<Rightarrow> (string \<times> block_supply) list \<Rightarrow> coin \<Rightarrow> bool" where
  "supply_ready h sups m c \<longleftrightarrow>
     (\<exists>bs k. map_of m (get_supply_id (denom c) h) = Some bs \<and> bs_supply_id bs = get_supply_id (denom c) k \<and>
        (k = h \<or> sups (bs_supply_id bs) \<noteq> None)) \<and> (\<exists>a. amount c = show_int a)"

text \<open>After the loop: the coin's row points to a Supply with the coin's amount, the same one as
  before when the amount did not change.\<close>

definition supply_done ::
  "nat \<Rightarrow> supply_row tbl \<Rightarrow> (string \<times> block_supply) list \<Rightarrow> supply_row tbl \<Rightarrow> (string \<times> block_supply) list \<Rightarrow>
   coin \<Rightarrow> bool" where
  "supply_done h sups m sups' m' c \<longleftrightarrow>
     (\<exists>bs bs' s k. map_of m (get_supply_id (denom c) h) = Some bs \<and>
        map_of m' (get_supply_id (denom c) h) = Some bs' \<and>
        bs_supply_id bs' = get_supply_id (denom c) k \<and>
        sups' (bs_supply_id bs') = Some s \<and> show_int (sup_amount s) = amount c \<and>
        (\<forall>s0. sups (bs_supply_id bs) = Some s0 \<and> show_int (sup_amount s0) = amount c \<longrightarrow> bs' = bs))"

text \<open>The steps of other coins do not undo a coin's step, and a step leaves the rows of other coins.\<close>

lemma supply_done_head:
  assumes "\<And>i. (\<forall>c' \<in> set cs. i \<noteq> get_supply_id (denom c') h) \<Longrightarrow> sups' i = sups1 i \<and> map_of m' i = map_of m1 i"
    and "\<And>c'. c' \<in> set cs \<Longrightarrow> denom c' \<noteq> denom c"
    and "map_of m (get_supply_id (denom c) h) = Some bs" "amount c = show_int a"
    and "map_of m1 = (map_of m)(get_supply_id (denom c) h \<mapsto> bs1)"
    and "sups1 (bs_supply_id bs1) = Some s" "sup_amount s = a" "bs_supply_id bs1 = get_supply_id (denom c) k"
    and "\<forall>s0. sups (bs_supply_id bs) = Some s0 \<and> sup_amount s0 = a \<longrightarrow> bs1 = bs"
  shows "supply_done h sups m sups' m' c"
proof -
  have "\<forall>c' \<in> set cs. get_supply_id (denom c) j \<noteq> get_supply_id (denom c') h" for j
    using assms(2) by (metis get_supply_id_inject)
  note frame = assms(1) [OF this]
  have "sups' (bs_supply_id bs1) = Some s" "map_of m' (get_supply_id (denom c) h) = Some bs1"
    using frame [of k] frame [of h] assms(5,6,8) by simp_all
  then show ?thesis using assms(3,4,7-9) by (auto simp: supply_done_def)
qed

lemma supply_done_tail:
  assumes "supply_done h sups1 m1 sups' m' c'" "supply_ready h sups m c'" "denom c' \<noteq> denom c"
    and "\<forall>i. i \<noteq> get_supply_id (denom c) h \<longrightarrow> sups1 i = sups i"
    and "map_of m1 = (map_of m)(get_supply_id (denom c) h \<mapsto> bs1)"
  shows "supply_done h sups m sups' m' c'"
  using assms by (auto simp: supply_ready_def supply_done_def)

lemma supply_steps:
  assumes "distinct (map denom cs)" and "\<And>c. c \<in> set cs \<Longrightarrow> supply_ready h sups m c"
  shows "\<exists>sups' m'. foldM_res (supply_step h) (sups, m) cs = Inr (sups', m') \<and>
    (\<forall>c \<in> set cs. supply_done h sups m sups' m' c) \<and>
    (\<forall>i. (\<forall>c \<in> set cs. i \<noteq> get_supply_id (denom c) h) \<longrightarrow> sups' i = sups i \<and> map_of m' i = map_of m i)"
  using assms
proof (induction cs arbitrary: sups m)
  case Nil
  then show ?case by simp
next
  case (Cons c cs)
  obtain bs k a where ready: "map_of m (get_supply_id (denom c) h) = Some bs"
    "bs_supply_id bs = get_supply_id (denom c) k" "k = h \<or> sups (bs_supply_id bs) \<noteq> None"
    "amount c = show_int a"
    using Cons.prems(2) [of c] by (auto simp: supply_ready_def)
  from supply_step_ok [of m c h bs k sups a, OF ready] obtain sups1 m1 bs1 s k' where
    step: "supply_step h (sups, m) c = Inr (sups1, m1)"
    and m1: "map_of m1 = (map_of m)(get_supply_id (denom c) h \<mapsto> bs1)"
    and s: "sups1 (bs_supply_id bs1) = Some s" "sup_amount s = a"
    and k': "bs_supply_id bs1 = get_supply_id (denom c) k'"
    and same: "\<forall>s0. sups (bs_supply_id bs) = Some s0 \<and> sup_amount s0 = a \<longrightarrow> bs1 = bs"
    and other: "\<forall>i. i \<noteq> get_supply_id (denom c) h \<longrightarrow> sups1 i = sups i"
    by (elim exE conjE) (rule that)
  have neq: "denom c' \<noteq> denom c" if "c' \<in> set cs" for c'
    using Cons.prems(1) that by (metis distinct.simps(2) imageI list.set_map list.simps(9))
  have "supply_ready h sups1 m1 c'" if "c' \<in> set cs" for c'
    using Cons.prems(2) [of c'] that neq [OF that] other by (auto simp: supply_ready_def m1)
  with Cons.IH [of sups1 m1] Cons.prems(1) obtain sups' m' where
    IH: "foldM_res (supply_step h) (sups1, m1) cs = Inr (sups', m')"
    "\<And>c'. c' \<in> set cs \<Longrightarrow> supply_done h sups1 m1 sups' m' c'"
    "\<And>i. (\<forall>c' \<in> set cs. i \<noteq> get_supply_id (denom c') h) \<Longrightarrow> sups' i = sups1 i \<and> map_of m' i = map_of m1 i"
    by auto
  have "supply_done h sups m sups' m' c"
    using IH(3) neq ready(1,4) m1 s k' same by (rule supply_done_head)
  moreover have "supply_done h sups m sups' m' c'" if c': "c' \<in> set cs" for c'
    using IH(2) [OF c'] _ neq [OF c'] other m1 by (rule supply_done_tail) (use Cons.prems(2) c' in simp)
  moreover have "sups' i = sups i \<and> map_of m' i = map_of m i"
    if "\<forall>c' \<in> set (c # cs). i \<noteq> get_supply_id (denom c') h" for i
    using IH(3) [of i] that other by (simp add: m1)
  ultimately show ?case using step IH(1) by auto
qed

definition keyed :: "(string \<times> block_supply) list \<Rightarrow> bool" where
  "keyed m \<longleftrightarrow> dict_ok m \<and> (\<forall>(k, v) \<in> set m. bs_id v = k)"

lemma keyed_set: "keyed m \<Longrightarrow> bs_id v = k \<Longrightarrow> keyed (dict_set k v m)"
  using set_dict_set [of k v m] by (fastforce simp: keyed_def)

lemma keyed_map: "keyed (block_supplies_map saved h ds)"
proof -
  have "keyed m \<Longrightarrow> keyed (foldl (\<lambda>m d. dict_set (get_supply_id d h) (block_supply_props saved h d) m) m ds)" for m
    by (induction ds arbitrary: m) (simp_all add: keyed_set block_supply_props_def)
  from this [of "[]"] show ?thesis by (simp add: block_supplies_map_def keyed_def)
qed

lemma supply_step_keyed:
  assumes "supply_step h (sups, m) c = Inr (sups', m')" "keyed m"
  shows "keyed m'"
proof -
  obtain latest where "map_of m (get_supply_id (denom c) h) = Some latest"
    and m': "m' = m \<or> (\<exists>i. m' = dict_set (get_supply_id (denom c) h) (latest\<lparr>bs_supply_id := i\<rparr>) m)"
    using assms(1) by (auto simp: supply_step_def Let_def res_eq_Inr split: if_splits)
  then have "bs_id latest = get_supply_id (denom c) h"
    using assms(2) by (auto simp: keyed_def dest!: map_of_SomeD)
  with m' assms(2) show ?thesis by (auto intro!: keyed_set)
qed

lemma keyed_steps:
  assumes "foldM_res (supply_step h) st cs = Inr st'" "keyed (snd st)"
  shows "keyed (snd st')"
  by (rule foldM_res_invariant [where P = "keyed \<circ> snd", unfolded comp_def, OF assms])
    (auto intro: supply_step_keyed)

lemma bulk_create_keyed:
  assumes "keyed m"
  shows "bulk_create bs_id (map snd m) t i = (case map_of m i of Some v \<Rightarrow> Some v | None \<Rightarrow> t i)"
proof -
  have ids: "map bs_id (map snd m) = map fst m" using assms by (auto simp: keyed_def)
  show ?thesis
  proof (cases "map_of m i")
    case None
    then have "i \<notin> bs_id ` set (map snd m)"
      using ids by (metis list.set_map map_of_eq_None_iff)
    then show ?thesis by (simp add: None bulk_create_other)
  next
    case (Some v)
    then have "(i, v) \<in> set m" by (rule map_of_SomeD)
    with assms have "v \<in> set (map snd m)" "bs_id v = i" by (force simp: keyed_def)+
    moreover have "distinct (map bs_id (map snd m))"
      unfolding ids using assms by (simp add: keyed_def dict_ok_def)
    ultimately show ?thesis
      using bulk_create_in [of bs_id "map snd m" v t] Some by simp
  qed
qed

text \<open>The rows of the block before: every one points to an existing Supply of its denomination.\<close>

definition supply_ok :: "nat \<Rightarrow> supply_state \<Rightarrow> bool" where
  "supply_ok h st \<longleftrightarrow> (\<forall>d bs. block_supplies st (get_supply_id d h) = Some bs \<longrightarrow>
     (\<exists>k. bs_supply_id bs = get_supply_id d k) \<and> supplies st (bs_supply_id bs) \<noteq> None)"

definition current_supply :: "nat \<Rightarrow> supply_state \<Rightarrow> string \<Rightarrow> int option" where
  "current_supply h st d = Option.bind (block_supplies st (get_supply_id d h))
     (\<lambda>bs. map_option sup_amount (supplies st (bs_supply_id bs)))"

text \<open>What a block's rows say of a coin of the answer, and of a known denomination it does not have.\<close>

lemma supply_of_coin:
  assumes "supply_done h (supplies st) m (supplies st') m' c" "1 < h" "amount c = show_int v"
    and "map_of m (get_supply_id (denom c) h) = Some (block_supply_props (block_supplies st) h (denom c))"
    and rows: "\<And>i. block_supplies st' i = (case map_of m' i of Some v \<Rightarrow> Some v | None \<Rightarrow> block_supplies st i)"
  shows "current_supply h st' (denom c) = Some v" (is ?now)
    and "current_supply (h - 1) st (denom c) = Some v \<Longrightarrow>
      map_option bs_supply_id (block_supplies st' (get_supply_id (denom c) h)) =
      map_option bs_supply_id (block_supplies st (get_supply_id (denom c) (h - 1)))" (is "_ \<Longrightarrow> ?same")
proof -
  obtain bs' s where *: "map_of m' (get_supply_id (denom c) h) = Some bs'"
    "supplies st' (bs_supply_id bs') = Some s" "sup_amount s = v"
    "\<And>s0. supplies st (bs_supply_id (block_supply_props (block_supplies st) h (denom c))) = Some s0 \<Longrightarrow>
       sup_amount s0 = v \<Longrightarrow> bs' = block_supply_props (block_supplies st) h (denom c)"
    using assms(1,3,4) by (auto simp: supply_done_def)
  then show ?now by (simp add: current_supply_def rows)
  assume prev: "current_supply (h - 1) st (denom c) = Some v"
  then obtain bs s0 where "block_supplies st (get_supply_id (denom c) (h - 1)) = Some bs"
    "supplies st (bs_supply_id bs) = Some s0" "sup_amount s0 = v"
    by (auto simp: current_supply_def bind_eq_Some_conv)
  with * assms(2) show ?same by (auto simp: rows block_supply_props_def supply_id_height_def)
qed

lemma supply_of_other:
  assumes "supply_ok (h - 1) st" "1 < h" "block_supplies st (get_supply_id d (h - 1)) \<noteq> None"
    and "map_of m' (get_supply_id d h) = Some (block_supply_props (block_supplies st) h d)"
    and "\<And>k. supplies st' (get_supply_id d k) = supplies st (get_supply_id d k)"
    and rows: "\<And>i. block_supplies st' i = (case map_of m' i of Some v \<Rightarrow> Some v | None \<Rightarrow> block_supplies st i)"
  shows "current_supply h st' d = current_supply (h - 1) st d"
proof -
  obtain bs where bs: "block_supplies st (get_supply_id d (h - 1)) = Some bs" using assms(3) by blast
  moreover obtain k where "bs_supply_id bs = get_supply_id d k" using bs assms(1) by (auto simp: supply_ok_def)
  ultimately show ?thesis
    using assms(2,4,5) by (simp add: current_supply_def rows block_supply_props_def supply_id_height_def)
qed

lemma coin_ready:
  assumes "supply_ok (h - 1) st" "1 < h" "amount c = show_int v"
    and "map_of m (get_supply_id (denom c) h) = Some (block_supply_props (block_supplies st) h (denom c))"
  shows "supply_ready h (supplies st) m c"
proof -
  have "\<exists>k. bs_supply_id (block_supply_props (block_supplies st) h (denom c)) = get_supply_id (denom c) k \<and>
      (k = h \<or> supplies st (bs_supply_id (block_supply_props (block_supplies st) h (denom c))) \<noteq> None)"
    using assms(1,2) by (auto simp: block_supply_props_def supply_id_height_def supply_ok_def split: option.split)
  then show ?thesis using assms(3,4) by (auto simp: supply_ready_def)
qed


definition supply_state_example :: supply_state where
  "supply_state_example = \<lparr>supply_denoms = [''upokt''],
     supplies = [get_supply_id ''upokt'' 3 \<mapsto> \<lparr>sup_id = get_supply_id ''upokt'' 3, sup_denom = ''upokt'', sup_amount = 10\<rparr>],
     block_supplies = [get_supply_id ''upokt'' 6 \<mapsto>
       \<lparr>bs_id = get_supply_id ''upokt'' 6, bs_block_id = 6, bs_supply_id = get_supply_id ''upokt'' 3\<rparr>]\<rparr>"


subsection \<open>Module accounts and transfers\<close>

definition module_balance_amount :: "balance tbl \<Rightarrow> string \<Rightarrow> string \<Rightarrow> int option" where
  "module_balance_amount t addr d = map_option bal_amount (t (get_balance_id addr d))"

lemma module_balance_step_ok:
  assumes "amount c = show_int a" and "keyed_tbl bal_id t"
  shows "\<exists>t'. module_balance_step b addr t c = Inr t' \<and> keyed_tbl bal_id t' \<and>
    module_balance_amount t' addr (denom c) = Some a \<and>
    (module_balance_amount t addr (denom c) = Some a \<longrightarrow> t' = t) \<and>
    (\<forall>i. i \<noteq> get_balance_id addr (denom c) \<longrightarrow> t' i = t i)"
proof (cases "t (get_balance_id addr (denom c))")
  case None
  then show ?thesis using assms(2) by (simp add: module_balance_step_def assms(1) module_balance_amount_def)
next
  case (Some prev)
  then have "bal_id prev = get_balance_id addr (denom c)" using assms(2) by (simp add: keyed_tbl_def)
  then show ?thesis using assms(2) Some
    by (simp add: module_balance_step_def assms(1) module_balance_amount_def)
qed

lemma module_balances_ok:
  assumes "\<And>c. c \<in> set coins \<Longrightarrow> amount c = show_int (val c)" and "distinct (map denom coins)"
    and "keyed_tbl bal_id t"
  shows "\<exists>t'. foldM_res (module_balance_step b addr) t coins = Inr t' \<and> keyed_tbl bal_id t' \<and>
    (\<forall>c \<in> set coins. module_balance_amount t' addr (denom c) = Some (val c)) \<and>
    (\<forall>i. i \<notin> (get_balance_id addr \<circ> denom) ` set coins \<longrightarrow> t' i = t i)"
  using assms
proof (induction coins arbitrary: t)
  case Nil
  then show ?case by simp
next
  case (Cons c coins)
  from module_balance_step_ok [of c "val c" t b addr] Cons.prems
  obtain t1 where t1: "module_balance_step b addr t c = Inr t1" "keyed_tbl bal_id t1"
    "module_balance_amount t1 addr (denom c) = Some (val c)"
    "\<And>i. i \<noteq> get_balance_id addr (denom c) \<Longrightarrow> t1 i = t i"
    by auto
  from Cons.IH [OF _ _ t1(2)] Cons.prems(1,2)
  obtain t' where t': "foldM_res (module_balance_step b addr) t1 coins = Inr t'" "keyed_tbl bal_id t'"
    "\<And>c. c \<in> set coins \<Longrightarrow> module_balance_amount t' addr (denom c) = Some (val c)"
    "\<And>i. i \<notin> (get_balance_id addr \<circ> denom) ` set coins \<Longrightarrow> t' i = t1 i"
    by auto
  have "get_balance_id addr (denom c) \<notin> (get_balance_id addr \<circ> denom) ` set coins"
    using Cons.prems(2) by (auto simp: get_balance_id_def dash_def)
  with t1 t' show ?case by (auto simp: module_balance_amount_def)
qed

definition account_ids :: "extended_account \<Rightarrow> string set" where
  "account_ids = (\<lambda>(b, m, coins). (get_balance_id (ba_address b) \<circ> denom) ` set coins)"

definition account_ok :: "(coin \<Rightarrow> int) \<Rightarrow> extended_account \<Rightarrow> bool" where
  "account_ok val = (\<lambda>(b, m, coins). CHR ''-'' \<notin> set (ba_address b) \<and> distinct (map denom coins) \<and>
     (\<forall>c \<in> set coins. amount c = show_int (val c)))"

definition account_written :: "(coin \<Rightarrow> int) \<Rightarrow> balance tbl \<Rightarrow> extended_account \<Rightarrow> bool" where
  "account_written val t = (\<lambda>(b, m, coins).
     \<forall>c \<in> set coins. module_balance_amount t (ba_address b) (denom c) = Some (val c))"

lemma account_ids_disjoint:
  "account_ok val x \<Longrightarrow> account_ok val y \<Longrightarrow> ba_address (fst x) \<noteq> ba_address (fst y) \<Longrightarrow>
     account_ids x \<inter> account_ids y = {}"
  by (cases x; cases y) (auto simp: account_ids_def account_ok_def get_balance_id_def dash_inject)

lemma module_accounts_ok:
  assumes "list_all (account_ok val) accounts" and "distinct (map (ba_address \<circ> fst) accounts)"
    and "keyed_tbl bal_id t"
  shows "\<exists>t'. foldM_res (\<lambda>t (b, m, coins). foldM_res (module_balance_step bid (ba_address b)) t coins) t accounts = Inr t' \<and>
    keyed_tbl bal_id t' \<and> list_all (account_written val t') accounts \<and>
    (\<forall>i. i \<notin> \<Union> (account_ids ` set accounts) \<longrightarrow> t' i = t i)"
  using assms
proof (induction accounts arbitrary: t)
  case Nil
  then show ?case by simp
next
  case (Cons x accounts)
  obtain b m coins where x: "x = (b, m, coins)" by (cases x)
  have ok: "account_ok val (b, m, coins)" using Cons.prems(1) by (simp add: x)
  obtain t1 where t1: "foldM_res (module_balance_step bid (ba_address b)) t coins = Inr t1" "keyed_tbl bal_id t1"
    "\<And>c. c \<in> set coins \<Longrightarrow> module_balance_amount t1 (ba_address b) (denom c) = Some (val c)"
    "\<And>i. i \<notin> account_ids x \<Longrightarrow> t1 i = t i"
    using module_balances_ok [of coins val t bid "ba_address b"] ok Cons.prems(3)
    by (auto simp: account_ok_def account_ids_def x)
  obtain t' where t': "foldM_res (\<lambda>t (b, m, coins). foldM_res (module_balance_step bid (ba_address b)) t coins) t1 accounts = Inr t'"
    "keyed_tbl bal_id t'" "list_all (account_written val t') accounts"
    "\<And>i. i \<notin> \<Union> (account_ids ` set accounts) \<Longrightarrow> t' i = t1 i"
    using Cons.IH [OF _ _ t1(2)] Cons.prems(1,2) by auto
  have "account_ids x \<inter> account_ids y = {}" if "y \<in> set accounts" for y
    using account_ids_disjoint [of val x y] Cons.prems(1,2) that
    by (auto simp: list_all_iff image_iff x)
  then have "t' i = t1 i" if "i \<in> account_ids x" for i
    using that t'(4) [of i] by blast
  then have "account_written val t' x"
    using t1(3) by (auto simp: account_written_def x account_ids_def module_balance_amount_def)
  with t1 t' show ?case by (auto simp: x)
qed

text \<open>What the handler writes is written at its block.\<close>

lemma module_balance_step_written:
  "module_balance_step b addr t c = Inr t' \<Longrightarrow> keyed_tbl bal_id t \<Longrightarrow>
     keyed_tbl bal_id t' \<and> (\<forall>i x. t' i = Some x \<longrightarrow> t i = Some x \<or> last_updated_block_id x = b)"
  by (auto simp: module_balance_step_def Let_def map_res_eq_Inr keyed_tbl_def split: option.splits if_splits)

lemma module_accounts_written:
  assumes "foldM_res (\<lambda>t (base, m, coins). foldM_res (module_balance_step b (ba_address base)) t coins) t accounts = Inr t'"
    and "keyed_tbl bal_id t" and "t' i = Some x"
  shows "t i = Some x \<or> last_updated_block_id x = b"
proof -
  have one: "keyed_tbl bal_id t' \<and> (\<forall>i x. t' i = Some x \<longrightarrow> t i = Some x \<or> last_updated_block_id x = b)"
    if "foldM_res (module_balance_step b addr) t coins = Inr t'" "keyed_tbl bal_id t" for addr coins t t'
    using that
  proof (induction coins arbitrary: t)
    case (Cons c coins)
    obtain t1 where t1: "module_balance_step b addr t c = Inr t1" "foldM_res (module_balance_step b addr) t1 coins = Inr t'"
      using Cons.prems(1) by (auto simp: bind_eq_Inr)
    show ?case using Cons.IH [OF t1(2)] module_balance_step_written [OF t1(1) Cons.prems(2)] by blast
  qed simp
  show ?thesis
    using assms
  proof (induction accounts arbitrary: t)
    case (Cons y accounts)
    obtain base m coins where y: "y = (base, m, coins)" by (cases y)
    obtain t1 where t1: "foldM_res (module_balance_step b (ba_address base)) t coins = Inr t1"
      "foldM_res (\<lambda>t (base, m, coins). foldM_res (module_balance_step b (ba_address base)) t coins) t1 accounts = Inr t'"
      using Cons.prems(1) by (auto simp: bind_eq_Inr y)
    show ?case using Cons.IH [OF t1(2)] one [OF t1(1) Cons.prems(2)] Cons.prems(3) by blast
  qed simp
qed

text \<open>
  Once \<open>queryModuleAccounts\<close> answers within its 151 attempts, every balance of every module
  account becomes the chain's amount, all other balances are left alone, and the address set and the
  accounts to enforce are those of the answer.
\<close>

theorem handle_module_accounts_spec:
  assumes "attempt k = Inr accounts" and "k \<le> 150" and "\<And>j. j < k \<Longrightarrow> \<exists>e. attempt j = Inl e"
    and "list_all (account_ok val) accounts" and "distinct (map (ba_address \<circ> fst) accounts)"
    and "keyed_tbl bal_id t"
  shows "\<exists>addrs t' enforced. handle_module_accounts h chain attempt t = Inr (addrs, t', enforced) \<and>
    set addrs = (ba_address \<circ> fst) ` set accounts \<and> distinct addrs \<and>
    map ap_id enforced = map (ba_address \<circ> fst) accounts \<and>
    list_all (account_written val t') accounts \<and>
    (\<forall>i. i \<notin> \<Union> (account_ids ` set accounts) \<longrightarrow> t' i = t i)"
proof -
  have "retry_on_fail attempt 150 0 = Inr accounts"
    using retry_first_success [of attempt k accounts 0 150] assms(1-3) by simp
  moreover obtain t' where t': "foldM_res (\<lambda>t (b, m, coins). foldM_res (module_balance_step (get_block_id h) (ba_address b)) t coins) t accounts = Inr t'"
    "list_all (account_written val t') accounts"
    "\<forall>i. i \<notin> \<Union> (account_ids ` set accounts) \<longrightarrow> t' i = t i"
    using module_accounts_ok [OF assms(4-6)] by blast
  ultimately show ?thesis
    by (simp add: handle_module_accounts_def split_beta comp_def)
qed

theorem handle_module_accounts_spec_witness:
  "\<exists>t'. handle_module_accounts 7 ''c'' (\<lambda>k. if k = 0 then throw ''down'' else
       Inr [(\<lparr>ba_address = ''dao'', ba_account_number = 1, ba_sequence = 0\<rparr>,
             \<lparr>cma_base = None, cma_name = ''dao'', cma_permissions = []\<rparr>, [\<lparr>amount = ''5'', denom = ''upokt''\<rparr>])])
       (\<lambda>_. None) = Inr ([''dao''], t', [\<lparr>ap_id = ''dao'', ap_chain_id = ''c'',
          ap_module = Some \<lparr>ma_id = ''dao'', ma_name = ''dao'', ma_account_number = 1, ma_sequence = 0, ma_permissions = []\<rparr>\<rparr>]) \<and>
     module_balance_amount t' ''dao'' ''upokt'' = Some 5"
proof -
  let ?acc = "(\<lparr>ba_address = ''dao'', ba_account_number = 1, ba_sequence = 0\<rparr>,
      \<lparr>cma_base = None, cma_name = ''dao'', cma_permissions = []\<rparr>, [\<lparr>amount = ''5'', denom = ''upokt''\<rparr>])"
  let ?attempt = "\<lambda>k :: nat. if k = 0 then throw ''down'' else Inr [?acc]"
  have "list_all (account_ok (\<lambda>c. int (parse_nat (amount c)))) [?acc]" by code_simp
  moreover have "\<exists>e. ?attempt j = Inl e" if "j < 1" for j using that by (simp add: throw_def)
  ultimately obtain addrs t' enforced where
    "handle_module_accounts 7 ''c'' ?attempt (\<lambda>_. None) = Inr (addrs, t', enforced)"
    "list_all (account_written (\<lambda>c. int (parse_nat (amount c))) t') [?acc]"
    using handle_module_accounts_spec [of ?attempt 1 "[?acc]" "\<lambda>c. int (parse_nat (amount c))" "\<lambda>_. None" 7 "''c''"]
    by auto
  moreover from this(1) have "addrs = [''dao'']" "enforced = [\<lparr>ap_id = ''dao'', ap_chain_id = ''c'',
      ap_module = Some (get_module_account_props (fst ?acc) (fst (snd ?acc)))\<rparr>]"
    by (auto simp: handle_module_accounts_def res_eq_Inr retry_on_fail.simps throw_def js_set_def)
  ultimately show ?thesis
    by (simp add: account_written_def parse_nat_def digit_val_def get_module_account_props_def)
qed

text \<open>
  A block's native transfers are indexed all or none: if every message has its two addresses and
  an amount, each gets one row under its own id, with the message's sender, recipient, amounts and
  the status of its transaction; if one lacks them, nothing is written.
\<close>

theorem handle_native_transfer_rows:
  "handle_native_transfer msgs t = Inr t' \<longleftrightarrow>
     (\<exists>rows. list_all2 (\<lambda>m r. \<exists>src dst c cs. decoded m = BankSend src dst (Some (c # cs)) \<and>
          src \<noteq> [] \<and> dst \<noteq> [] \<and>
          r = \<lparr>nt_id = message_id m, nt_sender = src, nt_recipient = dst, nt_amounts = c # cs,
               nt_denom = denom c, nt_status = get_tx_status (msg_tx m), nt_event_id = message_id m,
               nt_message_id = message_id m, nt_transaction_id = tx_hash (msg_tx m),
               nt_block_id = int (msg_height m)\<rparr>) msgs rows \<and>
        t' = bulk_create nt_id rows t)"
proof -
  have "handle_native_transfer_msg m = Inr r \<longleftrightarrow>
      (\<exists>src dst c cs. decoded m = BankSend src dst (Some (c # cs)) \<and> src \<noteq> [] \<and> dst \<noteq> [] \<and>
          r = \<lparr>nt_id = message_id m, nt_sender = src, nt_recipient = dst, nt_amounts = c # cs,
               nt_denom = denom c, nt_status = get_tx_status (msg_tx m), nt_event_id = message_id m,
               nt_message_id = message_id m, nt_transaction_id = tx_hash (msg_tx m),
               nt_block_id = int (msg_height m)\<rparr>)" for m r
    by (auto simp: handle_native_transfer_msg_def Let_def get_block_id_def
        split: decoded_msg.splits option.splits list.splits)
  then show ?thesis
    by (auto simp: handle_native_transfer_def map_res_eq_Inr mapM_res_Inr_iff)
qed

end
