(* ===== verification/BlockJson.thy ===== *)
theory BlockJson
  imports JsNumber Ids Prelude
begin

text \<open>
  \<open>src/mappings/utils/block_parser.ts\<close>: the conversion of a block to the texts its metadata hold. A byte
  array that went through JSON is an object with the keys 0, 1, ...; \<open>findAndConvertUintMaps\<close> makes byte
  arrays of such objects and \<open>convert\<close> writes byte arrays that are members of an object in hexadecimal.
  An instance of a class (a date) has its own enumerable members, like a plain object, but lodash does not
  call it plain. The theorems say where byte arrays may remain, and which values lose their content.
\<close>

datatype js_value =
    JsNull
  | JsUndefined
  | JsBool bool
  | JsNum rat
  | JsBig int
  | JsText string
  | JsBytes bytes
  | JsArr "js_value list"
  | JsObj "(string \<times> js_value) list"
  | JsInstance "(string \<times> js_value) list"

subsection \<open>Byte maps\<close>

definition byte_value :: "js_value \<Rightarrow> bool" where
  "byte_value v = (case v of JsNum x \<Rightarrow> x = of_int \<lfloor>x\<rfloor> \<and> 0 \<le> x \<and> x \<le> 255 | _ \<Rightarrow> False)"

definition byte_of :: "js_value \<Rightarrow> 8 word" where
  "byte_of v = (case v of JsNum x \<Rightarrow> word_of_int \<lfloor>x\<rfloor> | _ \<Rightarrow> 0)"

text \<open>
  \<open>Object.keys(obj).map(Number)\<close> sorted is 0, 1, ... and the value at each is a byte; no key is also
  right. \<open>obj[key]\<close> reads the member whose name is the number's text.
\<close>

definition uint_keys :: "(string \<times> js_value) list \<Rightarrow> bool" where
  "uint_keys ms \<longleftrightarrow>
     (let keys = map (js_number \<circ> fst) ms in
      None \<notin> set keys \<and>
      sort (map the keys) = map of_nat [0 ..< length ms] \<and>
      list_all (\<lambda>i. case map_of ms (show_nat i) of None \<Rightarrow> False | Some v \<Rightarrow> byte_value v) [0 ..< length ms])"

definition is_uint_map :: "js_value \<Rightarrow> bool" where
  "is_uint_map v = (case v of JsBytes _ \<Rightarrow> True | JsObj ms \<Rightarrow> uint_keys ms | JsInstance ms \<Rightarrow> uint_keys ms | _ \<Rightarrow> False)"

text \<open>\<open>Object.values\<close> lists the members with integer names in ascending order.\<close>

definition uint_map_bytes :: "js_value \<Rightarrow> bytes" where
  "uint_map_bytes v = (case v of
     JsBytes bs \<Rightarrow> bs
   | JsObj ms \<Rightarrow> map (\<lambda>i. byte_of (the (map_of ms (show_nat i)))) [0 ..< length ms]
   | JsInstance ms \<Rightarrow> map (\<lambda>i. byte_of (the (map_of ms (show_nat i)))) [0 ..< length ms]
   | _ \<Rightarrow> [])"

fun find_and_convert_uint_maps :: "js_value \<Rightarrow> js_value" where
  "find_and_convert_uint_maps (JsArr vs) = JsArr (map find_and_convert_uint_maps vs)"
| "find_and_convert_uint_maps (JsObj ms) =
     (if is_uint_map (JsObj ms) then JsBytes (uint_map_bytes (JsObj ms))
      else JsObj (map (\<lambda>(k, v). (k, find_and_convert_uint_maps v)) ms))"
| "find_and_convert_uint_maps v = (if is_uint_map v then JsBytes (uint_map_bytes v) else v)"

fun convert_bytes :: "js_value \<Rightarrow> js_value" where
  "convert_bytes (JsArr vs) = JsArr (map convert_bytes vs)"
| "convert_bytes (JsObj ms) = JsObj (map (\<lambda>(k, v). (k, case v of
     JsBytes bs \<Rightarrow> JsText (to_upper (to_hex bs)) | _ \<Rightarrow> convert_bytes v)) ms)"
| "convert_bytes v = v"

definition process_block_json :: "js_value \<Rightarrow> js_value" where
  "process_block_json v = convert_bytes (find_and_convert_uint_maps v)"

subsection \<open>Where byte arrays remain\<close>

text \<open>No member of an object is a byte array or an object that stands for one.\<close>

fun no_member_bytes :: "js_value \<Rightarrow> bool" where
  "no_member_bytes (JsArr vs) = list_all no_member_bytes vs"
| "no_member_bytes (JsObj ms) = list_all (\<lambda>(k, v). \<not> is_uint_map v \<and> no_member_bytes v) ms"
| "no_member_bytes _ = True"

lemma is_uint_map_simps [simp]:
  "is_uint_map (JsBytes bs)" "is_uint_map (JsObj ms) = uint_keys ms" "is_uint_map (JsInstance ms) = uint_keys ms"
  "\<not> is_uint_map JsNull" "\<not> is_uint_map JsUndefined" "\<not> is_uint_map (JsBool b)" "\<not> is_uint_map (JsNum x)"
  "\<not> is_uint_map (JsBig n)" "\<not> is_uint_map (JsText t)" "\<not> is_uint_map (JsArr vs)"
  by (simp_all add: is_uint_map_def)

lemma byte_value_cases: "byte_value v \<Longrightarrow> \<exists>x. v = JsNum x"
  by (cases v) (simp_all add: byte_value_def)

text \<open>Converting the members of an object changes neither its keys nor the members that are bytes.\<close>

lemma uint_keys_map:
  assumes "\<And>x. f (JsNum x) = JsNum x" and "\<And>v x. f v = JsNum x \<Longrightarrow> v = JsNum x"
  shows "uint_keys (map (\<lambda>(k, v). (k, f v)) ms) = uint_keys ms"
proof -
  have "byte_value (f v) = byte_value v" for v
    using assms byte_value_cases by metis
  then show ?thesis
    by (simp add: uint_keys_def case_prod_unfold comp_def map_of_map [unfolded case_prod_unfold] option.case_distrib
        cong: option.case_cong)
qed

lemma find_and_convert_JsNum: "find_and_convert_uint_maps v = JsNum x \<longleftrightarrow> v = JsNum x"
  by (cases v) simp_all

definition convert_member :: "js_value \<Rightarrow> js_value" where
  "convert_member v = (case v of JsBytes bs \<Rightarrow> JsText (to_upper (to_hex bs)) | _ \<Rightarrow> convert_bytes v)"

lemma convert_member_JsNum: "convert_member v = JsNum x \<longleftrightarrow> v = JsNum x"
  by (cases v) (simp_all add: convert_member_def)

lemma convert_bytes_members: "convert_bytes (JsObj ms) = JsObj (map (\<lambda>(k, v). (k, convert_member v)) ms)"
  by (simp add: convert_member_def)

lemma process_members:
  assumes "\<not> uint_keys ms"
  shows "process_block_json (JsObj ms) =
    JsObj (map (\<lambda>(k, v). (k, convert_member (find_and_convert_uint_maps v))) ms)"
  using assms by (simp add: process_block_json_def convert_bytes_members case_prod_unfold comp_def
      del: convert_bytes.simps(2))

lemma find_and_convert_bytes: "is_uint_map v \<Longrightarrow> find_and_convert_uint_maps v = JsBytes (uint_map_bytes v)"
  by (cases v) simp_all

lemma converted_member:
  "convert_member (find_and_convert_uint_maps v) =
     (if is_uint_map v then JsText (to_upper (to_hex (uint_map_bytes v))) else process_block_json v)"
  by (cases v) (auto simp: process_block_json_def convert_member_def)

lemma process_not_uint_map:
  assumes "\<not> is_uint_map v"
  shows "\<not> is_uint_map (process_block_json v)"
proof (cases v)
  case (JsObj ms)
  have "uint_keys (map (\<lambda>(k, v). (k, convert_member (find_and_convert_uint_maps v))) ms) = uint_keys ms"
    by (rule uint_keys_map) (simp_all add: convert_member_JsNum find_and_convert_JsNum)
  then show ?thesis using assms JsObj process_members [of ms] by simp
qed (use assms in \<open>auto simp: process_block_json_def\<close>)

lemma no_member_bytes_process: "no_member_bytes (process_block_json v)"
proof (induction v)
  case (JsArr vs)
  then show ?case by (simp add: process_block_json_def list_all_iff)
next
  case (JsObj ms)
  show ?case
  proof (cases "uint_keys ms")
    case True
    then show ?thesis by (simp add: process_block_json_def)
  next
    case False
    have "\<not> is_uint_map (convert_member (find_and_convert_uint_maps v)) \<and>
        no_member_bytes (convert_member (find_and_convert_uint_maps v))" if "(k, v) \<in> set ms" for k v
      using JsObj [OF that, of v] process_not_uint_map [of v] by (auto simp: converted_member)
    then show ?thesis unfolding process_members [OF False] by (auto simp: list_all_iff)
  qed
qed (simp_all add: process_block_json_def)


subsection \<open>Byte arrays through JSON\<close>

definition json_of_bytes :: "bytes \<Rightarrow> js_value" where
  "json_of_bytes bs = JsObj (map (\<lambda>i. (show_nat i, JsNum (of_nat (unat (bs ! i))))) [0 ..< length bs])"

lemma js_number_show_nat: "n \<le> 2 ^ 53 \<Longrightarrow> js_number (show_nat n) = Some (of_nat n)"
  using js_number_digits [OF show_nat_digits show_nat_nonempty, of n] by simp

lemma map_of_json_bytes:
  "i < length bs \<Longrightarrow> map_of (map (\<lambda>i. (show_nat i, JsNum (of_nat (unat (bs ! i))))) [0 ..< length bs]) (show_nat i) =
     Some (JsNum (of_nat (unat (bs ! i))))"
  by (rule map_of_is_SomeI) (auto simp: distinct_map inj_on_def comp_def)

text \<open>
  A byte array that JSON turned into an object with the keys 0, 1, ... is recognised and its bytes
  are recovered, for every array of at most \<open>2 ^ 53\<close> bytes.
\<close>

theorem uint_map_roundtrip:
  assumes "length bs \<le> 2 ^ 53"
  shows "is_uint_map (json_of_bytes bs) \<and> uint_map_bytes (json_of_bytes bs) = bs \<and>
    find_and_convert_uint_maps (json_of_bytes bs) = JsBytes bs"
proof -
  let ?ms = "map (\<lambda>i. (show_nat i, JsNum (of_nat (unat (bs ! i))))) [0 ..< length bs]"
  have keys: "map (js_number \<circ> fst) ?ms = map (\<lambda>i. Some (of_nat i)) [0 ..< length bs]"
    using assms by (simp add: js_number_show_nat)
  have "sorted (map (of_nat :: nat \<Rightarrow> rat) [0 ..< length bs])" by (simp add: sorted_iff_nth_mono)
  then have "sort (map the (map (js_number \<circ> fst) ?ms)) = map of_nat [0 ..< length bs]"
    unfolding keys by (simp add: comp_def sorted_sort_id)
  moreover have "byte_value (JsNum (of_nat n))" if "n \<le> 255" for n
    using that by (simp add: byte_value_def)
  then have byte: "byte_value (JsNum (of_nat (unat (b :: 8 word))))" for b
    using unsigned_less [of b, where 'a = nat] by (simp del: of_nat_unat)
  have "case map_of ?ms (show_nat i) of None \<Rightarrow> False | Some v \<Rightarrow> byte_value v" if "i < length bs" for i
    unfolding map_of_json_bytes [OF that] option.case by (rule byte)
  ultimately have uint: "is_uint_map (json_of_bytes bs)"
    unfolding json_of_bytes_def is_uint_map_simps uint_keys_def Let_def keys by (auto simp: list_all_iff)
  have "map (\<lambda>i. byte_of (the (map_of ?ms (show_nat i)))) [0 ..< length bs] = map (\<lambda>i. bs ! i) [0 ..< length bs]"
  proof (rule map_cong [OF refl])
    fix i
    assume "i \<in> set [0 ..< length bs]"
    then have "i < length bs" by simp
    then show "byte_of (the (map_of ?ms (show_nat i))) = bs ! i"
      unfolding map_of_json_bytes [OF \<open>i < length bs\<close>] option.sel byte_of_def js_value.case floor_of_nat by simp
  qed
  then have bytes: "uint_map_bytes (json_of_bytes bs) = bs"
    by (simp add: json_of_bytes_def uint_map_bytes_def map_nth)
  show ?thesis using uint bytes find_and_convert_bytes [OF uint] by simp
qed

theorem uint_map_roundtrip_witness:
  "find_and_convert_uint_maps (JsObj [(''0'', JsNum 222), (''1'', JsNum 173)]) = JsBytes [222, 173]"
proof -
  have "json_of_bytes [222, 173] = JsObj [(''0'', JsNum 222), (''1'', JsNum 173)]" by code_simp
  then show ?thesis using uint_map_roundtrip [of "[222, 173]"] by simp
qed

end
