(* ===== verification/Transactions.thy ===== *)
theory Transactions
  imports Validators Authz BlockJson Routing
begin

text \<open>
  \<open>src/mappings/primitives/transactions.ts\<close>, \<open>events.ts\<close>, \<open>messages.ts\<close> and \<open>block.ts\<close> with
  and \<open>utils/block_size.ts\<close>: the rows of a block that do not depend on the kind of
  message. A transaction comes with the parts of its decoded body and of its result that the code reads;
  a text has one character per byte, so that the size of its encoding is its length.
\<close>

subsection \<open>Transactions\<close>

record decoded_tx =
  dx_signer_infos :: "signer_info list"
  dx_messages :: "string list"
  dx_memo :: string
  dx_timeout_height :: int
  dx_fee :: "coin list option"

record tx_result =
  tq_gas_used :: int
  tq_gas_wanted :: int
  tq_log :: "string option"
  tq_codespace :: "string option"

record transaction_row =
  tn_id :: string
  tn_idx :: nat
  tn_block_id :: int
  tn_gas_used :: int
  tn_gas_wanted :: int
  tn_memo :: string
  tn_timeout_height :: "int option"
  tn_fees :: "coin list"
  tn_log :: string
  tn_status :: tx_status
  tn_signer_address :: "string option"
  tn_multisig :: "multisig_info option"
  tn_code :: nat
  tn_codespace :: "string option"
  tn_amount_of_messages :: "(string \<times> nat) list"
  tn_amount_sent :: "(string \<times> string) list"

definition missing_key :: "cosmos_tx \<Rightarrow> int \<Rightarrow> string" where
  "missing_key tx b = ''[handleTransaction] (block '' @ show_int b @ ''): hash='' @ tx_hash tx @ '' missing signerInfos public key''"

definition tx_signer_info :: "int \<Rightarrow> cosmos_tx \<Rightarrow> decoded_tx \<Rightarrow> (signer_info \<times> any_msg) res" where
  "tx_signer_info b tx d = (case dx_signer_infos d of
     [] \<Rightarrow> throw (missing_key tx b)
   | si # _ \<Rightarrow> map_res (Pair si) (require (missing_key tx b) (public_key si)))"

text \<open>The address of the first signer; a multisig signer has the account prefix, whatever the message.\<close>

definition tx_signer ::
  "crypto \<Rightarrow> ('pk, 'mpk) amino \<Rightarrow> signer_info \<Rightarrow> any_msg \<Rightarrow> string \<Rightarrow> (string \<times> multisig_info option) res" where
  "tx_signer c a si pk pre =
     bind_res (is_multi si) (\<lambda>multi.
       if multi then map_res (\<lambda>i. (from_address i, Some i)) (get_multisig_info a (Some si))
       else if any_type_url pk = Secp256k1 then
         map_res (\<lambda>addr. (addr, None)) (pub_key_to_address c Secp256k1 (any_value pk) (Some pre) False)
       else Inr (''Unsupported Signer: '' @ any_type_url pk, None))"

definition amount_of_messages :: "string list \<Rightarrow> (string \<times> nat) list" where
  "amount_of_messages urls =
     foldl (\<lambda>acc u. dict_set u (case map_of acc u of None \<Rightarrow> 1 | Some n \<Rightarrow> if n \<noteq> 0 then n + 1 else 1) acc) [] urls"

text \<open>The coins of a transfer; a message without amounts cannot be iterated.\<close>

definition sent_coins :: "cosmos_msg \<Rightarrow> coin list res" where
  "sent_coins m = (case decoded m of
     BankSend _ _ (Some cs) \<Rightarrow> Inr cs | _ \<Rightarrow> throw ''TypeError: amount is not iterable'')"

definition amount_sent :: "cosmos_msg list \<Rightarrow> (string \<times> int) list res" where
  "amount_sent ms =
     foldM_res (\<lambda>acc m. bind_res (sent_coins m) (\<lambda>cs.
         foldM_res (\<lambda>acc c. map_res (add_change acc (denom c)) (big_int (amount c))) acc cs))
       [] (filter (\<lambda>m. type_url m = ''/cosmos.bank.v1beta1.MsgSend'') ms)"

definition handle_transaction_one ::
  "crypto \<Rightarrow> ('pk, 'mpk) amino \<Rightarrow> int \<Rightarrow> cosmos_msg list \<Rightarrow> cosmos_tx \<times> decoded_tx \<times> tx_result \<Rightarrow> transaction_row res" where
  "handle_transaction_one c a b block_msgs = (\<lambda>(tx, d, r).
     bind_res (tx_signer_info b tx d) (\<lambda>(si, pk).
     bind_res (require ''TypeError: messages[0] is undefined'' (nth_opt (dx_messages d) 0)) (\<lambda>url.
     bind_res (tx_signer c a si pk (if is_msg_validator_related url then VALIDATOR_PREFIX else PREFIX)) (\<lambda>(addr, multi).
     bind_res (amount_sent (filter (\<lambda>m. tx_hash (msg_tx m) = tx_hash tx) block_msgs)) (\<lambda>sent.
       Inr \<lparr>tn_id = tx_hash tx, tn_idx = tx_idx tx, tn_block_id = b, tn_gas_used = tq_gas_used r,
            tn_gas_wanted = tq_gas_wanted r, tn_memo = dx_memo d, tn_timeout_height = Some (dx_timeout_height d),
            tn_fees = (case dx_fee d of None \<Rightarrow> [] | Some cs \<Rightarrow> cs), tn_log = text_or_empty (tq_log r),
            tn_status = get_tx_status tx, tn_signer_address = Some addr, tn_multisig = multi, tn_code = tx_code tx,
            tn_codespace = tq_codespace r, tn_amount_of_messages = amount_of_messages (dx_messages d),
            tn_amount_sent = map (\<lambda>(dn, n). (dn, show_int n)) sent\<rparr>)))))"

definition handle_transactions ::
  "crypto \<Rightarrow> ('pk, 'mpk) amino \<Rightarrow> int \<Rightarrow> cosmos_msg list \<Rightarrow> (cosmos_tx \<times> decoded_tx \<times> tx_result) list \<Rightarrow>
   transaction_row hrow list \<Rightarrow> transaction_row hrow list res" where
  "handle_transactions c a b block_msgs txs t =
     bind_res (mapM_res (handle_transaction_one c a b block_msgs) txs) (\<lambda>rows.
       bulk_rows tn_id (Some tn_block_id) b ByBlockId rows t)"

subsection \<open>Events and messages\<close>

record event_row =
  er_id :: string
  er_idx :: nat
  er_type :: string
  er_kind :: event_kind
  er_attributes :: "attribute list"
  er_transaction_id :: "string option"
  er_message_id :: "string option"
  er_block_id :: int

text \<open>Attribute values are texts, which \<open>sanitize\<close> leaves as they are.\<close>

definition handle_event :: "cosmos_event \<Rightarrow> event_row res" where
  "handle_event ev =
     bind_res (get_event_kind ev) (\<lambda>kind.
     bind_res (if is_event_of_message_kind ev then map_res (\<lambda>m. Some (message_id m))
           (require ''TypeError: msg is undefined'' (event_msg ev)) else Inr None) (\<lambda>msg_id.
       Inr \<lparr>er_id = get_event_id ev, er_idx = event_idx ev, er_type = ev_type (event ev), er_kind = kind,
            er_attributes = map (\<lambda>(k, v). (k, sanitize (\<lambda>_. []) (JStr v))) (attributes (event ev)),
            er_transaction_id = map_option tx_hash (event_tx ev), er_message_id = msg_id,
            er_block_id = get_block_id (event_height ev)\<rparr>))"

definition handle_events :: "int \<Rightarrow> cosmos_event list \<Rightarrow> event_row hrow list \<Rightarrow> event_row hrow list res" where
  "handle_events b evs t = bind_res (mapM_res handle_event evs) (\<lambda>rows. bulk_rows er_id (Some er_block_id) b ByBlockId rows t)"

text \<open>\<open>stringify\<close> writes a decoded message without its \<open>wasmByteCode\<close>.\<close>

definition handle_message :: "(decoded_msg \<Rightarrow> string) \<Rightarrow> cosmos_msg \<Rightarrow> message_row" where
  "handle_message stringify m = \<lparr>me_id = message_id m, me_idx = msg_idx m, me_type_url = type_url m,
     me_json = stringify (decoded m), me_transaction_id = tx_hash (msg_tx m), me_block_id = get_block_id (msg_height m)\<rparr>"

definition handle_messages ::
  "(decoded_msg \<Rightarrow> string) \<Rightarrow> int \<Rightarrow> cosmos_msg list \<Rightarrow> message_row hrow list \<Rightarrow> message_row hrow list res" where
  "handle_messages stringify b ms t = bulk_rows me_id (Some me_block_id) b ByBlockId (map (handle_message stringify) ms) t"

subsection \<open>The size of a block\<close>

record header_data =
  hd_hashes :: "bytes option list"
  hd_chain_id :: string
  hd_height :: int
  hd_time :: string
  hd_version :: "int \<times> int"
  hd_last_block :: "(bytes option \<times> (int \<times> bytes option) option) option"

record commit_signature =
  sg_flag :: int
  sg_validator :: "bytes option"
  sg_timestamp :: "string option"
  sg_signature :: "bytes option"

record commit_data =
  cm_height :: int
  cm_round :: int
  cm_hash :: "bytes option"
  cm_parts :: "int \<times> bytes option"
  cm_signatures :: "commit_signature list"

record tx_data =
  td_code :: int
  td_codespace :: string
  td_log :: string
  td_data :: "bytes option"
  td_events :: "event_body list"
  td_gas_wanted :: int
  td_gas_used :: int

record sized_block =
  sb_id :: string
  sb_header :: header_data
  sb_txs :: "tx_data list"
  sb_evidence :: "string list option"
  sb_last_commit :: "commit_data option"

definition get_uint8_array_size :: "bytes option \<Rightarrow> nat" where
  "get_uint8_array_size bs = (case bs of None \<Rightarrow> 0 | Some bs \<Rightarrow> length bs)"

text \<open>A typed array has the integer part of the length, and what is written past its end is lost.\<close>

definition hex_string_length :: "string \<Rightarrow> nat" where
  "hex_string_length hex = length hex div 2"

definition get_string_size :: "string \<Rightarrow> nat" where
  "get_string_size s = length (trim s)"

definition get_number_size :: "int \<Rightarrow> nat" where
  "get_number_size n = get_string_size (show_int n)"

text \<open>The nine hashes of a header are listed in the order of the code.\<close>

definition get_header_size :: "header_data \<Rightarrow> nat" where
  "get_header_size h =
     sum_list (map get_uint8_array_size (hd_hashes h)) + get_string_size (hd_chain_id h) +
     get_number_size (hd_height h) + get_string_size (hd_time h) +
     get_number_size (fst (hd_version h)) + get_number_size (snd (hd_version h)) +
     (case hd_last_block h of None \<Rightarrow> 0
      | Some (hash, parts) \<Rightarrow> get_uint8_array_size hash +
          (case parts of None \<Rightarrow> 0 | Some (n, phash) \<Rightarrow> get_number_size n + get_uint8_array_size phash))"

definition get_signature_size :: "commit_signature \<Rightarrow> nat" where
  "get_signature_size s = get_number_size (sg_flag s) + get_uint8_array_size (sg_validator s) +
     (case sg_timestamp s of None \<Rightarrow> 0 | Some t \<Rightarrow> get_string_size t) + get_uint8_array_size (sg_signature s)"

definition get_last_commit_size :: "commit_data \<Rightarrow> nat" where
  "get_last_commit_size c = get_number_size (cm_height c) + get_number_size (cm_round c) +
     get_uint8_array_size (cm_hash c) + get_number_size (fst (cm_parts c)) +
     get_uint8_array_size (snd (cm_parts c)) + foldl (\<lambda>n s. n + get_signature_size s) 0 (cm_signatures c)"

definition get_event_attribute_size :: "attribute \<Rightarrow> nat" where
  "get_event_attribute_size = (\<lambda>(k, v). get_string_size k + get_string_size v)"

definition get_event_size :: "event_body \<Rightarrow> nat" where
  "get_event_size e = get_string_size (ev_type e) + foldl (\<lambda>n a. n + get_event_attribute_size a) 0 (attributes e)"

definition get_tx_data_size :: "tx_data \<Rightarrow> nat" where
  "get_tx_data_size t = get_number_size (td_code t) +
     (if td_codespace t \<noteq> [] then get_string_size (td_codespace t) else 0) +
     (if td_log t \<noteq> [] then get_string_size (td_log t) else 0) + get_uint8_array_size (td_data t) +
     foldl (\<lambda>n e. n + get_event_size e) 0 (td_events t) +
     get_number_size (td_gas_wanted t) + get_number_size (td_gas_used t)"

text \<open>Evidence is given by its JSON text.\<close>

definition get_block_byte_size :: "sized_block \<Rightarrow> nat" where
  "get_block_byte_size blk = hex_string_length (sb_id blk) + get_header_size (sb_header blk) +
     foldl (\<lambda>n t. n + get_tx_data_size t) 0 (sb_txs blk) +
     (case sb_evidence blk of None \<Rightarrow> 0 | Some es \<Rightarrow> foldl (\<lambda>n e. n + get_string_size e) 0 es) +
     (case sb_last_commit blk of None \<Rightarrow> 0 | Some c \<Rightarrow> get_last_commit_size c)"

subsection \<open>The block\<close>

record block_metadata =
  bm_id :: int
  bm_block_id :: js_value
  bm_header :: js_value
  bm_last_commit :: js_value

record block_row =
  bl_id :: int
  bl_chain_id :: string
  bl_hash :: string
  bl_timestamp :: string
  bl_proposer :: js_value
  bl_size :: nat
  bl_metadata_id :: int
  bl_counters :: "(string \<times> int) list"

text \<open>Reading a member of \<open>undefined\<close> or \<open>null\<close> is a TypeError, of any other value without it \<open>undefined\<close>.\<close>

definition js_member :: "string \<Rightarrow> js_value \<Rightarrow> js_value res" where
  "js_member k v = (case v of
     JsObj ms \<Rightarrow> Inr (case map_of ms k of None \<Rightarrow> JsUndefined | Some x \<Rightarrow> x)
   | JsInstance ms \<Rightarrow> Inr (case map_of ms k of None \<Rightarrow> JsUndefined | Some x \<Rightarrow> x)
   | JsNull \<Rightarrow> throw ''TypeError: null'' | JsUndefined \<Rightarrow> throw ''TypeError: undefined'' | _ \<Rightarrow> Inr JsUndefined)"

definition block_counters :: "string list" where
  "block_counters = [''stakedSuppliers'', ''totalComputedUnits'', ''totalRelays'', ''failedTxs'', ''successfulTxs'',
     ''totalTxs'', ''stakedSuppliersTokens'', ''unstakingSuppliers'', ''unstakingSuppliersTokens'', ''timeToBlock'',
     ''unstakedSuppliers'', ''unstakedSuppliersTokens'', ''stakedApps'', ''stakedAppsTokens'', ''unstakingApps'',
     ''unstakingAppsTokens'', ''stakedGateways'', ''stakedGatewaysTokens'', ''unstakedGateways'',
     ''unstakedGatewaysTokens'', ''unstakedAppsTokens'', ''unstakedApps'', ''stakedValidatorsTokens'',
     ''stakedValidators'', ''unstakingValidatorsTokens'', ''unstakingValidators'']"

text \<open>The picked members of the block are \<open>blockId\<close>, \<open>block\<close> and \<open>header\<close>.\<close>

definition handle_block ::
  "int \<Rightarrow> string \<Rightarrow> string \<Rightarrow> (string \<times> js_value) list \<Rightarrow> sized_block \<Rightarrow> (block_row \<times> block_metadata) res" where
  "handle_block b chain time members sized =
     (let processed = process_block_json (JsObj (filter (\<lambda>(k, _). k \<in> set [''blockId'', ''block'', ''header'']) members)) in
      bind_res (js_member ''blockId'' processed) (\<lambda>block_id.
      bind_res (js_member ''header'' processed) (\<lambda>header.
      bind_res (bind_res (js_member ''block'' processed) (js_member ''lastCommit'')) (\<lambda>last_commit.
      bind_res (js_member ''proposerAddress'' header) (\<lambda>proposer.
        Inr (\<lparr>bl_id = b, bl_chain_id = chain, bl_hash = sb_id sized, bl_timestamp = time, bl_proposer = proposer,
              bl_size = get_block_byte_size sized, bl_metadata_id = b, bl_counters = map (\<lambda>k. (k, 0)) block_counters\<rparr>,
             \<lparr>bm_id = b, bm_block_id = block_id, bm_header = header, bm_last_commit = last_commit\<rparr>))))))"

subsection \<open>The counts of a transaction\<close>

definition count_of :: "(string \<times> nat) list \<Rightarrow> string \<Rightarrow> nat" where
  "count_of m u = (case map_of m u of None \<Rightarrow> 0 | Some n \<Rightarrow> n)"

lemma counted_messages:
  "dict_ok m \<Longrightarrow>
   let m' = foldl (\<lambda>acc u. dict_set u (case map_of acc u of None \<Rightarrow> 1 | Some n \<Rightarrow> if n \<noteq> 0 then n + 1 else 1) acc) m urls in
   dict_ok m' \<and> (\<forall>u. count_of m' u = count_of m u + count_list urls u)"
proof (induction urls arbitrary: m)
  case Nil
  then show ?case by simp
next
  case (Cons x urls)
  let ?m = "dict_set x (case map_of m x of None \<Rightarrow> 1 | Some n \<Rightarrow> if n \<noteq> 0 then n + 1 else 1) m"
  have "dict_ok ?m" using Cons.prems by simp
  moreover have "count_of ?m u = count_of m u + (if u = x then 1 else 0)" for u
    by (simp add: count_of_def split: option.split)
  ultimately show ?case using Cons.IH [of ?m] by (auto simp: Let_def)
qed

text \<open>The value of an amount that parses.\<close>

definition coin_value :: "coin \<Rightarrow> int" where
  "coin_value c = (case big_int (amount c) of Inr n \<Rightarrow> n | Inl _ \<Rightarrow> 0)"

definition denom_total :: "string \<Rightarrow> coin list \<Rightarrow> int" where
  "denom_total dn cs = sum_list (map coin_value (filter (\<lambda>c. denom c = dn) cs))"

lemma added_coins:
  "foldM_res (\<lambda>acc c. map_res (add_change acc (denom c)) (big_int (amount c))) m cs = Inr m' \<Longrightarrow> dict_ok m \<Longrightarrow>
     dict_ok m' \<and> (\<forall>dn. bal m' dn = bal m dn + denom_total dn cs)"
proof (induction cs arbitrary: m)
  case Nil
  then show ?case by (simp add: denom_total_def)
next
  case (Cons c cs)
  then obtain v where v: "big_int (amount c) = Inr v"
    and rest: "foldM_res (\<lambda>acc c. map_res (add_change acc (denom c)) (big_int (amount c))) (add_change m (denom c) v) cs = Inr m'"
    by (auto simp: res_eq_Inr)
  have "dict_ok (add_change m (denom c) v)" using Cons.prems(2) by simp
  from Cons.IH [OF rest this] v show ?case by (auto simp: denom_total_def coin_value_def)
qed

definition sends :: "cosmos_msg list \<Rightarrow> coin list" where
  "sends ms = concat (map (\<lambda>m. case decoded m of BankSend _ _ (Some cs) \<Rightarrow> cs | _ \<Rightarrow> [])
     (filter (\<lambda>m. type_url m = ''/cosmos.bank.v1beta1.MsgSend'') ms))"

lemma sent_coins_eq: "sent_coins m = Inr cs \<Longrightarrow> (case decoded m of BankSend _ _ (Some cs) \<Rightarrow> cs | _ \<Rightarrow> []) = cs"
  by (auto simp: sent_coins_def split: decoded_msg.splits option.splits)

lemma added_messages:
  "foldM_res (\<lambda>acc m. bind_res (sent_coins m) (\<lambda>cs.
       foldM_res (\<lambda>acc c. map_res (add_change acc (denom c)) (big_int (amount c))) acc cs)) d ms = Inr d' \<Longrightarrow> dict_ok d \<Longrightarrow>
     dict_ok d' \<and> (\<forall>dn. bal d' dn = bal d dn +
       denom_total dn (concat (map (\<lambda>m. case decoded m of BankSend _ _ (Some cs) \<Rightarrow> cs | _ \<Rightarrow> []) ms)))"
proof (induction ms arbitrary: d)
  case Nil
  then show ?case by (simp add: denom_total_def)
next
  case (Cons m ms)
  from Cons.prems(1) obtain cs d1 where cs: "sent_coins m = Inr cs"
    and d1: "foldM_res (\<lambda>acc c. map_res (add_change acc (denom c)) (big_int (amount c))) d cs = Inr d1"
    and rest: "foldM_res (\<lambda>acc m. bind_res (sent_coins m) (\<lambda>cs.
       foldM_res (\<lambda>acc c. map_res (add_change acc (denom c)) (big_int (amount c))) acc cs)) d1 ms = Inr d'"
    by (auto simp: bind_eq_Inr)
  from added_coins [OF d1 Cons.prems(2)] Cons.IH [OF rest] show ?case
    by (simp add: sent_coins_eq [OF cs] denom_total_def)
qed

text \<open>
  The row of a transaction counts its messages by type, each type once, with the counts adding up to
  the number of messages, and its transfers by denomination: each denomination once, with the sum of the
  amounts of that denomination over the transfers that belong to the transaction.
\<close>

theorem transaction_counts_spec:
  assumes "handle_transaction_one c a b msgs (tx, d, r) = Inr row"
  shows "distinct (map fst (tn_amount_of_messages row)) \<and>
    (\<forall>u. count_of (tn_amount_of_messages row) u = count_list (dx_messages d) u) \<and>
    (\<exists>sent. tn_amount_sent row = map (\<lambda>(dn, n). (dn, show_int n)) sent \<and> distinct (map fst sent) \<and>
       (\<forall>dn. bal sent dn = denom_total dn (sends (filter (\<lambda>m. tx_hash (msg_tx m) = tx_hash tx) msgs))))"
proof -
  obtain sent where sent: "amount_sent (filter (\<lambda>m. tx_hash (msg_tx m) = tx_hash tx) msgs) = Inr sent"
    and row: "tn_amount_of_messages row = amount_of_messages (dx_messages d)"
      "tn_amount_sent row = map (\<lambda>(dn, n). (dn, show_int n)) sent"
    using assms by (auto simp: handle_transaction_one_def bind_eq_Inr)
  have "dict_ok sent \<and> (\<forall>dn. bal sent dn = denom_total dn (sends (filter (\<lambda>m. tx_hash (msg_tx m) = tx_hash tx) msgs)))"
    using added_messages [OF sent [unfolded amount_sent_def]] by (simp add: sends_def bal_def)
  moreover have "dict_ok (amount_of_messages (dx_messages d)) \<and>
      (\<forall>u. count_of (amount_of_messages (dx_messages d)) u = count_list (dx_messages d) u)"
    using counted_messages [of "[]" "dx_messages d"] by (simp add: amount_of_messages_def count_of_def Let_def)
  ultimately show ?thesis using row by (auto simp: dict_ok_def)
qed

definition transfer_example :: "string \<Rightarrow> cosmos_msg" where
  "transfer_example amt = \<lparr>msg_idx = 0, type_url = ''/cosmos.bank.v1beta1.MsgSend'',
     decoded = BankSend ''a'' ''b'' (Some [\<lparr>amount = amt, denom = ''upokt''\<rparr>]), msg_tx = tx_example, msg_height = 7\<rparr>"

definition decoded_tx_example :: decoded_tx where
  "decoded_tx_example = \<lparr>dx_signer_infos = [\<lparr>public_key = Some \<lparr>any_type_url = Secp256k1, any_value = replicate 33 2\<rparr>,
      bitarray = None\<rparr>], dx_messages = [''/cosmos.bank.v1beta1.MsgSend'', ''/cosmos.bank.v1beta1.MsgSend''], dx_memo = [],
      dx_timeout_height = 0, dx_fee = None\<rparr>"

definition tx_result_example :: tx_result where
  "tx_result_example = \<lparr>tq_gas_used = 5, tq_gas_wanted = 6, tq_log = None, tq_codespace = None\<rparr>"

theorem transaction_counts_spec_witness:
  "case handle_transaction_one crypto_example amino_example 7 [transfer_example ''3'', transfer_example ''4'']
      (tx_example, decoded_tx_example, tx_result_example) of
     Inr row \<Rightarrow> tn_amount_sent row = [(''upokt'', ''7'')] \<and> tn_amount_of_messages row = [(''/cosmos.bank.v1beta1.MsgSend'', 2)] \<and>
       count_of (tn_amount_of_messages row) ''/cosmos.bank.v1beta1.MsgSend'' = count_list (dx_messages decoded_tx_example) ''/cosmos.bank.v1beta1.MsgSend''
   | Inl _ \<Rightarrow> False"
proof -
  let ?run = "handle_transaction_one crypto_example amino_example 7 [transfer_example ''3'', transfer_example ''4'']
      (tx_example, decoded_tx_example, tx_result_example)"
  have "case ?run of Inr row \<Rightarrow> tn_amount_sent row = [(''upokt'', ''7'')] \<and>
      tn_amount_of_messages row = [(''/cosmos.bank.v1beta1.MsgSend'', 2)] | Inl _ \<Rightarrow> False"
    by code_simp
  then obtain row where row: "?run = Inr row" "tn_amount_sent row = [(''upokt'', ''7'')]"
    "tn_amount_of_messages row = [(''/cosmos.bank.v1beta1.MsgSend'', 2)]"
    by (auto split: sum.splits)
  have "count_of (tn_amount_of_messages row) ''/cosmos.bank.v1beta1.MsgSend'' = count_list (dx_messages decoded_tx_example) ''/cosmos.bank.v1beta1.MsgSend''"
    using transaction_counts_spec [OF row(1)] by blast
  with row show ?thesis by simp
qed

end
