(* ===== verification/Reports.thy ===== *)
theory Reports
  imports Gateways SupplierIndex Validators Transactions Settlement
begin

text \<open>
  \<open>pocket/reports.ts\<close> and the functions of \<open>dbFunctions/reports\<close> and \<open>dbFunctions/domainRewards.ts\<close>:
  what the database computes of a block when it is indexed. The functions are SQL texts in the source; here
  each is a function on the rows of the tables it names. A \<open>SELECT\<close> on a table with versions sees all its
  rows, so that the conditions on \<open>_block_range\<close> are written out. \<open>UPDATE blocks .. WHERE id = b\<close> sets
  columns, here the entries of \<open>bl_counters\<close>; the groups of a \<open>GROUP BY\<close> come in the order of their
  first rows, which SQL leaves open. Timestamps are read as milliseconds, the parameter \<open>ms\<close>; the random
  uuids of the inserted rows, which nothing reads, have no counterpart.
\<close>

record report_source =
  src_claims :: "claim_settled hrow list"
  src_apps :: "application hrow list"
  src_app_services :: "app_service hrow list"
  src_gateways :: "gateway hrow list"
  src_suppliers :: "supplier hrow list"
  src_supplier_services :: "service_config hrow list"
  src_validators :: "validator hrow list"
  src_transactions :: "transaction_row hrow list"

type_synonym blocks = "block_row hrow list"

definition block_at :: "int \<Rightarrow> blocks \<Rightarrow> block_row option" where
  "block_at b t = find (\<lambda>r. bl_id r = b) (map row_data t)"

definition set_columns :: "int \<Rightarrow> (string \<times> int) list \<Rightarrow> blocks \<Rightarrow> blocks" where
  "set_columns b cols t = map (\<lambda>r. if bl_id (row_data r) = b
     then r\<lparr>row_data := (row_data r)\<lparr>bl_counters := fold (\<lambda>(k, v). dict_set k v) cols (bl_counters (row_data r))\<rparr>\<rparr> else r) t"

subsection \<open>Entities with a stake\<close>

text \<open>\<open>COUNT(*)\<close> and \<open>COALESCE(SUM(stake_amount), 0)\<close> of the rows with a status whose range holds the block.\<close>

definition stake_totals ::
  "('d \<Rightarrow> stake_status) \<Rightarrow> ('d \<Rightarrow> int) \<Rightarrow> stake_status \<Rightarrow> int \<Rightarrow> 'd hrow list \<Rightarrow> int \<times> int" where
  "stake_totals status stake s b t =
     (let rows = filter (\<lambda>r. status (row_data r) = s \<and> in_range b r) t
      in (int (length rows), sum_list (map (stake \<circ> row_data) rows)))"

text \<open>\<open>lower(_block_range)\<close>: an empty range has no bound, the SQL NULL that satisfies no comparison.\<close>

definition range_lower :: "'d hrow \<Rightarrow> int option" where
  "range_lower r = (if upper r = Some (lower r) then None else Some (lower r))"

text \<open>\<open>ORDER BY lower(_block_range) DESC LIMIT 1\<close> among the rows of an id that start before the block.\<close>

definition latest_of :: "'d hrow list \<Rightarrow> 'd hrow option" where
  "latest_of rs = foldl (\<lambda>best r. case best of None \<Rightarrow> Some r | Some s \<Rightarrow> if lower s < lower r then Some r else best) None rs"

definition previous_version :: "int \<Rightarrow> string \<Rightarrow> 'd hrow list \<Rightarrow> 'd option" where
  "previous_version b i t = map_option row_data
     (latest_of (filter (\<lambda>p. row_id p = i \<and> (case range_lower p of None \<Rightarrow> False | Some l \<Rightarrow> l < b)) t))"

definition unstaked_totals ::
  "('d \<Rightarrow> stake_status) \<Rightarrow> ('d \<Rightarrow> int) \<Rightarrow> int \<Rightarrow> 'd hrow list \<Rightarrow> int \<times> int" where
  "unstaked_totals status stake b t =
     (let rows = filter (\<lambda>r. status (row_data r) = Unstaked \<and> range_lower r = Some b) t
      in (int (length rows),
          sum_list (map (\<lambda>r. case previous_version b (row_id r) t of None \<Rightarrow> 0 | Some d \<Rightarrow> stake d) rows)))"

definition set_totals :: "int \<Rightarrow> string \<Rightarrow> string \<Rightarrow> int \<times> int \<Rightarrow> blocks \<Rightarrow> blocks" where
  "set_totals b count_col sum_col = (\<lambda>(n, tokens). set_columns b [(count_col, n), (sum_col, tokens)])"

definition update_block_staked_suppliers :: "int \<Rightarrow> report_source \<Rightarrow> blocks \<Rightarrow> blocks" where
  "update_block_staked_suppliers b src = set_totals b ''stakedSuppliers'' ''stakedSuppliersTokens''
     (stake_totals su_status su_stake_amount Staked b (src_suppliers src))"

definition update_block_unstaking_suppliers :: "int \<Rightarrow> report_source \<Rightarrow> blocks \<Rightarrow> blocks" where
  "update_block_unstaking_suppliers b src = set_totals b ''unstakingSuppliers'' ''unstakingSuppliersTokens''
     (stake_totals su_status su_stake_amount Unstaking b (src_suppliers src))"

definition update_block_unstaked_suppliers :: "int \<Rightarrow> report_source \<Rightarrow> blocks \<Rightarrow> blocks" where
  "update_block_unstaked_suppliers b src = set_totals b ''unstakedSuppliers'' ''unstakedSuppliersTokens''
     (unstaked_totals su_status su_stake_amount b (src_suppliers src))"

definition update_block_staked_apps :: "int \<Rightarrow> report_source \<Rightarrow> blocks \<Rightarrow> blocks" where
  "update_block_staked_apps b src = set_totals b ''stakedApps'' ''stakedAppsTokens''
     (stake_totals app_stake_status app_stake_amount Staked b (src_apps src))"

definition update_block_unstaking_apps :: "int \<Rightarrow> report_source \<Rightarrow> blocks \<Rightarrow> blocks" where
  "update_block_unstaking_apps b src = set_totals b ''unstakingApps'' ''unstakingAppsTokens''
     (stake_totals app_stake_status app_stake_amount Unstaking b (src_apps src))"

definition update_block_unstaked_apps :: "int \<Rightarrow> report_source \<Rightarrow> blocks \<Rightarrow> blocks" where
  "update_block_unstaked_apps b src = set_totals b ''unstakedApps'' ''unstakedAppsTokens''
     (unstaked_totals app_stake_status app_stake_amount b (src_apps src))"

definition update_block_staked_gateways :: "int \<Rightarrow> report_source \<Rightarrow> blocks \<Rightarrow> blocks" where
  "update_block_staked_gateways b src = set_totals b ''stakedGateways'' ''stakedGatewaysTokens''
     (stake_totals gw_stake_status gw_stake_amount Staked b (src_gateways src))"

definition update_block_unstaked_gateways :: "int \<Rightarrow> report_source \<Rightarrow> blocks \<Rightarrow> blocks" where
  "update_block_unstaked_gateways b src = set_totals b ''unstakedGateways'' ''unstakedGatewaysTokens''
     (unstaked_totals gw_stake_status gw_stake_amount b (src_gateways src))"

definition update_block_staked_validators :: "int \<Rightarrow> report_source \<Rightarrow> blocks \<Rightarrow> blocks" where
  "update_block_staked_validators b src = set_totals b ''stakedValidators'' ''stakedValidatorsTokens''
     (stake_totals va_status va_stake_amount Staked b (src_validators src))"

definition update_block_unstaking_validators :: "int \<Rightarrow> report_source \<Rightarrow> blocks \<Rightarrow> blocks" where
  "update_block_unstaking_validators b src = set_totals b ''unstakingValidators'' ''unstakingValidatorsTokens''
     (stake_totals va_status va_stake_amount Unstaking b (src_validators src))"

subsection \<open>Relays, transactions and the time of the block\<close>

definition update_block_relays :: "int \<Rightarrow> report_source \<Rightarrow> blocks \<Rightarrow> blocks" where
  "update_block_relays b src =
     (let cs = filter (\<lambda>c. cs_block_id c = b) (map row_data (src_claims src)); total = (\<lambda>f. sum_list (map f cs))
      in set_columns b [(''totalRelays'', total cs_num_relays), (''totalEstimatedRelays'', total cs_num_estimated_relays),
        (''totalComputedUnits'', total cs_claimed_units), (''totalEstimatedComputedUnits'', total cs_estimated_units)])"

definition update_block_transactions :: "int \<Rightarrow> report_source \<Rightarrow> blocks \<Rightarrow> blocks" where
  "update_block_transactions b src =
     (let txs = filter (\<lambda>x. tn_block_id x = b) (map row_data (src_transactions src)) in
      set_columns b [(''successfulTxs'', sum_list (map (\<lambda>x. if tn_code x = 0 then 1 else 0) txs)),
        (''failedTxs'', sum_list (map (\<lambda>x. if tn_code x \<noteq> 0 then 1 else 0) txs)), (''totalTxs'', int (length txs))])"

definition update_block_took :: "(string \<Rightarrow> int) \<Rightarrow> int \<Rightarrow> blocks \<Rightarrow> blocks" where
  "update_block_took ms b t = (case block_at b t of None \<Rightarrow> t
     | Some cur \<Rightarrow> set_columns b [(''timeToBlock'', case block_at (b - 1) t of None \<Rightarrow> 0
         | Some prev \<Rightarrow> ms (bl_timestamp cur) - ms (bl_timestamp prev))] t)"

definition update_block_reports :: "(string \<Rightarrow> int) \<Rightarrow> int \<Rightarrow> report_source \<Rightarrow> blocks \<Rightarrow> blocks" where
  "update_block_reports ms b src t = fold (\<lambda>f. f)
     [update_block_relays b src, update_block_staked_apps b src, update_block_staked_gateways b src,
      update_block_staked_suppliers b src, update_block_staked_validators b src, update_block_took ms b,
      update_block_transactions b src, update_block_unstaked_apps b src, update_block_unstaked_gateways b src,
      update_block_unstaked_suppliers b src, update_block_unstaking_apps b src, update_block_unstaking_suppliers b src,
      update_block_unstaking_validators b src] t"

text \<open>\<open>FOR block_id IN start_block..end_block LOOP\<close>.\<close>

definition update_block_reports_range :: "(string \<Rightarrow> int) \<Rightarrow> int \<Rightarrow> int \<Rightarrow> report_source \<Rightarrow> blocks \<Rightarrow> blocks" where
  "update_block_reports_range ms start end src t = fold (\<lambda>b. update_block_reports ms b src) [start..end] t"

subsection \<open>Stakes and relays by service\<close>

record service_stake =
  st_block :: int
  st_service :: string
  st_amount :: int
  st_tokens :: int

text \<open>The \<open>GROUP BY\<close>: the keys in the order of their first rows, with the rows of each.\<close>

definition group_rows :: "('k \<times> 'v) list \<Rightarrow> ('k \<times> 'v list) list" where
  "group_rows xs = map (\<lambda>k. (k, map snd (filter (\<lambda>(j, _). j = k) xs))) (js_set (map fst xs))"

definition service_stakes :: "int \<Rightarrow> (string \<times> int) list \<Rightarrow> service_stake list \<Rightarrow> service_stake list" where
  "service_stakes b joined t = filter (\<lambda>r. st_block r \<noteq> b) t @
     map (\<lambda>(s, stakes). \<lparr>st_block = b, st_service = s, st_amount = int (length stakes), st_tokens = sum_list stakes\<rparr>)
       (group_rows joined)"

definition upsert_staked_suppliers_by_block_and_services ::
  "int \<Rightarrow> report_source \<Rightarrow> service_stake list \<Rightarrow> service_stake list" where
  "upsert_staked_suppliers_by_block_and_services b src = service_stakes b
     [(sc_service (row_data c), su_stake_amount (row_data s)).
       s \<leftarrow> filter (\<lambda>s. su_status (row_data s) = Staked \<and> in_range b s) (src_suppliers src),
       c \<leftarrow> filter (\<lambda>c. sc_supplier (row_data c) = su_id (row_data s) \<and> in_range b c) (src_supplier_services src)]"

definition upsert_staked_apps_by_block_and_services ::
  "int \<Rightarrow> report_source \<Rightarrow> service_stake list \<Rightarrow> service_stake list" where
  "upsert_staked_apps_by_block_and_services b src = service_stakes b
     [(as_service_id (row_data c), app_stake_amount (row_data a)).
       a \<leftarrow> filter (\<lambda>a. app_stake_status (row_data a) = Staked \<and> in_range b a) (src_apps src),
       c \<leftarrow> filter (\<lambda>c. as_application_id (row_data c) = app_id (row_data a) \<and> in_range b c) (src_app_services src)]"

record service_relays =
  sr_block :: int
  sr_service :: string
  sr_amount :: int
  sr_relays :: int
  sr_estimated_relays :: int
  sr_units :: int
  sr_estimated_units :: int
  sr_claimed :: int

definition upsert_relays_by_block_and_services ::
  "int \<Rightarrow> report_source \<Rightarrow> service_relays list \<Rightarrow> service_relays list" where
  "upsert_relays_by_block_and_services b src t = filter (\<lambda>r. sr_block r \<noteq> b) t @
     map (\<lambda>(s, cs). \<lparr>sr_block = b, sr_service = s, sr_amount = int (length cs),
         sr_relays = sum_list (map cs_num_relays cs), sr_estimated_relays = sum_list (map cs_num_estimated_relays cs),
         sr_units = sum_list (map cs_claimed_units cs), sr_estimated_units = sum_list (map cs_estimated_units cs),
         sr_claimed = sum_list (map cs_claimed_amount cs)\<rparr>)
       (group_rows (map (\<lambda>c. (cs_service c, c)) (filter (\<lambda>c. cs_block_id c = b) (map row_data (src_claims src)))))"

subsection \<open>Rewards of a day by domain and service\<close>

definition day_of :: "int \<Rightarrow> int" where
  "day_of ms = ms div 86400000"

record domain_rewards =
  dr_domain :: string
  dr_service :: string
  dr_day :: int
  dr_relays :: int
  dr_estimated_relays :: int
  dr_units :: int
  dr_estimated_units :: int
  dr_gross :: int
  dr_suppliers :: int

text \<open>\<open>_block_range && int8range(lo, hi, '[]')\<close>; an empty range overlaps with nothing.\<close>

definition overlaps :: "int \<Rightarrow> int \<Rightarrow> 'd hrow \<Rightarrow> bool" where
  "overlaps lo hi r \<longleftrightarrow> range_lower r \<noteq> None \<and> lower r \<le> hi \<and> (case upper r of None \<Rightarrow> True | Some u \<Rightarrow> lo < u)"

text \<open>The configurations of the claim's supplier and service at the block of the claim.\<close>

definition claim_configs :: "claim_settled \<Rightarrow> report_source \<Rightarrow> service_config hrow list" where
  "claim_configs e src = filter (\<lambda>c. cs_supplier e = Some (sc_supplier (row_data c)) \<and>
     sc_service (row_data c) = cs_service e \<and> in_range (cs_block_id e) c) (src_supplier_services src)"

definition domain_claims :: "(block_row \<Rightarrow> bool) \<Rightarrow> blocks \<Rightarrow> report_source \<Rightarrow> ((string \<times> string) \<times> claim_settled) list" where
  "domain_claims today t src =
     [((d, cs_service e), e).
       e \<leftarrow> map row_data (src_claims src),
       blk \<leftarrow> filter (\<lambda>blk. bl_id blk = cs_block_id e \<and> today blk) (map row_data t),
       c \<leftarrow> claim_configs e src,
       d \<leftarrow> sc_domains (row_data c)]"

definition domain_staked :: "int \<Rightarrow> int \<Rightarrow> report_source \<Rightarrow> ((string \<times> string) \<times> string) list" where
  "domain_staked lo hi src =
     [((d, sc_service (row_data c)), sc_supplier (row_data c)).
       c \<leftarrow> filter (overlaps lo hi) (src_supplier_services src),
       s \<leftarrow> filter (\<lambda>s. su_id (row_data s) = sc_supplier (row_data c) \<and> overlaps lo hi s \<and> su_status (row_data s) = Staked)
         (src_suppliers src),
       d \<leftarrow> sc_domains (row_data c)]"

definition refresh_domain_service_daily_rewards ::
  "(string \<Rightarrow> int) \<Rightarrow> int \<Rightarrow> report_source \<Rightarrow> blocks \<Rightarrow> domain_rewards list \<Rightarrow> domain_rewards list" where
  "refresh_domain_service_daily_rewards ms b src t rewards =
     (case block_at b t of None \<Rightarrow> rewards | Some blk \<Rightarrow>
        let day = day_of (ms (bl_timestamp blk));
            today = (\<lambda>r. day_of (ms (bl_timestamp r)) = day);
            ids = map bl_id (filter today (map row_data t));
            staked = group_rows (domain_staked (Min (set ids)) (Max (set ids)) src)
        in filter (\<lambda>r. dr_day r \<noteq> day) rewards @
           map (\<lambda>((d, s), es). \<lparr>dr_domain = d, dr_service = s, dr_day = day,
               dr_relays = sum_list (map cs_num_relays es), dr_estimated_relays = sum_list (map cs_num_estimated_relays es),
               dr_units = sum_list (map cs_claimed_units es), dr_estimated_units = sum_list (map cs_estimated_units es),
               dr_gross = sum_list (map cs_claimed_amount es),
               dr_suppliers = (case map_of staked (d, s) of None \<Rightarrow> 0 | Some xs \<Rightarrow> int (length (js_set xs)))\<rparr>)
             (group_rows (domain_claims today t src)))"

subsection \<open>The reports of a block\<close>

record report_db =
  staked_suppliers_rows :: "service_stake list"
  staked_apps_rows :: "service_stake list"
  relay_rows :: "service_relays list"
  domain_reward_rows :: "domain_rewards list"

definition handle_add_block_reports ::
  "(string \<Rightarrow> int) \<Rightarrow> int \<Rightarrow> cosmos_block \<Rightarrow> report_source \<Rightarrow> blocks \<times> report_db \<Rightarrow> blocks \<times> report_db" where
  "handle_add_block_reports ms b blk src = (\<lambda>(t, db).
     let t' = update_block_reports ms b src t;
         settled = list_ex (\<lambda>e. ev_type (event e) = ''pocket.tokenomics.EventClaimSettled'') (block_events blk) in
     (t', db\<lparr>staked_suppliers_rows := upsert_staked_suppliers_by_block_and_services b src (staked_suppliers_rows db),
        staked_apps_rows := upsert_staked_apps_by_block_and_services b src (staked_apps_rows db),
        relay_rows := upsert_relays_by_block_and_services b src (relay_rows db),
        domain_reward_rows := (if settled then refresh_domain_service_daily_rewards ms b src t' (domain_reward_rows db)
          else domain_reward_rows db)\<rparr>))"

subsection \<open>The columns of a block\<close>

definition column :: "string \<Rightarrow> int \<Rightarrow> blocks \<Rightarrow> int option" where
  "column k b t = Option.bind (block_at b t) (\<lambda>r. map_of (bl_counters r) k)"

lemma block_at_set_columns: "block_at c (set_columns b cols t) =
  (if c = b then map_option (\<lambda>r. r\<lparr>bl_counters := fold (\<lambda>(k, v). dict_set k v) cols (bl_counters r)\<rparr>) (block_at b t)
   else block_at c t)"
  by (induction t) (auto simp: block_at_def set_columns_def)

lemma map_of_set_all: "map_of (fold (\<lambda>(k, v). dict_set k v) cols m) k =
  (case map_of (rev cols) k of None \<Rightarrow> map_of m k | Some v \<Rightarrow> Some v)"
  by (induction cols arbitrary: m) (auto simp: map_add_def split: option.split)

lemma column_set_columns:
  assumes "block_at b t \<noteq> None"
  shows "column k b (set_columns b cols t) = (case map_of (rev cols) k of None \<Rightarrow> column k b t | Some v \<Rightarrow> Some v)"
  using assms by (auto simp: column_def block_at_set_columns map_of_set_all split: option.split)

lemma column_set_totals:
  assumes "block_at b t \<noteq> None" and "n \<noteq> m"
  shows "column k b (set_totals b n m x t) = (if k = n then Some (fst x) else if k = m then Some (snd x) else column k b t)"
  using assms by (cases x) (simp add: set_totals_def column_set_columns)

lemma block_at_set_totals [simp]: "block_at c (set_totals b n m x t) = None \<longleftrightarrow> block_at c t = None"
  "c \<noteq> b \<Longrightarrow> block_at c (set_totals b n m x t) = block_at c t"
  by (cases x; simp add: set_totals_def block_at_set_columns)+

lemma timestamp_set_totals [simp]:
  "map_option bl_timestamp (block_at c (set_totals b n m x t)) = map_option bl_timestamp (block_at c t)"
  by (cases x) (auto simp: set_totals_def block_at_set_columns option.map_comp comp_def)

text \<open>The number and the stakes of the entities with a status.\<close>

definition count_with :: "('d \<Rightarrow> stake_status) \<Rightarrow> stake_status \<Rightarrow> 'd tbl \<Rightarrow> int" where
  "count_with status s m = int (card {i. \<exists>d. m i = Some d \<and> status d = s})"

definition stakes_with :: "('d \<Rightarrow> stake_status) \<Rightarrow> ('d \<Rightarrow> int) \<Rightarrow> stake_status \<Rightarrow> 'd tbl \<Rightarrow> int" where
  "stakes_with status stake s m = (\<Sum>i | \<exists>d. m i = Some d \<and> status d = s. stake (the (m i)))"

lemma stake_totals_live:
  assumes ok: "hist_ok ident b t"
  shows "stake_totals status stake s b t = (count_with status s (live_map t), stakes_with status stake s (live_map t))"
proof -
  define rows where "rows = filter (\<lambda>r. status (row_data r) = s) (filter live t)"
  have rows: "filter (\<lambda>r. status (row_data r) = s \<and> in_range b r) t = rows"
    unfolding rows_def filter_filter using hist_ok_in_range [OF ok] by (auto intro!: filter_cong)
  have dist: "distinct (map row_id rows)"
    unfolding rows_def by (rule distinct_map_filter) (use ok in \<open>simp add: hist_ok_def\<close>)
  have mem: "live_map t i = Some d \<and> status d = s \<longleftrightarrow> (\<exists>r \<in> set rows. row_id r = i \<and> row_data r = d)" for i d
    by (auto simp: live_map_eq [OF ok] rows_def)
  have ids: "{i. \<exists>d. live_map t i = Some d \<and> status d = s} = row_id ` set rows" unfolding mem by auto
  have at: "live_map t (row_id r) = Some (row_data r)" if "r \<in> set rows" for r using mem that by blast
  have "sum_list (map (stake \<circ> row_data) rows) = sum_list (map (\<lambda>i. stake (the (live_map t i))) (map row_id rows))"
    by (auto simp: at comp_def intro!: arg_cong [where f = sum_list])
  also have "\<dots> = stakes_with status stake s (live_map t)"
    unfolding stakes_with_def ids using sum_list_distinct_conv_sum_set [OF dist] by simp
  finally have "sum_list (map (stake \<circ> row_data) rows) = stakes_with status stake s (live_map t)" .
  moreover have "int (length rows) = count_with status s (live_map t)"
    using distinct_card [OF dist] by (simp add: count_with_def ids)
  ultimately show ?thesis by (simp add: stake_totals_def rows)
qed

lemma block_at_set_columns_None [simp]: "block_at c (set_columns b cols t) = None \<longleftrightarrow> block_at c t = None"
  by (simp add: block_at_set_columns)

lemma timestamp_set_columns [simp]:
  "map_option bl_timestamp (block_at c (set_columns b cols t)) = map_option bl_timestamp (block_at c t)"
  by (simp add: block_at_set_columns option.map_comp comp_def)

lemma block_at_steps:
  "block_at c (update_block_relays b src t) = None \<longleftrightarrow> block_at c t = None"
  "block_at c (update_block_transactions b src t) = None \<longleftrightarrow> block_at c t = None"
  "block_at c (update_block_took ms b t) = None \<longleftrightarrow> block_at c t = None"
  "c \<noteq> b \<Longrightarrow> block_at c (update_block_relays b src t) = block_at c t"
  "c \<noteq> b \<Longrightarrow> block_at c (update_block_transactions b src t) = block_at c t"
  "c \<noteq> b \<Longrightarrow> block_at c (update_block_took ms b t) = block_at c t"
  by (simp_all add: update_block_relays_def update_block_transactions_def update_block_took_def Let_def block_at_set_columns
      split: option.split)

lemma column_relays:
  "block_at b t \<noteq> None \<Longrightarrow>
     k \<notin> {''totalRelays'', ''totalEstimatedRelays'', ''totalComputedUnits'', ''totalEstimatedComputedUnits''} \<Longrightarrow>
     column k b (update_block_relays b src t) = column k b t"
  by (simp add: update_block_relays_def column_set_columns Let_def)

lemma column_transactions:
  assumes "block_at b t \<noteq> None"
  shows "\<exists>n m. column ''successfulTxs'' b (update_block_transactions b src t) = Some n \<and>
      column ''failedTxs'' b (update_block_transactions b src t) = Some m \<and>
      column ''totalTxs'' b (update_block_transactions b src t) = Some (n + m)"
    and "k \<notin> {''successfulTxs'', ''failedTxs'', ''totalTxs''} \<Longrightarrow>
      column k b (update_block_transactions b src t) = column k b t"
proof -
  have "(\<Sum>x \<leftarrow> xs. if tn_code x = 0 then 1 else 0) + (\<Sum>x \<leftarrow> xs. if tn_code x \<noteq> 0 then 1 else 0) = int (length xs)"
    for xs :: "transaction_row list" by (induction xs) simp_all
  then show "\<exists>n m. column ''successfulTxs'' b (update_block_transactions b src t) = Some n \<and>
      column ''failedTxs'' b (update_block_transactions b src t) = Some m \<and>
      column ''totalTxs'' b (update_block_transactions b src t) = Some (n + m)"
    by (simp add: update_block_transactions_def column_set_columns assms Let_def)
qed (simp add: update_block_transactions_def column_set_columns assms Let_def)

lemma column_took:
  assumes "map_option bl_timestamp (block_at b t) = Some now"
  shows "column ''timeToBlock'' b (update_block_took ms b t) = Some (case map_option bl_timestamp (block_at (b - 1) t) of
      None \<Rightarrow> 0 | Some before \<Rightarrow> ms now - ms before)"
    and "k \<noteq> ''timeToBlock'' \<Longrightarrow> column k b (update_block_took ms b t) = column k b t"
  using assms by (auto simp: update_block_took_def column_set_columns split: option.split)

lemmas stake_steps = update_block_staked_apps_def update_block_staked_gateways_def update_block_staked_suppliers_def
  update_block_staked_validators_def update_block_unstaked_apps_def update_block_unstaked_gateways_def
  update_block_unstaked_suppliers_def update_block_unstaking_apps_def update_block_unstaking_suppliers_def
  update_block_unstaking_validators_def

text \<open>The columns as the statements set them, each once.\<close>

lemma update_block_reports_columns:
  assumes "block_at b t = Some blk" and "t' = update_block_reports ms b src t"
  shows "(\<forall>(k, v) \<in> set
       [(''stakedApps'', fst (stake_totals app_stake_status app_stake_amount Staked b (src_apps src))),
        (''stakedAppsTokens'', snd (stake_totals app_stake_status app_stake_amount Staked b (src_apps src))),
        (''unstakingApps'', fst (stake_totals app_stake_status app_stake_amount Unstaking b (src_apps src))),
        (''unstakingAppsTokens'', snd (stake_totals app_stake_status app_stake_amount Unstaking b (src_apps src))),
        (''stakedGateways'', fst (stake_totals gw_stake_status gw_stake_amount Staked b (src_gateways src))),
        (''stakedGatewaysTokens'', snd (stake_totals gw_stake_status gw_stake_amount Staked b (src_gateways src))),
        (''stakedSuppliers'', fst (stake_totals su_status su_stake_amount Staked b (src_suppliers src))),
        (''stakedSuppliersTokens'', snd (stake_totals su_status su_stake_amount Staked b (src_suppliers src))),
        (''unstakingSuppliers'', fst (stake_totals su_status su_stake_amount Unstaking b (src_suppliers src))),
        (''unstakingSuppliersTokens'', snd (stake_totals su_status su_stake_amount Unstaking b (src_suppliers src))),
        (''stakedValidators'', fst (stake_totals va_status va_stake_amount Staked b (src_validators src))),
        (''stakedValidatorsTokens'', snd (stake_totals va_status va_stake_amount Staked b (src_validators src))),
        (''unstakingValidators'', fst (stake_totals va_status va_stake_amount Unstaking b (src_validators src))),
        (''unstakingValidatorsTokens'', snd (stake_totals va_status va_stake_amount Unstaking b (src_validators src))),
        (''timeToBlock'', case block_at (b - 1) t of None \<Rightarrow> 0 | Some prev \<Rightarrow> ms (bl_timestamp blk) - ms (bl_timestamp prev))].
      column k b t' = Some v) \<and>
    (\<exists>n m. column ''successfulTxs'' b t' = Some n \<and> column ''failedTxs'' b t' = Some m \<and> column ''totalTxs'' b t' = Some (n + m)) \<and>
    (\<forall>c. c \<noteq> b \<longrightarrow> block_at c t' = block_at c t)"
    (is "(\<forall>(k, v) \<in> set ?cols. _ k v) \<and> _")
proof (intro conjI)
  let ?t5 = "fold (\<lambda>f. f) [update_block_relays b src, update_block_staked_apps b src, update_block_staked_gateways b src,
      update_block_staked_suppliers b src, update_block_staked_validators b src] t"
  define t5 where "t5 = ?t5"
  define t7 where "t7 = update_block_transactions b src (update_block_took ms b t5)"
  have t': "t' = fold (\<lambda>f. f) [update_block_unstaked_apps b src, update_block_unstaked_gateways b src,
      update_block_unstaked_suppliers b src, update_block_unstaking_apps b src, update_block_unstaking_suppliers b src,
      update_block_unstaking_validators b src] t7"
    by (simp add: assms(2) update_block_reports_def t5_def t7_def)
  show "\<forall>c. c \<noteq> b \<longrightarrow> block_at c t' = block_at c t"
    by (simp add: t' t7_def t5_def stake_steps block_at_steps)
  have here: "block_at b t \<noteq> None" "block_at b t5 \<noteq> None" "block_at b t7 \<noteq> None"
    by (simp_all add: t5_def t7_def stake_steps block_at_steps assms(1))
  show "\<exists>n m. column ''successfulTxs'' b t' = Some n \<and> column ''failedTxs'' b t' = Some m \<and> column ''totalTxs'' b t' = Some (n + m)"
    using column_transactions(1) [of b "update_block_took ms b t5" src] here
    by (simp add: t' stake_steps column_set_totals block_at_steps t7_def)
  have time: "map_option bl_timestamp (block_at b t5) = Some (bl_timestamp blk)"
    "map_option bl_timestamp (block_at (b - 1) t5) = map_option bl_timestamp (block_at (b - 1) t)"
    by (simp_all add: t5_def stake_steps update_block_relays_def Let_def assms(1))
  have stakes: "column k b t7 = column k b t5"
    if "k \<notin> {''timeToBlock'', ''successfulTxs'', ''failedTxs'', ''totalTxs''}" for k
    unfolding t7_def using that here column_took(2) [OF time(1)] by (subst column_transactions(2)) (auto simp: block_at_steps)
  have took: "column ''timeToBlock'' b t7 = Some (case block_at (b - 1) t of None \<Rightarrow> 0
      | Some prev \<Rightarrow> ms (bl_timestamp blk) - ms (bl_timestamp prev))"
    unfolding t7_def using here column_took(1) [OF time(1), of ms] time(2)
    by (subst column_transactions(2)) (auto simp: block_at_steps split: option.split)
  show "\<forall>(k, v) \<in> set ?cols. column k b t' = Some v"
    using here took
    by (simp add: t' stake_steps column_set_totals stakes) (simp add: t5_def stake_steps column_set_totals block_at_steps here)
qed


subsection \<open>Entities unstaked in a block\<close>

text \<open>The versions of an id follow each other: the live row starts after every other row that is not empty.\<close>

definition succession :: "'d hrow list \<Rightarrow> bool" where
  "succession t \<longleftrightarrow> (\<forall>r \<in> set t. \<forall>u. upper r = Some u \<longrightarrow> lower r \<le> u \<and>
     (\<forall>r' \<in> set t. row_id r = row_id r' \<longrightarrow> live r' \<longrightarrow> lower r = u \<or> lower r < lower r'))"

definition closed_rows :: "int \<Rightarrow> string set \<Rightarrow> 'd hrow list \<Rightarrow> 'd hrow list" where
  "closed_rows b I t = map (\<lambda>r. if row_id r \<in> I \<and> in_range b r then close_row b r else r) t"

lemma put_versions_rows:
  assumes "distinct (map ident es)"
  shows "put_versions ident b es t = closed_rows b (ident ` set es) t @ map (new_row ident b) es"
  using assms
proof (induction es rule: rev_induct)
  case Nil
  then show ?case by (simp add: closed_rows_def map_idI)
next
  case (snoc e es)
  have "map (\<lambda>r. if row_id r \<in> {ident e} \<and> in_range b r then close_row b r else r) (map (new_row ident b) es) =
      map (new_row ident b) es"
    using snoc.prems by (auto simp: new_row_def image_iff)
  moreover have "closed_rows b {ident e} (closed_rows b (ident ` set es) t) = closed_rows b (ident ` set (es @ [e])) t"
    by (auto simp: closed_rows_def close_row_def in_range_def)
  ultimately show ?case
    using snoc by (simp add: put_versions_def put_version_eq closed_rows_def)
qed

lemma succession_put_versions:
  assumes ok: "hist_ok ident b t" and "succession t" and "distinct (map ident es)"
  shows "succession (put_versions ident b es t)"
  unfolding succession_def put_versions_rows [OF assms(3)]
proof (intro ballI allI impI)
  let ?c = "\<lambda>r. if row_id r \<in> ident ` set es \<and> in_range b r then close_row b r else r"
  fix r u
  assume "r \<in> set (closed_rows b (ident ` set es) t @ map (new_row ident b) es)" and u: "upper r = Some u"
  then obtain q where q: "q \<in> set t" "r = ?c q" by (auto simp: closed_rows_def)
  have low: "lower r = lower q" "row_id r = row_id q" by (simp_all add: q(2) close_row_def)
  have q_ok: "lower q \<le> b" "\<forall>v. upper q = Some v \<longrightarrow> lower q \<le> v \<and> v \<le> b"
    using ok assms(2) q(1) by (auto simp: hist_ok_def list_all_iff succession_def)
  have bounds: "lower r \<le> u" "u \<le> b" using q_ok u by (auto simp: q(2) close_row_def split: if_splits)
  show "lower r \<le> u \<and> (\<forall>r' \<in> set (closed_rows b (ident ` set es) t @ map (new_row ident b) es).
      row_id r = row_id r' \<longrightarrow> live r' \<longrightarrow> lower r = u \<or> lower r < lower r')"
  proof (intro conjI ballI impI)
    fix r' assume mem: "r' \<in> set (closed_rows b (ident ` set es) t @ map (new_row ident b) es)" "row_id r = row_id r'" "live r'"
    then consider (new) "lower r' = b" | (old) q' where "q' \<in> set t" "r' = ?c q'" by (auto simp: closed_rows_def new_row_def)
    then show "lower r = u \<or> lower r < lower r'"
    proof cases
      case new
      then show ?thesis using bounds by linarith
    next
      case old
      then have "r' = q'" using mem(3) by (auto simp: live_def close_row_def split: if_splits)
      moreover have "in_range b q'" using mem(3) hist_ok_in_range [OF ok old(1)] \<open>r' = q'\<close> by blast
      ultimately have "row_id q' \<notin> ident ` set es" using mem(3) arg_cong [OF old(2), of upper] by (auto simp: live_def close_row_def)
      then have "row_id q \<notin> ident ` set es" using mem(2) low(2) \<open>r' = q'\<close> by simp
      then have "r = q" by (simp add: q(2))
      then show ?thesis using assms(2) q(1) old(1) u mem \<open>r' = q'\<close> by (auto simp: succession_def)
    qed
  qed (rule bounds(1))
qed

lemma latest_of_max:
  assumes "r0 \<in> set rs" and "\<forall>r \<in> set rs. r = r0 \<or> lower r < lower r0"
  shows "latest_of rs = Some r0"
proof -
  have "foldl (\<lambda>best r. case best of None \<Rightarrow> Some r | Some s \<Rightarrow> if lower s < lower r then Some r else best) acc rs = Some r0"
    if "\<forall>r \<in> set rs. r = r0 \<or> lower r < lower r0" "r0 \<in> set rs \<or> acc = Some r0"
      "\<forall>s. acc = Some s \<longrightarrow> s = r0 \<or> lower s < lower r0" for acc
    using that by (induction rs arbitrary: acc) (auto split: option.split)
  from this [of None] show ?thesis using assms by (simp add: latest_of_def)
qed

lemma previous_version_put:
  assumes ok: "hist_ok ident (b - 1) t" and "succession t" and "distinct (map ident es)" and "e \<in> set es"
    and "live_map t (ident e) = None \<Longrightarrow> ident e \<notin> row_id ` set t"
  shows "previous_version b (ident e) (put_versions ident b es t) = live_map t (ident e)"
proof -
  define I where "I = ident ` set es"
  have okb: "hist_ok ident b t" by (rule hist_ok_mono [OF ok]) simp
  have low: "lower r < b" if "r \<in> set t" for r using ok that by (auto simp: hist_ok_def list_all_iff)
  let ?rows = "filter (\<lambda>p. row_id p = ident e \<and> (case range_lower p of None \<Rightarrow> False | Some l \<Rightarrow> l < b))
      (put_versions ident b es t)"
  have rows: "?rows = filter (\<lambda>p. row_id p = ident e \<and> range_lower p \<noteq> None) (closed_rows b I t)"
    unfolding put_versions_rows [OF assms(3)] I_def [symmetric]
    by (auto simp: range_lower_def new_row_def closed_rows_def close_row_def low filter_empty_conv intro!: filter_cong)
  show ?thesis
  proof (cases "live_map t (ident e)")
    case None
    then have "filter (\<lambda>p. row_id p = ident e \<and> range_lower p \<noteq> None) (closed_rows b I t) = []"
      using assms(5) by (auto simp: filter_empty_conv closed_rows_def close_row_def image_iff split: if_splits)
    then show ?thesis using None by (simp only: previous_version_def rows) (simp add: latest_of_def)
  next
    case (Some d)
    then obtain r where r: "r \<in> set t" "live r" "row_id r = ident e" "row_data r = d" by (auto simp: live_map_eq [OF okb])
    have "in_range b r" using r hist_ok_in_range [OF okb] by blast
    then have c: "close_row b r \<in> set (closed_rows b I t)" using r assms(4) by (force simp: closed_rows_def I_def)
    have "p = close_row b r \<or> lower p < lower (close_row b r)"
      if p: "p \<in> set (closed_rows b I t)" "row_id p = ident e" "range_lower p \<noteq> None" for p
    proof -
      obtain q where q: "q \<in> set t" "p = (if row_id q \<in> I \<and> in_range b q then close_row b q else q)"
        using p(1) by (auto simp: closed_rows_def)
      have id: "row_id q = ident e" using p(2) by (simp add: q(2) close_row_def split: if_splits)
      show ?thesis
      proof (cases "live q")
        case True
        then have "q = r"
          using okb q(1) r id by (auto simp: hist_ok_def distinct_map inj_on_def)
        then show ?thesis using q(2) r \<open>in_range b r\<close> assms(4) by (auto simp: I_def)
      next
        case False
        then have "p = q" using q(2) hist_ok_in_range [OF okb q(1)] by auto
        then obtain u where u: "upper q = Some u" "lower q \<noteq> u"
          using p(3) False by (auto simp: range_lower_def live_def split: if_splits)
        then have "lower q < lower r" using assms(2) q(1) r id unfolding succession_def by metis
        then show ?thesis using \<open>p = q\<close> by (simp add: close_row_def)
      qed
    qed
    moreover have "range_lower (close_row b r) \<noteq> None" "row_id (close_row b r) = ident e"
      using low [OF r(1)] r(3) by (simp_all add: range_lower_def close_row_def)
    ultimately have "latest_of ?rows = Some (close_row b r)"
      unfolding rows using c by (intro latest_of_max) auto
    then show ?thesis using Some r(4) by (simp add: previous_version_def close_row_def)
  qed
qed

text \<open>
  C18: the entities unstaked in a block. When the tables are in order before the block and the block writes
  new versions of some entities, each with its own id and either current before or new, the report counts
  exactly the versions written as unstaked, and its tokens are the stakes these entities had before the block.
\<close>

theorem unstaked_totals_spec:
  assumes "hist_ok ident (b - 1) t" and "succession t" and "distinct (map ident es)"
    and "\<forall>e \<in> set es. live_map t (ident e) = None \<longrightarrow> ident e \<notin> row_id ` set t"
  shows "unstaked_totals status stake b (put_versions ident b es t) =
    (let unstaked = filter (\<lambda>e. status e = Unstaked) es in
     (int (length unstaked), \<Sum>e \<leftarrow> unstaked. case live_map t (ident e) of None \<Rightarrow> 0 | Some d \<Rightarrow> stake d))"
proof -
  have low: "lower r < b" if "r \<in> set t" for r using assms(1) that by (auto simp: hist_ok_def list_all_iff)
  have rows: "filter (\<lambda>r. status (row_data r) = Unstaked \<and> range_lower r = Some b) (put_versions ident b es t) =
      map (new_row ident b) (filter (\<lambda>e. status e = Unstaked) es)"
    unfolding put_versions_rows [OF assms(3)]
    using low by (fastforce simp: filter_empty_conv range_lower_def closed_rows_def close_row_def new_row_def filter_map comp_def)
  have "previous_version b (ident e) (put_versions ident b es t) = live_map t (ident e)" if "e \<in> set es" for e
    using previous_version_put [OF assms(1-3) that] assms(4) that by blast
  then have maps: "map (\<lambda>e. case previous_version b (ident e) (put_versions ident b es t) of None \<Rightarrow> 0 | Some d \<Rightarrow> stake d)
        (filter (\<lambda>e. status e = Unstaked) es) =
      map (\<lambda>e. case live_map t (ident e) of None \<Rightarrow> 0 | Some d \<Rightarrow> stake d) (filter (\<lambda>e. status e = Unstaked) es)"
    by (intro map_cong) auto
  show ?thesis using arg_cong [OF maps, of sum_list] by (simp add: unstaked_totals_def rows Let_def comp_def)
qed

subsection \<open>Groups\<close>

lemma map_of_group_rows:
  "map_of (group_rows xs) k = (if k \<in> fst ` set xs then Some (map snd (filter (\<lambda>(j, _). j = k) xs)) else None)"
  by (simp add: group_rows_def map_of_map_restrict restrict_map_def comp_def)

lemma keys_group_rows [simp]: "map fst (group_rows xs) = js_set (map fst xs)"
  by (simp add: group_rows_def comp_def)

text \<open>
  The rows of a service. After the upsert of a block the rows of the other blocks are as before, and the
  block has exactly one row for each service of a staked supplier, with the number of the current
  configurations for the service of the staked suppliers and the sum of their stakes; a second upsert changes nothing.
\<close>

theorem upsert_staked_suppliers_spec:
  assumes "rows = upsert_staked_suppliers_by_block_and_services b src t"
  shows "filter (\<lambda>r. st_block r \<noteq> b) rows = filter (\<lambda>r. st_block r \<noteq> b) t \<and>
    distinct (map st_service (filter (\<lambda>r. st_block r = b) rows)) \<and>
    (\<forall>r \<in> set rows. st_block r = b \<longrightarrow>
      st_tokens r = (\<Sum>s \<leftarrow> filter (\<lambda>s. su_status (row_data s) = Staked \<and> in_range b s) (src_suppliers src).
        su_stake_amount (row_data s) * int (length (filter (\<lambda>c. sc_supplier (row_data c) = su_id (row_data s) \<and>
          in_range b c \<and> sc_service (row_data c) = st_service r) (src_supplier_services src))))) \<and>
    upsert_staked_suppliers_by_block_and_services b src rows = rows"
proof -
  define joined where "joined = [(sc_service (row_data c), su_stake_amount (row_data s)).
       s \<leftarrow> filter (\<lambda>s. su_status (row_data s) = Staked \<and> in_range b s) (src_suppliers src),
       c \<leftarrow> filter (\<lambda>c. sc_supplier (row_data c) = su_id (row_data s) \<and> in_range b c) (src_supplier_services src)]"
  have rows: "upsert_staked_suppliers_by_block_and_services b src t = filter (\<lambda>r. st_block r \<noteq> b) t @
     map (\<lambda>(s, stakes). \<lparr>st_block = b, st_service = s, st_amount = int (length stakes), st_tokens = sum_list stakes\<rparr>)
       (group_rows joined)" for t
    by (simp add: upsert_staked_suppliers_by_block_and_services_def service_stakes_def joined_def)
  have tokens: "sum_list (map snd (filter (\<lambda>(j, _). j = k)
      (concat (map (\<lambda>s. map (\<lambda>c. (sc_service (row_data c), su_stake_amount (row_data s))) (filter (P s) cs)) ss)))) =
      (\<Sum>s \<leftarrow> ss. su_stake_amount (row_data s) * int (length (filter (\<lambda>c. P s c \<and> sc_service (row_data c) = k) cs)))"
    for k P and ss :: "supplier hrow list" and cs :: "service_config hrow list"
  proof (induction ss)
    case (Cons s ss)
    have "sum_list (map snd (filter (\<lambda>(j, _). j = k) (map (\<lambda>c. (sc_service (row_data c), su_stake_amount (row_data s))) (filter (P s) cs)))) =
        su_stake_amount (row_data s) * int (length (filter (\<lambda>c. P s c \<and> sc_service (row_data c) = k) cs))"
      by (induction cs) (simp_all add: algebra_simps)
    with Cons show ?case by simp
  qed simp
  have one: "distinct (map st_service (map (\<lambda>(s, stakes). \<lparr>st_block = b, st_service = s, st_amount = int (length stakes),
      st_tokens = sum_list stakes\<rparr>) (group_rows joined)))"
    by (simp add: group_rows_def comp_def)
  let ?new = "map (\<lambda>(s, stakes). \<lparr>st_block = b, st_service = s, st_amount = int (length stakes), st_tokens = sum_list stakes\<rparr>)
       (group_rows joined)"
  have split: "filter (\<lambda>r. st_block r \<noteq> b) rows = filter (\<lambda>r. st_block r \<noteq> b) t" "filter (\<lambda>r. st_block r = b) rows = ?new"
    by (auto simp: assms rows filter_empty_conv filter_id_conv split: prod.splits)
  moreover have "st_tokens r = (\<Sum>s \<leftarrow> filter (\<lambda>s. su_status (row_data s) = Staked \<and> in_range b s) (src_suppliers src).
        su_stake_amount (row_data s) * int (length (filter (\<lambda>c. sc_supplier (row_data c) = su_id (row_data s) \<and>
          in_range b c \<and> sc_service (row_data c) = st_service r) (src_supplier_services src))))"
    if "r \<in> set rows" "st_block r = b" for r
  proof -
    from that have "r \<in> set (filter (\<lambda>r. st_block r = b) rows)" by simp
    then have "r \<in> set ?new" unfolding split(2) .
    then have "st_tokens r = sum_list (map snd (filter (\<lambda>(j, _). j = st_service r) joined))"
      by (auto simp: group_rows_def)
    then show ?thesis unfolding joined_def tokens by (simp add: conj_assoc)
  qed
  moreover have "upsert_staked_suppliers_by_block_and_services b src rows = rows"
    unfolding rows split(1) by (simp add: assms rows)
  ultimately show ?thesis using one by simp
qed

subsection \<open>The rewards of a day\<close>

lemma sum_keyed:
  fixes f :: "'e \<Rightarrow> int"
  shows "sum_list (map f (map snd (filter (\<lambda>(j, _). j = (d, s)) (concat (map (\<lambda>e. map (\<lambda>d. ((d, g e), e)) (D e)) es))))) =
    (\<Sum>e \<leftarrow> filter (\<lambda>e. g e = s) es. f e * int (count_list (D e) d))"
proof (induction es)
  case (Cons e es)
  have one: "sum_list (map f (map snd (filter (\<lambda>(j, _). j = (d, s)) (map (\<lambda>d. ((d, g e), e)) ds)))) =
      (if g e = s then f e * int (count_list ds d) else 0)" for ds
  proof (cases "g e = s")
    case True
    show ?thesis unfolding True by (induction ds) (simp_all add: algebra_simps)
  next
    case False
    then show ?thesis by (induction ds) simp_all
  qed
  show ?case
    by (simp only: list.map concat.simps filter_append map_append sum_list_append one Cons.IH) simp
qed simp

lemma blocks_with_id:
  assumes "distinct (map (bl_id \<circ> row_data) t)"
  shows "filter (\<lambda>blk. bl_id blk = i \<and> p blk) (map row_data t) =
    (case block_at i t of Some blk \<Rightarrow> if p blk then [blk] else [] | None \<Rightarrow> [])"
  using assms
proof (induction t)
  case (Cons r t)
  show ?case
  proof (cases "bl_id (row_data r) = i")
    case True
    then have "filter (\<lambda>blk. bl_id blk = i \<and> p blk) (map row_data t) = []"
      using Cons.prems by (force simp: filter_empty_conv image_iff)
    then show ?thesis using True by (simp add: block_at_def)
  next
    case False
    then show ?thesis using Cons by (simp add: block_at_def)
  qed
qed (simp add: block_at_def)

text \<open>The claims settled in a block of the day.\<close>

definition claims_of_day :: "(string \<Rightarrow> int) \<Rightarrow> int \<Rightarrow> blocks \<Rightarrow> report_source \<Rightarrow> claim_settled list" where
  "claims_of_day ms day t src = filter (\<lambda>e. case block_at (cs_block_id e) t of None \<Rightarrow> False
     | Some blk \<Rightarrow> day_of (ms (bl_timestamp blk)) = day) (map row_data (src_claims src))"

lemma domain_claims_day:
  assumes "distinct (map (bl_id \<circ> row_data) t)"
  shows "domain_claims (\<lambda>r. day_of (ms (bl_timestamp r)) = day) t src =
    concat (map (\<lambda>e. map (\<lambda>d. ((d, cs_service e), e)) (concat (map (sc_domains \<circ> row_data) (claim_configs e src))))
      (claims_of_day ms day t src))"
proof -
  have inner: "concat (map (\<lambda>blk. concat (map (\<lambda>c. map (\<lambda>d. ((d, cs_service e), e)) (sc_domains (row_data c))) cs))
      (filter (\<lambda>blk. bl_id blk = cs_block_id e \<and> day_of (ms (bl_timestamp blk)) = day) (map row_data t))) =
    (case block_at (cs_block_id e) t of None \<Rightarrow> [] | Some blk \<Rightarrow> if day_of (ms (bl_timestamp blk)) = day
      then map (\<lambda>d. ((d, cs_service e), e)) (concat (map (sc_domains \<circ> row_data) cs)) else [])" for e cs
    unfolding blocks_with_id [OF assms] by (simp add: map_concat comp_def split: option.split)
  have outer: "concat (map (\<lambda>e. case block_at (cs_block_id e) t of None \<Rightarrow> [] | Some blk \<Rightarrow>
        if day_of (ms (bl_timestamp blk)) = day then f e else []) es) =
      concat (map f (filter (\<lambda>e. case block_at (cs_block_id e) t of None \<Rightarrow> False
        | Some blk \<Rightarrow> day_of (ms (bl_timestamp blk)) = day) es))" for f :: "claim_settled \<Rightarrow> 'b list" and es
    by (induction es) (auto split: option.split)
  show ?thesis unfolding domain_claims_def claims_of_day_def inner outer ..
qed


subsection \<open>Witnesses\<close>

definition reported_block :: "int \<Rightarrow> string \<Rightarrow> block_row" where
  "reported_block b time = \<lparr>bl_id = b, bl_chain_id = ''pocket'', bl_hash = ''AB'', bl_timestamp = time, bl_proposer = JsNull,
     bl_size = 0, bl_metadata_id = b, bl_counters = []\<rparr>"

definition reported_blocks :: blocks where
  "reported_blocks = [new_row (\<lambda>r. show_int (bl_id r)) 6 (reported_block 6 ''a''), new_row (\<lambda>r. show_int (bl_id r)) 7 (reported_block 7 ''ab'')]"

definition reported_gateway :: "string \<Rightarrow> int \<Rightarrow> stake_status \<Rightarrow> gateway" where
  "reported_gateway i n s = \<lparr>gw_id = i, gw_account_id = i, gw_stake_amount = n, gw_stake_denom = ''upokt'', gw_stake_status = s,
     gw_unstaking_end_height = None, gw_unstaking_end_block = None, gw_unstaking_begin_block = None\<rparr>"

definition reported_gateways :: "gateway hrow list" where
  "reported_gateways = [new_row gw_id 2 (reported_gateway ''g'' 5 Staked), new_row gw_id 3 (reported_gateway ''h'' 7 Staked)]"

definition reported_config :: "string \<Rightarrow> service_config" where
  "reported_config i = \<lparr>sc_id = i, sc_service = ''eth'', sc_supplier = ''pokt1'', sc_endpoints = [], sc_rev_share = [],
     sc_domains = [''example.com''], sc_activated_at = None, sc_activated_event = None\<rparr>"

definition reported_claim :: claim_settled where
  "reported_claim = \<lparr>cs_id = ''e'', cs_supplier = Some ''pokt1'', cs_application = ''app'', cs_service = ''eth'', cs_session = ''s'',
     cs_session_start = 1, cs_session_end = 4, cs_num_relays = 10, cs_num_estimated_relays = 10, cs_claimed_units = 20,
     cs_estimated_units = 20, cs_claimed_denom = ''upokt'', cs_claimed_amount = 30, cs_status = None, cs_transaction_id = None,
     cs_block_id = 7, cs_requirement = NotRequired, cs_mints = [], cs_burns = [], cs_mod_transfers = [], cs_settled_amount = 30,
     cs_settled_denom = None, cs_mint_ratio = None, cs_supplier_owner = None, cs_minted_amount = None, cs_minted_denom = None,
     cs_overservicing = 0, cs_overservicing_denom = None, cs_deflation = 0, cs_deflation_denom = None\<rparr>"

text \<open>Two current configurations of one supplier for one service, as an activation leaves them.\<close>

definition reported_source :: report_source where
  "reported_source = \<lparr>src_claims = [new_row cs_id 7 reported_claim], src_apps = [], src_app_services = [],
     src_gateways = reported_gateways, src_suppliers = [],
     src_supplier_services = [new_row sc_id 2 (reported_config ''pokt1-eth''), new_row sc_id 3 (reported_config ''pokt1-eth'')],
     src_validators = [], src_transactions = []\<rparr>"


theorem unstaked_totals_spec_witness:
  "unstaked_totals gw_stake_status gw_stake_amount 7
     (put_versions gw_id 7 [reported_gateway ''h'' 0 Unstaked, reported_gateway ''g'' 6 Staked] reported_gateways) = (1, 7)"
proof -
  let ?es = "[reported_gateway ''h'' 0 Unstaked, reported_gateway ''g'' 6 Staked]"
  have "hist_ok gw_id (7 - 1) reported_gateways" "distinct (map gw_id ?es)"
    "\<forall>e \<in> set ?es. gw_id e \<in> {''g'', ''h''}" by code_simp+
  moreover have "succession reported_gateways" by (simp add: succession_def reported_gateways_def new_row_def)
  moreover have live: "live_map reported_gateways ''h'' = Some (reported_gateway ''h'' 7 Staked)"
    "live_map reported_gateways ''g'' = Some (reported_gateway ''g'' 5 Staked)" by code_simp+
  ultimately have "unstaked_totals gw_stake_status gw_stake_amount 7 (put_versions gw_id 7 ?es reported_gateways) =
     (let unstaked = filter (\<lambda>e. gw_stake_status e = Unstaked) ?es in
      (int (length unstaked), \<Sum>e \<leftarrow> unstaked. case live_map reported_gateways (gw_id e) of None \<Rightarrow> 0 | Some d \<Rightarrow> gw_stake_amount d))"
    by (intro unstaked_totals_spec) (auto simp: reported_gateway_def)
  then show ?thesis using live by (simp add: reported_gateway_def)
qed


end
