(* ===== verification/Analytics.thy ===== *)
theory Analytics
  imports Reports Bank Relays Services Authz
begin

text \<open>
  The functions of \<open>src/mappings/dbFunctions\<close> that the GraphQL API calls, as functions on the rows of the
  tables they name (\<open>api_source\<close>). \<open>NULL\<close> is \<open>None\<close>: \<open>SUM\<close> of no values is \<open>NULL\<close> (\<open>sql_sum\<close>), an
  aggregation of no rows into JSON too (\<open>json_agg\<close>), and \<open>COALESCE(x, 0)\<close> is \<open>coalesce_zero\<close>. Timestamps are
  milliseconds (\<open>ms\<close>) and \<open>date_trunc(trunc_interval, .)\<close> is the parameter \<open>trunc\<close>. Rows that SQL leaves
  unordered come in the order of the tables, groups in that of their first rows; JSON objects are records or tuples
  of their members.
\<close>

record api_source = report_source +
  api_blocks :: blocks
  api_metadata :: "block_metadata hrow list"
  api_transfers :: "transfer list"
  api_create_claims :: "create_claim hrow list"
  api_expireds :: "claim_event hrow list"
  api_slasheds :: "supplier_slashed hrow list"
  api_overserviceds :: "overserviced hrow list"
  api_params :: "param hrow list"
  api_balances :: "balance hrow list"
  api_modules :: "module_account hrow list"
  api_claimables :: "morse_claimable hrow list"
  api_supplies :: "supply_row hrow list"
  api_block_supplies :: "block_supply hrow list"
  api_services :: "service hrow list"
  api_staked_suppliers :: "service_stake list"
  api_relays :: "service_relays list"
  api_domain_rewards :: "domain_rewards list"

definition sql_sum :: "int list \<Rightarrow> int option" where
  "sql_sum xs = (if xs = [] then None else Some (sum_list xs))"

definition coalesce_zero :: "int option \<Rightarrow> int" where
  "coalesce_zero x = (case x of None \<Rightarrow> 0 | Some n \<Rightarrow> n)"

definition json_agg :: "'a list \<Rightarrow> 'a list option" where
  "json_agg xs = (if xs = [] then None else Some xs)"

text \<open>\<open>INNER JOIN blocks b ON b.id = x.block_id WHERE b.timestamp BETWEEN lo AND hi\<close>, with the timestamp.\<close>

definition between :: "int \<Rightarrow> int \<Rightarrow> int \<Rightarrow> bool" where
  "between lo hi n \<longleftrightarrow> lo \<le> n \<and> n \<le> hi"

definition blocks_between :: "(string \<Rightarrow> int) \<Rightarrow> int \<Rightarrow> int \<Rightarrow> blocks \<Rightarrow> block_row list" where
  "blocks_between ms lo hi t = filter (\<lambda>blk. between lo hi (ms (bl_timestamp blk))) (map row_data t)"

definition timed :: "(string \<Rightarrow> int) \<Rightarrow> int \<Rightarrow> int \<Rightarrow> blocks \<Rightarrow> ('a \<Rightarrow> int) \<Rightarrow> 'a list \<Rightarrow> (int \<times> 'a) list" where
  "timed ms lo hi t block_of xs =
     [(ms (bl_timestamp blk), x). x \<leftarrow> xs, blk \<leftarrow> filter (\<lambda>blk. bl_id blk = block_of x) (blocks_between ms lo hi t)]"

text \<open>\<open>GROUP BY date_truncated ORDER BY date_truncated\<close>, and \<open>DISTINCT ON\<close> of the latest row of each date.\<close>

definition by_date :: "(int \<Rightarrow> int) \<Rightarrow> (int \<times> 'a) list \<Rightarrow> (int \<times> 'a list) list" where
  "by_date trunc xs = sort_key fst (group_rows (map (\<lambda>(ts, x). (trunc ts, x)) xs))"

definition latest_row :: "(int \<times> 'a) list \<Rightarrow> (int \<times> 'a) option" where
  "latest_row xs = foldl (\<lambda>best x. case best of None \<Rightarrow> Some x | Some y \<Rightarrow> if fst y < fst x then Some x else best) None xs"

definition latest_by_date :: "(int \<Rightarrow> int) \<Rightarrow> (int \<times> 'a) list \<Rightarrow> (int \<times> 'a) list" where
  "latest_by_date trunc xs =
     List.map_filter (\<lambda>(d, ys). map_option (\<lambda>y. (d, snd y)) (latest_row ys)) (by_date trunc (map (\<lambda>x. (fst x, x)) xs))"

definition trunc_day :: "int \<Rightarrow> int" where
  "trunc_day t = t - t mod 86400000"

definition current_rows_of :: "'d hrow list \<Rightarrow> 'd list" where
  "current_rows_of t = map row_data (filter (\<lambda>r. upper r = None) t)"

subsection \<open>Supply\<close>

text \<open>The supply of \<open>upokt\<close> at the blocks of a time, with timestamp, block and amount.\<close>

definition upokt :: string where
  "upokt = ''upokt''"

definition supply_at_blocks :: "(string \<Rightarrow> int) \<Rightarrow> int \<Rightarrow> int \<Rightarrow> api_source \<Rightarrow> (int \<times> int \<times> int) list" where
  "supply_at_blocks ms lo hi src =
     [(ms (bl_timestamp blk), bl_id blk, sup_amount s).
       blk \<leftarrow> blocks_between ms lo hi (api_blocks src),
       bs \<leftarrow> filter (\<lambda>bs. bs_block_id bs = bl_id blk) (map row_data (api_block_supplies src)),
       s \<leftarrow> filter (\<lambda>s. sup_id s = bs_supply_id bs \<and> sup_denom s = upokt) (map row_data (api_supplies src))]"

text \<open>The three sums over claimable accounts: unstaked balances, stakes of suppliers, stakes of applications.\<close>

record claimable_sums =
  unstaked_sum :: "int option"
  supplier_sum :: "int option"
  application_sum :: "int option"

definition claimable_sums_of :: "morse_claimable list \<Rightarrow> claimable_sums" where
  "claimable_sums_of ms = \<lparr>unstaked_sum = sql_sum (map (fst \<circ> mc_unstaked_balance) ms),
     supplier_sum = sql_sum (map (fst \<circ> mc_supplier_stake) ms), application_sum = sql_sum (map (fst \<circ> mc_app_stake) ms)\<rparr>"

definition unclaimed_accounts :: "api_source \<Rightarrow> claimable_sums" where
  "unclaimed_accounts src = claimable_sums_of (filter (\<lambda>m. \<not> mc_claimed m) (map row_data (api_claimables src)))"

text \<open>\<open>claimed_at_id > block_id\<close>, which is not true of a \<open>NULL\<close>.\<close>

definition recently_claimed_accounts :: "int option \<Rightarrow> api_source \<Rightarrow> claimable_sums" where
  "recently_claimed_accounts block src = claimable_sums_of (filter (\<lambda>m. case (mc_claimed_at m, block) of
     (Some n, Some b) \<Rightarrow> b < n | _ \<Rightarrow> False) (map row_data (api_claimables src)))"

record supply_point =
  sp_date :: int
  sp_block :: int
  sp_network :: int
  sp_unstaked :: "int option"
  sp_supplier :: "int option"
  sp_application :: "int option"
  sp_total :: int

text \<open>\<open>SUM(m.x + COALESCE(r.x, 0))\<close> over the one row of unclaimed accounts, whose sum may be \<open>NULL\<close>.\<close>

definition get_total_supply_by_day :: "(string \<Rightarrow> int) \<Rightarrow> int \<Rightarrow> int \<Rightarrow> api_source \<Rightarrow> supply_point list option" where
  "get_total_supply_by_day ms lo hi src = json_agg (map (\<lambda>(day, b, amount).
     let u = unclaimed_accounts src; r = recently_claimed_accounts (Some b) src;
         plus = (\<lambda>f. map_option (\<lambda>n. n + coalesce_zero (f r)) (f u))
     in \<lparr>sp_date = day, sp_block = b, sp_network = amount, sp_unstaked = plus unstaked_sum,
         sp_supplier = plus supplier_sum, sp_application = plus application_sum,
         sp_total = amount + coalesce_zero (plus unstaked_sum) + coalesce_zero (plus supplier_sum) + coalesce_zero (plus application_sum)\<rparr>)
     (latest_by_date trunc_day (supply_at_blocks ms lo hi src)))"

definition get_burn_breakdown_between_dates :: "(string \<Rightarrow> int) \<Rightarrow> int \<Rightarrow> int \<Rightarrow> api_source \<Rightarrow> int" where
  "get_burn_breakdown_between_dates ms lo hi src = coalesce_zero (sql_sum
     [mb_amount e. (_, c) \<leftarrow> timed ms lo hi (api_blocks src) cs_block_id (map row_data (src_claims src)), e \<leftarrow> cs_burns c])"

text \<open>Reimbursement, inflation, and what is minted for the burn.\<close>

definition get_mint_breakdown_between_dates ::
  "(string \<Rightarrow> int) \<Rightarrow> int \<Rightarrow> int \<Rightarrow> api_source \<Rightarrow> int option \<times> int option \<times> int option" where
  "get_mint_breakdown_between_dates ms lo hi src =
     (let reimbursement = coalesce_zero (sql_sum [mt_amount t.
            (_, t) \<leftarrow> timed ms lo hi (api_blocks src) mt_block (api_transfers src),
            mt_reason t = ''TLM_GLOBAL_MINT_REIMBURSEMENT_REQUEST_ESCROW_DAO_TRANSFER'']);
          mints = [e. (_, c) \<leftarrow> timed ms lo hi (api_blocks src) cs_block_id (map row_data (src_claims src)), e \<leftarrow> cs_mints c];
          amount = (\<lambda>reasons. sql_sum (map (\<lambda>e. if mb_reason e \<in> set reasons then mb_amount e else 0) mints))
      in (map_option (\<lambda>n. reimbursement + n) (amount [10]), amount [3, 5], amount [1, 19]))"

record composition_point =
  cp_date :: int
  cp_block :: int
  cp_network :: int
  cp_unmigrated :: int
  cp_total :: int
  cp_composition :: "(string \<times> int) list option"

text \<open>The addresses of the DAO at a block, and the label of a balance's account under one of them.\<close>

definition dao_addresses :: "int \<Rightarrow> api_source \<Rightarrow> string list" where
  "dao_addresses b src = js_set (map (pa_value \<circ> row_data) (filter (\<lambda>p. in_range b p \<and>
     pa_namespace (row_data p) = ''tokenomics'' \<and> pa_key (row_data p) = ''dao_reward_address'') (api_params src)))"

definition left_join :: "'a list \<Rightarrow> 'a option list" where
  "left_join xs = (if xs = [] then [None] else map Some xs)"

definition supply_label :: "module_account option \<Rightarrow> string option \<Rightarrow> balance \<Rightarrow> string" where
  "supply_label a dao b = (case a of Some m \<Rightarrow> ma_name m
     | None \<Rightarrow> if Some (bal_account_id b) = dao then ''dao''
         else if bal_account_id b = ''pokt14q8l4hlsdf2fqws7n6q6ck3xg5yt2qvgyynnll'' then ''wrapped'' else ''others'')"

definition labelled_balances :: "int \<Rightarrow> api_source \<Rightarrow> (string \<times> int) list" where
  "labelled_balances block src =
     [(supply_label a dao b, bal_amount b).
       b \<leftarrow> map row_data (filter (in_range block) (api_balances src)), bal_denom b = Some upokt,
       a \<leftarrow> left_join (filter (\<lambda>a. ma_id a = bal_account_id b) (map row_data (api_modules src))),
       dao \<leftarrow> left_join (dao_addresses block src)]"

definition supply_composition :: "int \<Rightarrow> api_source \<Rightarrow> (string \<times> int) list" where
  "supply_composition block src = map (\<lambda>(l, ns). (l, sum_list ns)) (group_rows (labelled_balances block src))"

definition get_supply_composition_between_dates ::
  "(string \<Rightarrow> int) \<Rightarrow> (int \<Rightarrow> int) \<Rightarrow> int \<Rightarrow> int \<Rightarrow> api_source \<Rightarrow> composition_point list option" where
  "get_supply_composition_between_dates ms trunc lo hi src = json_agg (map (\<lambda>(day, b, amount).
     let u = unclaimed_accounts src; r = recently_claimed_accounts (Some b) src;
         plus = (\<lambda>f. coalesce_zero (f u) + coalesce_zero (f r));
         unmigrated = plus application_sum + plus unstaked_sum + plus supplier_sum
     in \<lparr>cp_date = day, cp_block = b, cp_network = amount, cp_unmigrated = unmigrated,
         cp_total = amount + plus unstaked_sum + plus supplier_sum + plus application_sum,
         cp_composition = json_agg (supply_composition b src)\<rparr>)
     (latest_by_date trunc (supply_at_blocks ms lo hi src)))"

record supply_snapshot =
  ss_block :: "int option"
  ss_network :: "int option"
  ss_unstaked :: int
  ss_supplier :: int
  ss_application :: int
  ss_unmigrated :: int
  ss_total :: int

definition get_total_supply_between_dates :: "(string \<Rightarrow> int) \<Rightarrow> int \<Rightarrow> int \<Rightarrow> api_source \<Rightarrow> supply_snapshot" where
  "get_total_supply_between_dates ms lo hi src =
     (let last = map_option snd (latest_row (supply_at_blocks ms lo hi src));
          block = map_option fst last; network = map_option snd last;
          u = unclaimed_accounts src; r = recently_claimed_accounts block src;
          plus = (\<lambda>f. coalesce_zero (f u) + coalesce_zero (f r))
      in \<lparr>ss_block = block, ss_network = network, ss_unstaked = plus unstaked_sum, ss_supplier = plus supplier_sum,
          ss_application = plus application_sum,
          ss_unmigrated = plus unstaked_sum + plus supplier_sum + plus application_sum,
          ss_total = coalesce_zero network + plus unstaked_sum + plus supplier_sum + plus application_sum\<rparr>)"

subsection \<open>Claims and proofs\<close>

text \<open>What the queries read of a created, a settled and an expired claim.\<close>

record claim_fact =
  cf_id :: string
  cf_supplier :: "string option"
  cf_block :: int
  cf_relays :: int
  cf_estimated_relays :: "int option"
  cf_units :: int
  cf_estimated_units :: int
  cf_upokt :: int

definition created_facts :: "api_source \<Rightarrow> claim_fact list" where
  "created_facts src = map (\<lambda>c. \<lparr>cf_id = cc_id c, cf_supplier = Some (cc_supplier c), cf_block = cc_block_id c,
     cf_relays = cc_num_relays c, cf_estimated_relays = Some (cc_num_estimated_relays c), cf_units = cc_claimed_units c,
     cf_estimated_units = cc_estimated_units c, cf_upokt = cc_claimed_amount c\<rparr>) (map row_data (api_create_claims src))"

definition settled_facts :: "api_source \<Rightarrow> claim_fact list" where
  "settled_facts src = map (\<lambda>c. \<lparr>cf_id = cs_id c, cf_supplier = cs_supplier c, cf_block = cs_block_id c,
     cf_relays = cs_num_relays c, cf_estimated_relays = Some (cs_num_estimated_relays c), cf_units = cs_claimed_units c,
     cf_estimated_units = cs_estimated_units c, cf_upokt = cs_claimed_amount c\<rparr>) (map row_data (src_claims src))"

definition expired_facts :: "api_source \<Rightarrow> claim_fact list" where
  "expired_facts src = map (\<lambda>c. \<lparr>cf_id = ce_id c, cf_supplier = ce_supplier c, cf_block = ce_block_id c,
     cf_relays = ce_num_relays c, cf_estimated_relays = ce_num_estimated_relays c, cf_units = ce_claimed_units c,
     cf_estimated_units = ce_estimated_units c, cf_upokt = ce_claimed_amount c\<rparr>) (map row_data (api_expireds src))"

text \<open>\<open>COUNT(DISTINCT id)\<close> and the sums, a \<open>NULL\<close> of them read as zero.\<close>

record activity =
  ac_count :: int
  ac_relays :: int
  ac_estimated_relays :: int
  ac_units :: int
  ac_estimated_units :: int
  ac_upokt :: int

definition activity_of :: "claim_fact list \<Rightarrow> activity" where
  "activity_of cs = \<lparr>ac_count = int (length (js_set (map cf_id cs))), ac_relays = coalesce_zero (sql_sum (map cf_relays cs)),
     ac_estimated_relays = coalesce_zero (sql_sum (List.map_filter cf_estimated_relays cs)),
     ac_units = coalesce_zero (sql_sum (map cf_units cs)), ac_estimated_units = coalesce_zero (sql_sum (map cf_estimated_units cs)),
     ac_upokt = coalesce_zero (sql_sum (map cf_upokt cs))\<rparr>"

record claim_proof_point =
  pt_date :: int
  pt_claims :: activity
  pt_proofs :: activity
  pt_expired :: activity

text \<open>The dates of any of the three, each left joined with its groups.\<close>

definition group_at :: "('k \<times> 'a list) list \<Rightarrow> 'k \<Rightarrow> 'a list" where
  "group_at gs k = (case map_of gs k of None \<Rightarrow> [] | Some xs \<Rightarrow> xs)"

definition claim_proofs_data ::
  "(int \<Rightarrow> int) \<Rightarrow> (int \<times> claim_fact) list \<Rightarrow> (int \<times> claim_fact) list \<Rightarrow> (int \<times> claim_fact) list \<Rightarrow>
   claim_proof_point list option" where
  "claim_proofs_data trunc claims proofs expired =
     (let c = by_date trunc claims; p = by_date trunc proofs; e = by_date trunc expired in
      json_agg (map (\<lambda>d. \<lparr>pt_date = d, pt_claims = activity_of (group_at c d), pt_proofs = activity_of (group_at p d),
          pt_expired = activity_of (group_at e d)\<rparr>)
        (sort (js_set (map fst c @ map fst p @ map fst e)))))"

definition get_claim_proofs_data_by_time ::
  "(string \<Rightarrow> int) \<Rightarrow> (int \<Rightarrow> int) \<Rightarrow> int \<Rightarrow> int \<Rightarrow> api_source \<Rightarrow> claim_proof_point list option" where
  "get_claim_proofs_data_by_time ms trunc lo hi src =
     (let timely = timed ms lo hi (api_blocks src) cf_block in
      claim_proofs_data trunc (timely (created_facts src)) (timely (settled_facts src)) (timely (expired_facts src)))"

text \<open>The staked suppliers that share their revenue with one of the addresses, with the address.\<close>

definition matched_suppliers :: "string list \<Rightarrow> api_source \<Rightarrow> (string \<times> string) list" where
  "matched_suppliers addresses src = js_set
     [(sc_supplier c, a).
       c \<leftarrow> current_rows_of (src_supplier_services src),
       s \<leftarrow> filter (\<lambda>s. su_id s = sc_supplier c \<and> su_status s = Staked) (current_rows_of (src_suppliers src)),
       (a, _) \<leftarrow> sc_rev_share c, a \<in> set addresses]"

definition matched_supplier_ids :: "string list \<Rightarrow> api_source \<Rightarrow> string list" where
  "matched_supplier_ids addresses src = js_set (map fst (matched_suppliers addresses src))"

definition get_claim_proofs_data_by_delegators_and_time ::
  "(string \<Rightarrow> int) \<Rightarrow> (int \<Rightarrow> int) \<Rightarrow> string list \<Rightarrow> int \<Rightarrow> int \<Rightarrow> api_source \<Rightarrow> claim_proof_point list option" where
  "get_claim_proofs_data_by_delegators_and_time ms trunc addresses lo hi src =
     (let timely = (\<lambda>facts. [x. x \<leftarrow> timed ms lo hi (api_blocks src) cf_block facts,
            s \<leftarrow> matched_supplier_ids addresses src, cf_supplier (snd x) = Some s]) in
      claim_proofs_data trunc (timely (created_facts src)) (timely (settled_facts src)) (timely (expired_facts src)))"

text \<open>Claims, proofs and slashes of the suppliers of each address.\<close>

record delegator_data =
  dd_address :: string
  dd_claims :: "int \<times> int \<times> int \<times> int"
  dd_proofs :: "int \<times> int \<times> int \<times> int"
  dd_slashed :: int

definition joined_with :: "(string \<times> string) list \<Rightarrow> ('a \<Rightarrow> string option) \<Rightarrow> 'a list \<Rightarrow> (string \<times> 'a) list" where
  "joined_with matched supplier xs = [(s, x). x \<leftarrow> xs, (s, _) \<leftarrow> matched, supplier x = Some s]"

text \<open>The sums of relays, computed units, amounts and counts over the suppliers.\<close>

definition activity_sums :: "activity list \<Rightarrow> int \<times> int \<times> int \<times> int" where
  "activity_sums as = (let total = (\<lambda>f. sum_list (map f as)) in (total ac_relays, total ac_units, total ac_upokt, total ac_count))"

definition delegator_data_of ::
  "(string \<times> string) list \<Rightarrow> claim_fact list \<Rightarrow> claim_fact list \<Rightarrow> supplier_slashed list \<Rightarrow> delegator_data list option" where
  "delegator_data_of matched claims proofs slashes =
     (let c = group_rows (joined_with matched cf_supplier claims); p = group_rows (joined_with matched cf_supplier proofs);
          sl = group_rows (joined_with matched (\<lambda>x. Some (sl_supplier x)) slashes);
          slashed = (\<lambda>s. coalesce_zero (sql_sum (map (\<lambda>x. sl_previous_stake x - sl_after_stake x) (group_at sl s)))) in
      json_agg (map (\<lambda>(a, ss). \<lparr>dd_address = a, dd_claims = activity_sums (map (activity_of \<circ> group_at c) ss),
          dd_proofs = activity_sums (map (activity_of \<circ> group_at p) ss), dd_slashed = sum_list (map slashed ss)\<rparr>)
        (group_rows (map (\<lambda>(s, a). (a, s)) matched))))"

definition get_data_by_delegator_addresses_and_times ::
  "(string \<Rightarrow> int) \<Rightarrow> string list \<Rightarrow> int \<Rightarrow> int \<Rightarrow> api_source \<Rightarrow> delegator_data list option" where
  "get_data_by_delegator_addresses_and_times ms addresses lo hi src = delegator_data_of (matched_suppliers addresses src)
     (map snd (timed ms lo hi (api_blocks src) cf_block (created_facts src)))
     (map snd (timed ms lo hi (api_blocks src) cf_block (settled_facts src)))
     (map snd (timed ms lo hi (api_blocks src) sl_block_id (map row_data (api_slasheds src))))"

definition get_data_by_delegator_addresses_and_blocks ::
  "string list \<Rightarrow> int \<Rightarrow> int \<Rightarrow> api_source \<Rightarrow> delegator_data list option" where
  "get_data_by_delegator_addresses_and_blocks addresses lo hi src = delegator_data_of (matched_suppliers addresses src)
     (filter (\<lambda>c. between lo hi (cf_block c)) (created_facts src))
     (filter (\<lambda>c. between lo hi (cf_block c)) (settled_facts src))
     (filter (\<lambda>s. between lo hi (sl_block_id s)) (map row_data (api_slasheds src)))"

subsection \<open>Relays and rewards\<close>

text \<open>Relays, estimated relays, computed units, estimated computed units, claimed amount.\<close>

definition relay_sums :: "service_relays list \<Rightarrow> int \<times> int \<times> int \<times> int \<times> int" where
  "relay_sums rs = (let total = (\<lambda>f. sum_list (map f rs)) in
     (total sr_relays, total sr_estimated_relays, total sr_units, total sr_estimated_units, total sr_claimed))"

definition get_rewards_by_date ::
  "(string \<Rightarrow> int) \<Rightarrow> (int \<Rightarrow> int) \<Rightarrow> int \<Rightarrow> int \<Rightarrow> api_source \<Rightarrow> (int \<times> int \<times> int \<times> int \<times> int \<times> int) list option" where
  "get_rewards_by_date ms trunc lo hi src =
     json_agg (map (\<lambda>(d, rs). (d, relay_sums rs)) (by_date trunc (timed ms lo hi (api_blocks src) sr_block (api_relays src))))"

definition get_relays_by_service_per_point_json ::
  "(string \<Rightarrow> int) \<Rightarrow> (int \<Rightarrow> int) \<Rightarrow> int \<Rightarrow> int \<Rightarrow> api_source \<Rightarrow>
   ((int \<times> string) \<times> int \<times> int \<times> int \<times> int \<times> int) list option" where
  "get_relays_by_service_per_point_json ms trunc lo hi src =
     json_agg (sort_key (fst \<circ> fst) (map (\<lambda>(k, rs). (k, relay_sums rs)) (group_rows
       (map (\<lambda>(ts, r). ((trunc ts, sr_service r), r)) (timed ms lo hi (api_blocks src) sr_block (api_relays src))))))"

text \<open>The number of suppliers, their tokens and the number of blocks; \<open>ORDER BY date DESC, amount DESC\<close>.\<close>

definition get_suppliers_staked_and_blocks_by_point_json ::
  "(string \<Rightarrow> int) \<Rightarrow> (int \<Rightarrow> int) \<Rightarrow> int \<Rightarrow> int \<Rightarrow> api_source \<Rightarrow> ((int \<times> string) \<times> int \<times> int \<times> int) list option" where
  "get_suppliers_staked_and_blocks_by_point_json ms trunc lo hi src =
     json_agg (sort_key (\<lambda>x. - fst (fst x)) (sort_key (\<lambda>x. - fst (snd x)) (map (\<lambda>(k, ss).
         (k, sum_list (map st_amount ss), sum_list (map st_tokens ss), int (length ss))) (group_rows
       (map (\<lambda>(ts, s). ((trunc ts, st_service s), s)) (timed ms lo hi (api_blocks src) st_block (api_staked_suppliers src)))))))"

definition get_supplier_stats_by_domains :: "string list \<Rightarrow> api_source \<Rightarrow> int \<times> int" where
  "get_supplier_stats_by_domains domains src =
     (let matched = js_set (map sc_supplier (filter (\<lambda>c. list_ex (\<lambda>d. d \<in> set domains) (sc_domains c))
            (current_rows_of (src_supplier_services src))));
          stakes = [su_stake_amount s. s \<leftarrow> current_rows_of (src_suppliers src), su_status s = Staked,
            i \<leftarrow> matched, su_id s = i]
      in (int (length stakes), coalesce_zero (sql_sum stakes)))"

record service_rewards =
  sv_service :: string
  sv_staked :: int
  sv_relays :: int
  sv_estimated_relays :: int
  sv_units :: int
  sv_estimated_units :: int
  sv_gross :: int

definition get_rewards_by_domains_and_time_group_by_service :: "string list \<Rightarrow> int \<Rightarrow> int \<Rightarrow> api_source \<Rightarrow> service_rewards list" where
  "get_rewards_by_domains_and_time_group_by_service domains lo hi src =
     (let rows = filter (\<lambda>r. dr_domain r \<in> set domains \<and> between (day_of lo) (day_of hi) (dr_day r)) (api_domain_rewards src)
      in map (\<lambda>(s, rs). let total = (\<lambda>f. sum_list (map f rs)) in
           \<lparr>sv_service = s, sv_staked = (case latest_row (map (\<lambda>r. (dr_day r, r)) rs) of None \<Rightarrow> 0 | Some (_, r) \<Rightarrow> dr_suppliers r),
            sv_relays = total dr_relays, sv_estimated_relays = total dr_estimated_relays, sv_units = total dr_units,
            sv_estimated_units = total dr_estimated_units, sv_gross = total dr_gross\<rparr>)
         (group_rows (map (\<lambda>r. (dr_service r, r)) rows)))"

text \<open>Relays, estimated relays, units, estimated units and gross rewards of settled claims; no claims have the sums 0.\<close>

definition claim_sums :: "claim_settled list \<Rightarrow> int \<times> int \<times> int \<times> int \<times> int" where
  "claim_sums cs = (let total = (\<lambda>f. coalesce_zero (sql_sum (map f cs))) in
     (total cs_num_relays, total cs_num_estimated_relays, total cs_claimed_units, total cs_estimated_units, total cs_claimed_amount))"

definition supplier_in :: "string list \<Rightarrow> string option \<Rightarrow> bool" where
  "supplier_in addresses s = (case s of None \<Rightarrow> False | Some i \<Rightarrow> i \<in> set addresses)"

definition get_rewards_by_suppliers_and_time_group_by_service ::
  "(string \<Rightarrow> int) \<Rightarrow> string list \<Rightarrow> int \<Rightarrow> int \<Rightarrow> api_source \<Rightarrow> (string \<times> int \<times> int \<times> int \<times> int \<times> int) list option" where
  "get_rewards_by_suppliers_and_time_group_by_service ms operators lo hi src =
     (let services = js_set (map sc_service (filter (\<lambda>c. sc_supplier c \<in> set operators) (current_rows_of (src_supplier_services src))));
          rewards = group_rows (map (\<lambda>(_, c). (cs_service c, c)) (filter (\<lambda>(_, c). supplier_in operators (cs_supplier c))
            (timed ms lo hi (api_blocks src) cs_block_id (map row_data (src_claims src)))))
      in json_agg (map (\<lambda>s. (s, claim_sums (group_at rewards s))) services))"

text \<open>
  The rewards of addresses by service: the claims are joined with their transfers to the addresses, and what is
  summed over the joined rows are the amounts of the transfers and the columns of the claims.
\<close>

definition get_rewards_by_addresses_and_time_group_by_service ::
  "(string \<Rightarrow> int) \<Rightarrow> string list \<Rightarrow> int \<Rightarrow> int \<Rightarrow> api_source \<Rightarrow> (string \<times> (int \<times> int \<times> int \<times> int \<times> int) \<times> int) list option" where
  "get_rewards_by_addresses_and_time_group_by_service ms addresses lo hi src =
     (let services = js_set [sc_service c. c \<leftarrow> current_rows_of (src_supplier_services src),
            (s, _) \<leftarrow> matched_suppliers addresses src, sc_supplier c = s];
          rewards = group_rows [(cs_service c, (c, mt_amount m)).
            (_, m) \<leftarrow> timed ms lo hi (api_blocks src) mt_block (api_transfers src), mt_recipient m \<in> set addresses,
            c \<leftarrow> filter (\<lambda>c. cs_id c = mt_claim_id m) (map row_data (src_claims src))]
      in json_agg (map (\<lambda>s. (s, claim_sums (map fst (group_at rewards s)),
           coalesce_zero (sql_sum (map snd (group_at rewards s))))) services))"

definition rewards_to :: "(string \<Rightarrow> int) \<Rightarrow> string list \<Rightarrow> int \<Rightarrow> int \<Rightarrow> api_source \<Rightarrow> (int \<times> transfer) list" where
  "rewards_to ms addresses lo hi src =
     filter (\<lambda>(_, m). mt_recipient m \<in> set addresses) (timed ms lo hi (api_blocks src) mt_block (api_transfers src))"

definition sum_amounts :: "transfer list \<Rightarrow> int" where
  "sum_amounts ms = sum_list (map mt_amount ms)"

definition get_rewards_by_addresses_and_time_group_by_date ::
  "(string \<Rightarrow> int) \<Rightarrow> (int \<Rightarrow> int) \<Rightarrow> string list \<Rightarrow> int \<Rightarrow> int \<Rightarrow> api_source \<Rightarrow> (int \<times> int) list option" where
  "get_rewards_by_addresses_and_time_group_by_date ms trunc addresses lo hi src =
     json_agg (map (\<lambda>(d, xs). (d, sum_amounts xs)) (by_date trunc (rewards_to ms addresses lo hi src)))"

definition get_rewards_by_addresses_and_time :: "(string \<Rightarrow> int) \<Rightarrow> string list \<Rightarrow> int \<Rightarrow> int \<Rightarrow> api_source \<Rightarrow> int" where
  "get_rewards_by_addresses_and_time ms addresses lo hi src =
     coalesce_zero (sql_sum (map (mt_amount \<circ> snd) (rewards_to ms addresses lo hi src)))"

definition by_address_and_date :: "(int \<Rightarrow> int) \<Rightarrow> (int \<times> transfer) list \<Rightarrow> ((string \<times> int) \<times> int) list option" where
  "by_address_and_date trunc xs = json_agg (sort_key (snd \<circ> fst) (map (\<lambda>(k, ys). (k, sum_amounts ys))
     (group_rows (map (\<lambda>(ts, m). ((mt_recipient m, trunc ts), m)) xs))))"

definition get_rewards_by_addresses_and_time_group_by_address_and_date ::
  "(string \<Rightarrow> int) \<Rightarrow> (int \<Rightarrow> int) \<Rightarrow> string list \<Rightarrow> int \<Rightarrow> int \<Rightarrow> api_source \<Rightarrow> ((string \<times> int) \<times> int) list option" where
  "get_rewards_by_addresses_and_time_group_by_address_and_date ms trunc addresses lo hi src =
     by_address_and_date trunc (rewards_to ms addresses lo hi src)"

text \<open>Only the transfers of claims of the suppliers, at the time of the claim.\<close>

definition rewards_of_suppliers ::
  "(string \<Rightarrow> int) \<Rightarrow> string list \<Rightarrow> string list \<Rightarrow> int \<Rightarrow> int \<Rightarrow> api_source \<Rightarrow> (int \<times> transfer) list" where
  "rewards_of_suppliers ms addresses operators lo hi src =
     [(ts, m). (ts, c) \<leftarrow> timed ms lo hi (api_blocks src) cs_block_id (map row_data (src_claims src)),
        supplier_in operators (cs_supplier c),
        m \<leftarrow> filter (\<lambda>m. mt_claim_id m = cs_id c \<and> mt_recipient m \<in> set addresses) (api_transfers src)]"

definition get_rewards_of_addresses_by_suppliers_and_time ::
  "(string \<Rightarrow> int) \<Rightarrow> string list \<Rightarrow> string list \<Rightarrow> int \<Rightarrow> int \<Rightarrow> api_source \<Rightarrow> int" where
  "get_rewards_of_addresses_by_suppliers_and_time ms addresses operators lo hi src =
     coalesce_zero (sql_sum (map (mt_amount \<circ> snd) (rewards_of_suppliers ms addresses operators lo hi src)))"

definition get_rewards_by_suppliers_and_time_group_by_address_and_date ::
  "(string \<Rightarrow> int) \<Rightarrow> (int \<Rightarrow> int) \<Rightarrow> string list \<Rightarrow> string list \<Rightarrow> int \<Rightarrow> int \<Rightarrow> api_source \<Rightarrow>
   ((string \<times> int) \<times> int) list option" where
  "get_rewards_by_suppliers_and_time_group_by_address_and_date ms trunc addresses operators lo hi src =
     by_address_and_date trunc (rewards_of_suppliers ms addresses operators lo hi src)"

subsection \<open>Services\<close>

definition get_amount_of_blocks_and_suppliers_by_times ::
  "(string \<Rightarrow> int) \<Rightarrow> int \<Rightarrow> int \<Rightarrow> api_source \<Rightarrow> (string \<times> int \<times> int) list option" where
  "get_amount_of_blocks_and_suppliers_by_times ms lo hi src =
     json_agg (map (\<lambda>(s, rs). (s, int (length (js_set (map st_block rs))), sum_list (map st_amount rs)))
       (group_rows (map (\<lambda>(_, r). (st_service r, r)) (timed ms lo hi (api_blocks src) st_block (api_staked_suppliers src)))))"

record performance =
  pf_service :: string
  pf_name :: string
  pf_sums :: "int \<times> int \<times> int \<times> int \<times> int"
  pf_change :: rat
  pf_apps :: int
  pf_suppliers :: int

text \<open>\<open>COUNT(DISTINCT id)\<close> of the ids joined with a service.\<close>

definition distinct_ids_at :: "(string \<times> string) list \<Rightarrow> string \<Rightarrow> int" where
  "distinct_ids_at joined s = int (length (js_set (group_at (group_rows joined) s)))"

text \<open>
  \<open>divide_numeric\<close> is the division of \<open>NUMERIC\<close>, with the scale PostgreSQL chooses. The condition on the service's range
  drops the groups the left join found no service for.
\<close>

definition services_performance_between_times ::
  "(int \<Rightarrow> int \<Rightarrow> rat) \<Rightarrow> (string \<Rightarrow> int) \<Rightarrow> int \<Rightarrow> int \<Rightarrow> int \<Rightarrow> api_source \<Rightarrow> performance list option" where
  "services_performance_between_times divide_numeric ms end_current middle start_previous src =
     (let relays = (\<lambda>lo hi. group_rows (map (\<lambda>(_, r). (sr_service r, r)) (timed ms lo hi (api_blocks src) sr_block (api_relays src))));
          previous = relays start_previous middle;
          apps = [(as_service_id x, app_id a). a \<leftarrow> current_rows_of (src_apps src), app_stake_status a = Staked,
            x \<leftarrow> current_rows_of (src_app_services src), as_application_id x = app_id a];
          suppliers = [(sc_service x, su_id s). s \<leftarrow> current_rows_of (src_suppliers src), su_status s = Staked,
            x \<leftarrow> current_rows_of (src_supplier_services src), sc_supplier x = su_id s];
          change = (\<lambda>s n. case map_of previous s of None \<Rightarrow> 1
            | Some rs \<Rightarrow> let p = sum_list (map sr_estimated_units rs) in if p \<noteq> 0 then divide_numeric (n - p) p else 1)
      in json_agg (sort_key (\<lambda>r. - (\<lambda>(_, _, units, _, _). units) (pf_sums r))
        [\<lparr>pf_service = s, pf_name = svc_name v, pf_sums = relay_sums rs,
          pf_change = change s (sum_list (map sr_estimated_units rs)),
          pf_apps = distinct_ids_at apps s, pf_suppliers = distinct_ids_at suppliers s\<rparr>.
          (s, rs) \<leftarrow> relays middle end_current, v \<leftarrow> current_rows_of (api_services src), svc_id v = s]))"

subsection \<open>The others\<close>

text \<open>\<open>SELECT .. INTO amount\<close> leaves \<open>NULL\<close> when there is no row.\<close>

definition get_dao_balance_at_height :: "int \<Rightarrow> api_source \<Rightarrow> int option" where
  "get_dao_balance_at_height hgt src =
     (let effective = (if hgt = 0 then map_option fst (latest_row (map (\<lambda>blk. (bl_id blk, ())) (map row_data (api_blocks src))))
            else Some hgt)
      in Option.bind effective (\<lambda>h. case
        [bal_amount (row_data x).
          p \<leftarrow> filter (\<lambda>p. pa_namespace (row_data p) = ''tokenomics'' \<and> pa_key (row_data p) = ''dao_reward_address'' \<and> in_range h p)
            (api_params src),
          x \<leftarrow> filter (\<lambda>x. bal_account_id (row_data x) = pa_value (row_data p) \<and> bal_denom (row_data x) = Some upokt \<and> in_range h x)
            (api_balances src)]
        of [] \<Rightarrow> None | n # _ \<Rightarrow> Some n))"

definition get_overserviced_by_addresses_and_time ::
  "(string \<Rightarrow> int) \<Rightarrow> (int \<Rightarrow> int) \<Rightarrow> string list \<Rightarrow> int \<Rightarrow> int \<Rightarrow> api_source \<Rightarrow> (int \<times> int \<times> int) list option" where
  "get_overserviced_by_addresses_and_time ms trunc addresses lo hi src =
     json_agg (map (\<lambda>(d, os). (d, sum_list (map (fst \<circ> os_expected_burn) os), sum_list (map (fst \<circ> os_effective_burn) os)))
       (by_date trunc (filter (\<lambda>(_, x). os_supplier x \<in> set (matched_supplier_ids addresses src))
         (timed ms lo hi (api_blocks src) os_block_id (map row_data (api_overserviceds src))))))"

text \<open>\<open>last_commit->'signatures'\<close> and \<open>sig->>'validatorAddress'\<close>; a member that is not there is \<open>NULL\<close>.\<close>

definition js_elements :: "string \<Rightarrow> js_value \<Rightarrow> js_value list" where
  "js_elements k v = (case js_member k v of Inr (JsArr xs) \<Rightarrow> xs | _ \<Rightarrow> [])"

definition js_has_text :: "string \<Rightarrow> string \<Rightarrow> js_value \<Rightarrow> bool" where
  "js_has_text k s v \<longleftrightarrow> js_member k v = Inr (JsText s)"

definition get_missing_validator_blocks :: "int \<Rightarrow> string \<Rightarrow> api_source \<Rightarrow> int list" where
  "get_missing_validator_blocks from_id validator src = sort (map bm_id (filter (\<lambda>m. from_id \<le> bm_id m \<and>
     \<not> list_ex (js_has_text ''validatorAddress'' validator) (js_elements ''signatures'' (bm_last_commit m)))
     (map row_data (api_metadata src))))"

definition get_produced_blocks_by_validator :: "int \<Rightarrow> string \<Rightarrow> api_source \<Rightarrow> int list" where
  "get_produced_blocks_by_validator from_id validator src = sort (map bl_id (filter (\<lambda>blk.
     from_id \<le> bl_id blk \<and> bl_proposer blk = JsText validator) (map row_data (api_blocks src))))"

definition get_compute_units_to_tokens_multiplier_evolution ::
  "(string \<Rightarrow> int) \<Rightarrow> (int \<Rightarrow> int) \<Rightarrow> int \<Rightarrow> int \<Rightarrow> api_source \<Rightarrow> (int \<times> int \<times> string option) list option" where
  "get_compute_units_to_tokens_multiplier_evolution ms trunc lo hi src =
     json_agg [(d, b, v).
       (d, ids) \<leftarrow> by_date trunc (map (\<lambda>blk. (ms (bl_timestamp blk), bl_id blk)) (blocks_between ms lo hi (api_blocks src))),
       b \<leftarrow> [Max (set ids)],
       v \<leftarrow> left_join (map (pa_value \<circ> row_data) (filter (\<lambda>p. pa_id (row_data p) = ''shared-compute_units_to_tokens_multiplier'' \<and>
         in_range b p) (api_params src)))]"

definition get_latest_blocks_by_day :: "(string \<Rightarrow> int) \<Rightarrow> int \<Rightarrow> int \<Rightarrow> api_source \<Rightarrow> (int \<times> block_row) list option" where
  "get_latest_blocks_by_day ms lo hi src =
     json_agg [(d, blk).
       (d, tss) \<leftarrow> by_date trunc_day (map (\<lambda>blk. (ms (bl_timestamp blk), ms (bl_timestamp blk))) (blocks_between ms lo hi (api_blocks src))),
       blk \<leftarrow> filter (\<lambda>blk. trunc_day (ms (bl_timestamp blk)) = d \<and> ms (bl_timestamp blk) = Max (set tss)) (map row_data (api_blocks src))]"

end
