(* ===== verification/AnalyticsFacts.thy ===== *)
theory AnalyticsFacts
  imports Analytics
begin

text \<open>
  Facts on the functions of the API: grouping a query by date, address or service splits its totals and loses
  nothing; the summaries the indexer writes for every block give the sums of the claims they summarize; the functions on the
  supply agree with each other; and two aggregations that count rows more than once.
\<close>

subsection \<open>Sums and groups\<close>

lemma coalesce_zero_simps [simp]: "coalesce_zero None = 0" "coalesce_zero (Some n) = n"
  by (simp_all add: coalesce_zero_def)

lemma coalesce_zero_sql_sum [simp]: "coalesce_zero (sql_sum xs) = sum_list xs"
  by (simp add: coalesce_zero_def sql_sum_def)

lemma sum_list_single: "distinct ks \<Longrightarrow> (\<Sum>k \<leftarrow> ks. if j = k then c else 0) = (if j \<in> set ks then c else 0 :: int)"
  by (induction ks) auto

lemma sum_by_key:
  fixes g :: "'k \<Rightarrow> 'v \<Rightarrow> int"
  assumes "distinct ks" "fst ` set xs \<subseteq> set ks"
  shows "(\<Sum>k \<leftarrow> ks. sum_list (map (g k) (map snd (filter (\<lambda>(j, _). j = k) xs)))) = (\<Sum>(j, v) \<leftarrow> xs. g j v)"
  using assms(2)
proof (induction xs)
  case (Cons x xs)
  obtain j v where x: "x = (j, v)" by (cases x)
  have "(\<Sum>k \<leftarrow> ks. sum_list (map (g k) (map snd (filter (\<lambda>(j, _). j = k) (x # xs))))) =
      (\<Sum>k \<leftarrow> ks. (if j = k then g j v else 0) + sum_list (map (g k) (map snd (filter (\<lambda>(j, _). j = k) xs))))"
    by (rule arg_cong [where f = sum_list], rule map_cong) (auto simp: x)
  then show ?case using Cons assms(1) by (simp add: x sum_list_addf sum_list_single)
qed simp

lemma sum_groups:
  fixes g :: "'k \<Rightarrow> 'v \<Rightarrow> int"
  shows "sum_list (map (\<lambda>(k, vs). sum_list (map (g k) vs)) (group_rows xs)) = (\<Sum>(j, v) \<leftarrow> xs. g j v)"
  using sum_by_key [of "js_set (map fst xs)" xs g] by (simp add: group_rows_def comp_def)

lemma sum_group_rows:
  fixes f :: "'v \<Rightarrow> int"
  shows "sum_list (map (\<lambda>(k, vs). sum_list (map f vs)) (group_rows xs)) = sum_list (map (f \<circ> snd) xs)"
  using sum_groups [of "\<lambda>_. f" xs] by (simp add: comp_def case_prod_unfold)

lemma sum_sort_key:
  fixes g :: "'a \<Rightarrow> int"
  shows "sum_list (map g (sort_key k xs)) = sum_list (map g xs)"
proof -
  have "sum_list (map g (insort_key k x ys)) = g x + sum_list (map g ys)" for x ys
    by (induction ys) auto
  then show ?thesis by (induction xs) simp_all
qed

lemma sort_keyed_map: "sort_key fst (map (\<lambda>k. (k, g k)) ks) = map (\<lambda>k. (k, g k)) (sort (ks :: 'k :: linorder list))"
proof -
  have "insort_key fst (k, g k) (map (\<lambda>k. (k, g k)) js) = map (\<lambda>k. (k, g k)) (insort k js)" for k js
    by (induction js) auto
  then show ?thesis by (induction ks) simp_all
qed

text \<open>The groups of a query by date: the dates that occur, in order, each with its rows.\<close>

definition dates_of :: "(int \<Rightarrow> int) \<Rightarrow> (int \<times> 'a) list \<Rightarrow> int list" where
  "dates_of trunc xs = sort (js_set (map (trunc \<circ> fst) xs))"

definition rows_on :: "(int \<Rightarrow> int) \<Rightarrow> int \<Rightarrow> (int \<times> 'a) list \<Rightarrow> 'a list" where
  "rows_on trunc d xs = map snd (filter (\<lambda>(ts, _). trunc ts = d) xs)"

lemma by_date_eq: "by_date trunc xs = map (\<lambda>d. (d, rows_on trunc d xs)) (dates_of trunc xs)"
proof -
  have "map snd (filter (\<lambda>(j, _). j = d) (map (\<lambda>(ts, x). (trunc ts, x)) xs)) = rows_on trunc d xs" for d
    by (induction xs) (auto simp: rows_on_def)
  then show ?thesis
    by (simp add: by_date_def group_rows_def dates_of_def sort_keyed_map comp_def case_prod_unfold)
qed

lemma set_dates_of [simp]: "set (dates_of trunc xs) = (trunc \<circ> fst) ` set xs"
  by (simp add: dates_of_def)

lemma sorted_dates_of: "sorted_wrt (<) (dates_of trunc xs)"
  by (simp add: dates_of_def strict_sorted_iff)

lemma dates_of_cong: "(trunc \<circ> fst) ` set xs = (trunc \<circ> fst) ` set ys \<Longrightarrow> dates_of trunc xs = dates_of trunc ys"
  by (rule sorted_distinct_set_unique) (simp_all add: dates_of_def)

lemma dates_increase: "sorted_wrt (<) (map fst (by_date trunc xs))"
  by (simp add: by_date_eq sorted_dates_of comp_def)

lemma sum_by_date:
  fixes f :: "'v \<Rightarrow> int"
  shows "sum_list (map (\<lambda>(d, vs). sum_list (map f vs)) (by_date trunc xs)) = sum_list (map (f \<circ> snd) xs)"
  unfolding by_date_def sum_sort_key sum_group_rows by (simp add: comp_def case_prod_unfold)

text \<open>A query over rows joined with the blocks of a time, block by block.\<close>

lemma sum_timed:
  fixes h :: "int \<Rightarrow> 'a \<Rightarrow> int"
  shows "(\<Sum>(ts, x) \<leftarrow> timed ms lo hi t block_of xs. h ts x) =
    (\<Sum>blk \<leftarrow> blocks_between ms lo hi t. \<Sum>x \<leftarrow> filter (\<lambda>x. block_of x = bl_id blk) xs. h (ms (bl_timestamp blk)) x)"
proof (induction xs)
  case (Cons x xs)
  have "(\<Sum>(ts, x) \<leftarrow> map (\<lambda>blk. (ms (bl_timestamp blk), x)) (filter (\<lambda>blk. bl_id blk = block_of x) bs). h ts x) +
      (\<Sum>blk \<leftarrow> bs. \<Sum>x \<leftarrow> filter (\<lambda>x. block_of x = bl_id blk) xs. h (ms (bl_timestamp blk)) x) =
      (\<Sum>blk \<leftarrow> bs. \<Sum>x \<leftarrow> filter (\<lambda>x. block_of x = bl_id blk) (x # xs). h (ms (bl_timestamp blk)) x)" for bs
    by (induction bs) auto
  with Cons show ?case by (simp add: timed_def)
qed (simp add: timed_def sum_list_0)

lemma dates_timed: "(trunc \<circ> fst) ` set (timed ms lo hi t block_of xs) =
    {trunc (ms (bl_timestamp blk)) | blk. blk \<in> set (blocks_between ms lo hi t) \<and> (\<exists>x \<in> set xs. block_of x = bl_id blk)}"
  by (force simp: timed_def)

lemma sum_rows_on:
  fixes f :: "'a \<Rightarrow> int"
  shows "sum_list (map f (rows_on trunc d xs)) = (\<Sum>(ts, x) \<leftarrow> xs. if trunc ts = d then f x else 0)"
  by (induction xs) (auto simp: rows_on_def)

subsection \<open>Rewards of addresses\<close>

lemma rewards_total: "get_rewards_by_addresses_and_time ms addresses lo hi src =
    sum_list (map (mt_amount \<circ> snd) (rewards_to ms addresses lo hi src))"
  by (simp add: get_rewards_by_addresses_and_time_def)

lemma sum_amounts_eq: "sum_amounts xs = sum_list (map mt_amount xs)"
  by (simp add: sum_amounts_def)

lemma sum_case_prod: "sum_list (map snd (map (\<lambda>(k, xs). (k, f xs)) gs)) = sum_list (map (\<lambda>(k, xs). f xs) gs)"
  by (induction gs) auto

definition of_json :: "'a list option \<Rightarrow> 'a list" where
  "of_json x = (case x of None \<Rightarrow> [] | Some xs \<Rightarrow> xs)"

lemma of_json_agg [simp]: "of_json (json_agg xs) = xs"
  by (simp add: of_json_def json_agg_def)

lemma rewards_by_date_sum:
  "(\<Sum>(d, n) \<leftarrow> of_json (get_rewards_by_addresses_and_time_group_by_date ms trunc addresses lo hi src). n) =
    get_rewards_by_addresses_and_time ms addresses lo hi src"
  unfolding get_rewards_by_addresses_and_time_group_by_date_def of_json_agg rewards_total
  using sum_by_date [where f = mt_amount and trunc = trunc and xs = "rewards_to ms addresses lo hi src"]
  by (simp add: comp_def case_prod_unfold sum_amounts_eq)

lemma by_address_sum:
  "(\<Sum>((a, d), n) \<leftarrow> of_json (by_address_and_date trunc xs). if P a then n else 0) =
    (\<Sum>(ts, m) \<leftarrow> xs. if P (mt_recipient m) then mt_amount m else 0)"
proof -
  let ?ks = "map (\<lambda>(ts, m). ((mt_recipient m, trunc ts), m)) xs"
  have "(\<Sum>((a, d), n) \<leftarrow> of_json (by_address_and_date trunc xs). if P a then n else 0) =
      sum_list (map (\<lambda>(k, ms). sum_list (map (\<lambda>m. if P (fst k) then mt_amount m else 0) ms)) (group_rows ?ks))"
    unfolding by_address_and_date_def of_json_agg sum_sort_key map_map
    by (rule arg_cong [where f = sum_list], rule map_cong) (auto simp: sum_amounts_eq)
  then show ?thesis unfolding sum_groups by (simp add: comp_def case_prod_unfold cong: if_cong)
qed

lemma rewards_of_address:
  "a \<in> set addresses \<Longrightarrow> rewards_to ms [a] lo hi src = filter (\<lambda>(_, m). mt_recipient m = a) (rewards_to ms addresses lo hi src)"
  by (auto simp: rewards_to_def intro!: filter_cong)

lemma sum_filtered: "sum_list (map f (filter P xs)) = (\<Sum>x \<leftarrow> xs. if P x then f x else (0 :: int))"
  by (induction xs) auto

text \<open>
  C32: the rewards of addresses in a time, grouped by date or by address and date, add up to the total that the
  ungrouped query answers, the dates come once each and in order, and the entries of one of the addresses add up to
  the rewards of that address alone: truncating dates and grouping lose and repeat nothing.
\<close>

theorem reward_groups_add_up:
  assumes "a \<in> set addresses"
  shows "(\<Sum>(d, n) \<leftarrow> of_json (get_rewards_by_addresses_and_time_group_by_date ms trunc addresses lo hi src). n) =
      get_rewards_by_addresses_and_time ms addresses lo hi src \<and>
    sorted_wrt (<) (map fst (of_json (get_rewards_by_addresses_and_time_group_by_date ms trunc addresses lo hi src))) \<and>
    (\<Sum>(_, n) \<leftarrow> of_json (get_rewards_by_addresses_and_time_group_by_address_and_date ms trunc addresses lo hi src). n) =
      get_rewards_by_addresses_and_time ms addresses lo hi src \<and>
    (\<Sum>((x, d), n) \<leftarrow> of_json (get_rewards_by_addresses_and_time_group_by_address_and_date ms trunc addresses lo hi src).
        if x = a then n else 0) = get_rewards_by_addresses_and_time ms [a] lo hi src"
proof (intro conjI)
  let ?rs = "rewards_to ms addresses lo hi src"
  show "sorted_wrt (<) (map fst (of_json (get_rewards_by_addresses_and_time_group_by_date ms trunc addresses lo hi src)))"
    using dates_increase [of trunc ?rs]
    by (simp add: get_rewards_by_addresses_and_time_group_by_date_def comp_def case_prod_unfold)
  show "(\<Sum>(_, n) \<leftarrow> of_json (get_rewards_by_addresses_and_time_group_by_address_and_date ms trunc addresses lo hi src). n) =
      get_rewards_by_addresses_and_time ms addresses lo hi src"
    using by_address_sum [of "\<lambda>_. True" trunc ?rs]
    by (simp add: get_rewards_by_addresses_and_time_group_by_address_and_date_def rewards_total comp_def case_prod_unfold)
  show "(\<Sum>((x, d), n) \<leftarrow> of_json (get_rewards_by_addresses_and_time_group_by_address_and_date ms trunc addresses lo hi src).
        if x = a then n else 0) = get_rewards_by_addresses_and_time ms [a] lo hi src"
    using by_address_sum [of "\<lambda>x. x = a" trunc ?rs]
    by (simp add: get_rewards_by_addresses_and_time_group_by_address_and_date_def rewards_total rewards_of_address [OF assms]
        sum_filtered comp_def case_prod_unfold)
qed (rule rewards_by_date_sum)

subsection \<open>Relays of blocks\<close>

text \<open>The summary of a block has a row for every service with settled claims, and its columns add up to the claims'.\<close>

abbreviation reported :: "api_source \<Rightarrow> report_source" where
  "reported src \<equiv> report_source.truncate src"

definition claims_at :: "int \<Rightarrow> api_source \<Rightarrow> claim_settled list" where
  "claims_at b src = filter (\<lambda>c. cs_block_id c = b) (map row_data (src_claims src))"

lemma upserted_relays: "upsert_relays_by_block_and_services b (reported src) [] =
    map (\<lambda>(s, cs). \<lparr>sr_block = b, sr_service = s, sr_amount = int (length cs),
         sr_relays = sum_list (map cs_num_relays cs), sr_estimated_relays = sum_list (map cs_num_estimated_relays cs),
         sr_units = sum_list (map cs_claimed_units cs), sr_estimated_units = sum_list (map cs_estimated_units cs),
         sr_claimed = sum_list (map cs_claimed_amount cs)\<rparr>)
       (group_rows (map (\<lambda>c. (cs_service c, c)) (claims_at b src)))"
  by (simp add: upsert_relays_by_block_and_services_def claims_at_def report_source.truncate_def)

lemma upserted_relays_Nil: "upsert_relays_by_block_and_services b (reported src) [] = [] \<longleftrightarrow> claims_at b src = []"
  by (simp add: upserted_relays group_rows_def js_set_def)

lemma upserted_sums:
  fixes b src
  defines "rs \<equiv> upsert_relays_by_block_and_services b (reported src) []" and "tot \<equiv> \<lambda>f. sum_list (map f (claims_at b src))"
  shows "sum_list (map sr_relays rs) = tot cs_num_relays"
    and "sum_list (map sr_estimated_relays rs) = tot cs_num_estimated_relays"
    and "sum_list (map sr_units rs) = tot cs_claimed_units"
    and "sum_list (map sr_estimated_units rs) = tot cs_estimated_units"
    and "sum_list (map sr_claimed rs) = tot cs_claimed_amount"
  using sum_group_rows [where xs = "map (\<lambda>c. (cs_service c, c)) (claims_at b src)"]
  unfolding rs_def tot_def upserted_relays by (simp_all add: comp_def case_prod_unfold)

text \<open>The summaries of the blocks of a time were written, from the claims that are stored.\<close>

definition relays_reported :: "(string \<Rightarrow> int) \<Rightarrow> int \<Rightarrow> int \<Rightarrow> api_source \<Rightarrow> bool" where
  "relays_reported ms lo hi src \<longleftrightarrow> (\<forall>blk \<in> set (blocks_between ms lo hi (api_blocks src)).
     filter (\<lambda>r. sr_block r = bl_id blk) (api_relays src) = upsert_relays_by_block_and_services (bl_id blk) (reported src) [])"

abbreviation timed_relays :: "(string \<Rightarrow> int) \<Rightarrow> int \<Rightarrow> int \<Rightarrow> api_source \<Rightarrow> (int \<times> service_relays) list" where
  "timed_relays ms lo hi src \<equiv> timed ms lo hi (api_blocks src) sr_block (api_relays src)"

abbreviation timed_claims :: "(string \<Rightarrow> int) \<Rightarrow> int \<Rightarrow> int \<Rightarrow> api_source \<Rightarrow> (int \<times> claim_settled) list" where
  "timed_claims ms lo hi src \<equiv> timed ms lo hi (api_blocks src) cs_block_id (map row_data (src_claims src))"

lemma upsert_of_block:
  "filter (\<lambda>r. sr_block r = b) (upsert_relays_by_block_and_services b' src t) =
    (if b = b' then upsert_relays_by_block_and_services b' src [] else filter (\<lambda>r. sr_block r = b) t)"
proof -
  have "\<forall>r \<in> set (upsert_relays_by_block_and_services b' src []). sr_block r = b'"
    by (auto simp: upsert_relays_by_block_and_services_def)
  moreover have "upsert_relays_by_block_and_services b' src t =
      filter (\<lambda>r. sr_block r \<noteq> b') t @ upsert_relays_by_block_and_services b' src []"
    by (simp add: upsert_relays_by_block_and_services_def)
  ultimately show ?thesis by (auto simp: filter_empty_conv filter_id_conv intro!: filter_cong)
qed

lemma upserts_of_block:
  "b \<in> set bs \<Longrightarrow> filter (\<lambda>r. sr_block r = b) (fold (\<lambda>b. upsert_relays_by_block_and_services b src) bs t) =
    upsert_relays_by_block_and_services b src []"
proof (induction bs rule: rev_induct)
  case (snoc b' bs)
  then show ?case by (auto simp: upsert_of_block)
qed simp

lemma reported_dates:
  assumes "relays_reported ms lo hi src"
  shows "dates_of trunc (timed_relays ms lo hi src) = dates_of trunc (timed_claims ms lo hi src)"
proof (rule dates_of_cong)
  have "(\<exists>r \<in> set (api_relays src). sr_block r = bl_id blk) \<longleftrightarrow>
      (\<exists>c \<in> set (map row_data (src_claims src)). cs_block_id c = bl_id blk)"
    if "blk \<in> set (blocks_between ms lo hi (api_blocks src))" for blk
  proof -
    have "filter (\<lambda>r. sr_block r = bl_id blk) (api_relays src) = [] \<longleftrightarrow> claims_at (bl_id blk) src = []"
      using assms that upserted_relays_Nil [of "bl_id blk" src] by (simp add: relays_reported_def)
    then show ?thesis by (auto simp: filter_empty_conv claims_at_def)
  qed
  then show "(trunc \<circ> fst) ` set (timed_relays ms lo hi src) = (trunc \<circ> fst) ` set (timed_claims ms lo hi src)"
    unfolding dates_timed by (intro Collect_cong) blast
qed

lemma reported_sum:
  fixes col :: "service_relays \<Rightarrow> int" and f :: "claim_settled \<Rightarrow> int"
  assumes "relays_reported ms lo hi src"
    and "\<And>b. sum_list (map col (upsert_relays_by_block_and_services b (reported src) [])) = sum_list (map f (claims_at b src))"
  shows "sum_list (map col (rows_on trunc d (timed_relays ms lo hi src))) = sum_list (map f (rows_on trunc d (timed_claims ms lo hi src)))"
proof -
  have "(\<Sum>r \<leftarrow> filter (\<lambda>r. sr_block r = bl_id blk) (api_relays src). col r) =
      (\<Sum>c \<leftarrow> filter (\<lambda>c. cs_block_id c = bl_id blk) (map row_data (src_claims src)). f c)"
    if "blk \<in> set (blocks_between ms lo hi (api_blocks src))" for blk
    using assms(1) that assms(2) [of "bl_id blk"] by (simp add: relays_reported_def claims_at_def)
  then have on: "(\<Sum>r \<leftarrow> filter (\<lambda>r. sr_block r = bl_id blk) (api_relays src). if trunc (ms (bl_timestamp blk)) = d then col r else 0) =
      (\<Sum>c \<leftarrow> filter (\<lambda>c. cs_block_id c = bl_id blk) (map row_data (src_claims src)).
        if trunc (ms (bl_timestamp blk)) = d then f c else 0)"
    if "blk \<in> set (blocks_between ms lo hi (api_blocks src))" for blk
    using that by (cases "trunc (ms (bl_timestamp blk)) = d") simp_all
  show ?thesis
    unfolding sum_rows_on sum_timed by (rule arg_cong [where f = sum_list], rule map_cong [OF refl], rule on)
qed

text \<open>
  C20: the relays and rewards by date, which the query reads from the summaries the indexer upserts, are those of
  the settled claims themselves, when the summaries of (at least) the blocks of the time were upserted, in any order and
  however often: one entry for every date with a settled claim, in order, with the sums of the claims of its blocks.
\<close>

theorem rewards_by_date_of_claims:
  assumes "api_relays src = fold (\<lambda>b. upsert_relays_by_block_and_services b (report_source.truncate src)) bs before"
    and "bl_id ` set (blocks_between ms lo hi (api_blocks src)) \<subseteq> set bs"
  shows "get_rewards_by_date ms trunc lo hi src =
    json_agg (map (\<lambda>(d, cs). (d, claim_sums cs))
      (by_date trunc (timed ms lo hi (api_blocks src) cs_block_id (map row_data (src_claims src)))))"
proof -
  have rep: "relays_reported ms lo hi src"
    unfolding relays_reported_def assms(1) using assms(2) by (auto intro!: upserts_of_block)
  have "relay_sums (rows_on trunc d (timed_relays ms lo hi src)) = claim_sums (rows_on trunc d (timed_claims ms lo hi src))" for d
    using upserted_sums reported_sum [OF rep] by (simp add: relay_sums_def claim_sums_def Let_def)
  then show ?thesis
    by (simp add: get_rewards_by_date_def by_date_eq reported_dates [OF rep] comp_def)
qed

subsection \<open>Supply\<close>

text \<open>The latest row is the first one with the greatest timestamp.\<close>

lemma latest_rowI:
  assumes "\<forall>u \<in> set us. fst u < fst y" "\<forall>v \<in> set vs. fst v \<le> fst y"
  shows "latest_row (us @ y # vs) = Some y"
proof -
  let ?step = "\<lambda>best x. case best of None \<Rightarrow> Some x | Some z \<Rightarrow> if fst z < fst x then Some x else best"
  have "case foldl ?step None us of None \<Rightarrow> True | Some z \<Rightarrow> fst z < fst y"
    using assms(1) by (induction us rule: rev_induct) (auto split: option.splits)
  then have "foldl ?step None (us @ [y]) = Some y" by (auto split: option.splits)
  moreover have "foldl ?step (Some y) vs = Some y" using assms(2) by (induction vs) auto
  ultimately show ?thesis by (simp add: latest_row_def)
qed

lemma latest_rowE:
  assumes "xs \<noteq> []"
  obtains us y vs where "xs = us @ y # vs" "\<forall>u \<in> set us. fst u < fst y" "\<forall>v \<in> set vs. fst v \<le> fst y"
    "latest_row xs = Some y"
proof -
  let ?m = "Max (fst ` set xs)"
  have "?m \<in> fst ` set xs" using assms by (intro Max_in) simp_all
  then have "\<exists>x \<in> set xs. fst x = ?m" by (metis imageE)
  then obtain us y vs where s: "xs = us @ y # vs" "fst y = ?m" "\<forall>u \<in> set us. fst u \<noteq> ?m"
    using split_list_first_prop [of xs "\<lambda>x. fst x = ?m"] by blast
  have le: "fst x \<le> fst y" if "x \<in> set xs" for x using that by (simp add: s(2))
  have "\<forall>u \<in> set us. fst u \<noteq> fst y" by (metis s(2) s(3))
  moreover have "set us \<subseteq> set xs" "set vs \<subseteq> set xs" by (auto simp: s(1))
  ultimately have y: "\<forall>u \<in> set us. fst u < fst y" "\<forall>v \<in> set vs. fst v \<le> fst y"
    using le by (meson order_less_le subsetD)+
  then show thesis by (rule that [OF s(1)]) (simp add: s(1) latest_rowI y)
qed

lemma latest_row_filter:
  assumes "latest_row xs = Some y" "\<And>x. x \<in> set xs \<Longrightarrow> fst x = fst y \<Longrightarrow> P x"
  shows "latest_row (filter P xs) = Some y"
proof -
  have "xs \<noteq> []" using assms(1) by (auto simp: latest_row_def)
  then obtain us z vs where s: "xs = us @ z # vs" "\<forall>u \<in> set us. fst u < fst z" "\<forall>v \<in> set vs. fst v \<le> fst z" "latest_row xs = Some z"
    by (rule latest_rowE)
  then have z: "z = y" using assms(1) by simp
  have "P y" using assms(2) [of y] s(1) z by simp
  then have "filter P xs = filter P us @ y # filter P vs" by (simp add: s(1) z)
  moreover have "\<forall>u \<in> set (filter P us). fst u < fst y" "\<forall>v \<in> set (filter P vs). fst v \<le> fst y" using s(2,3) z by simp_all
  ultimately show ?thesis by (simp only: latest_rowI)
qed

lemma map_filter_map: "List.map_filter f (map g xs) = List.map_filter (f \<circ> g) xs"
  by (simp add: List.map_filter_def filter_map comp_def)

lemma map_filter_Some: "(\<And>d. d \<in> set ds \<Longrightarrow> f d = Some (g d)) \<Longrightarrow> List.map_filter f ds = map g ds"
  by (induction ds) (simp_all add: List.map_filter_simps)

lemma latest_by_date_eq:
  "latest_by_date trunc xs = map (\<lambda>d. (d, snd (the (latest_row (filter (\<lambda>x. trunc (fst x) = d) xs))))) (dates_of trunc xs)"
proof -
  have rows: "rows_on trunc d (map (\<lambda>x. (fst x, x)) xs) = filter (\<lambda>x. trunc (fst x) = d) xs" for d
    by (induction xs) (auto simp: rows_on_def)
  have dates: "dates_of trunc (map (\<lambda>x. (fst x, x)) xs) = dates_of trunc xs"
    by (rule dates_of_cong) (simp add: image_image comp_def)
  have some: "\<exists>y. latest_row (filter (\<lambda>x. trunc (fst x) = d) xs) = Some y" if "d \<in> set (dates_of trunc xs)" for d
  proof -
    have "filter (\<lambda>x. trunc (fst x) = d) xs \<noteq> []" using that by (auto simp: filter_empty_conv)
    then show ?thesis by (rule latest_rowE) blast
  qed
  have "List.map_filter (\<lambda>d. map_option (\<lambda>y. (d, snd y)) (latest_row (filter (\<lambda>x. trunc (fst x) = d) xs))) (dates_of trunc xs) =
      map (\<lambda>d. (d, snd (the (latest_row (filter (\<lambda>x. trunc (fst x) = d) xs))))) (dates_of trunc xs)"
    by (rule map_filter_Some) (use some in force)
  then show ?thesis
    by (simp only: latest_by_date_def by_date_eq dates map_filter_map comp_def case_prod_conv rows)
qed

lemma sorted_wrt_less_le: "sorted_wrt (<) xs \<Longrightarrow> sorted (xs :: int list)"
  by (simp add: strict_sorted_iff)

lemma sorted_last: "sorted xs \<Longrightarrow> x \<in> set xs \<Longrightarrow> x \<le> last (xs :: int list)"
  by (induction xs) auto

lemma latest_by_date_last:
  assumes "mono trunc" "xs \<noteq> []"
  shows "latest_by_date trunc xs \<noteq> [] \<and> map_option snd (latest_row xs) = Some (snd (last (latest_by_date trunc xs)))"
proof -
  from assms(2) obtain us y vs where y: "xs = us @ y # vs" "\<forall>u \<in> set us. fst u < fst y" "\<forall>v \<in> set vs. fst v \<le> fst y"
    "latest_row xs = Some y" by (rule latest_rowE)
  let ?ds = "dates_of trunc xs"
  have le: "fst x \<le> fst y" if "x \<in> set xs" for x using that y(1-3) by force
  have ds: "?ds \<noteq> []" using assms(2) by (metis set_dates_of image_is_empty set_empty)
  have "last ?ds \<in> (trunc \<circ> fst) ` set xs" using last_in_set [OF ds] by simp
  then obtain x where "x \<in> set xs" "last ?ds = trunc (fst x)" by auto
  then have "last ?ds \<le> trunc (fst y)" using le assms(1) by (simp add: monoD)
  moreover have "trunc (fst y) \<in> set ?ds" by (simp add: y(1))
  then have "trunc (fst y) \<le> last ?ds" by (rule sorted_last [OF sorted_wrt_less_le [OF sorted_dates_of]])
  ultimately have last: "last ?ds = trunc (fst y)" by simp
  have "latest_row (filter (\<lambda>x. trunc (fst x) = trunc (fst y)) xs) = Some y"
    using y(4) by (rule latest_row_filter) simp
  then show ?thesis using ds by (simp add: latest_by_date_eq last_map last y(4))
qed

text \<open>
  C33: the queries on the supply agree. By day, the daily query and the composition answer the same days, blocks and
  supplies of the network. Their totals are the same too as long as some Morse account is unclaimed; when all are
  claimed the daily query drops the accounts that were claimed after a block from its total, which is then the
  network's alone. The snapshot of a time is the last point of the composition, for any truncation of dates.
\<close>

theorem supply_queries_agree:
  fixes src :: api_source and ms :: "string \<Rightarrow> int" and lo hi :: int
  defines "days \<equiv> of_json (get_total_supply_by_day ms lo hi src)"
    and "points \<equiv> \<lambda>trunc. of_json (get_supply_composition_between_dates ms trunc lo hi src)"
    and "now \<equiv> get_total_supply_between_dates ms lo hi src"
  shows "map (\<lambda>p. (sp_date p, sp_block p, sp_network p)) days =
      map (\<lambda>p. (cp_date p, cp_block p, cp_network p)) (points trunc_day) \<and>
    map sp_total days =
      (if list_ex (\<lambda>m. \<not> mc_claimed m) (map row_data (api_claimables src)) then map cp_total (points trunc_day)
       else map sp_network days) \<and>
    (mono trunc \<and> points trunc \<noteq> [] \<longrightarrow>
      ss_block now = Some (cp_block (last (points trunc))) \<and> ss_network now = Some (cp_network (last (points trunc))) \<and>
      ss_unmigrated now = cp_unmigrated (last (points trunc)) \<and> ss_total now = cp_total (last (points trunc)))"
proof (intro conjI impI)
  let ?rows = "supply_at_blocks ms lo hi src"
  show "map (\<lambda>p. (sp_date p, sp_block p, sp_network p)) days = map (\<lambda>p. (cp_date p, cp_block p, cp_network p)) (points trunc_day)"
    by (simp add: days_def points_def get_total_supply_by_day_def get_supply_composition_between_dates_def Let_def comp_def case_prod_unfold)
  let ?open = "filter (\<lambda>m. \<not> mc_claimed m) (map row_data (api_claimables src))"
  have un: "unclaimed_accounts src = claimable_sums_of ?open" by (simp add: unclaimed_accounts_def)
  show "map sp_total days = (if list_ex (\<lambda>m. \<not> mc_claimed m) (map row_data (api_claimables src))
      then map cp_total (points trunc_day) else map sp_network days)"
  proof (cases "?open = []")
    case True
    then have "\<not> list_ex (\<lambda>m. \<not> mc_claimed m) (map row_data (api_claimables src))"
      by (auto simp: list_ex_iff filter_empty_conv)
    then show ?thesis
      unfolding days_def get_total_supply_by_day_def of_json_agg un True
      by (simp add: claimable_sums_of_def sql_sum_def coalesce_zero_def Let_def comp_def case_prod_unfold)
  next
    case False
    then have "list_ex (\<lambda>m. \<not> mc_claimed m) (map row_data (api_claimables src))"
      by (auto simp: list_ex_iff filter_empty_conv)
    moreover have "coalesce_zero (map_option (\<lambda>n. n + k) (sql_sum (map f ?open))) = sum_list (map f ?open) + k" for f k
      using False by (simp add: sql_sum_def coalesce_zero_def)
    ultimately show ?thesis
      unfolding days_def points_def get_total_supply_by_day_def get_supply_composition_between_dates_def of_json_agg un
      by (simp add: claimable_sums_of_def recently_claimed_accounts_def Let_def comp_def case_prod_unfold)
  qed
  assume *: "mono trunc \<and> points trunc \<noteq> []"
  then have "?rows \<noteq> []"
    by (auto simp: points_def get_supply_composition_between_dates_def latest_by_date_eq dates_of_def js_set_def)
  with * obtain z where "latest_by_date trunc ?rows \<noteq> []" "latest_row ?rows = Some z" "snd (last (latest_by_date trunc ?rows)) = snd z"
    using latest_by_date_last [of trunc ?rows] by (auto simp: map_option_eq_Some simp del: split_paired_Ex)
  then show "ss_block now = Some (cp_block (last (points trunc)))" "ss_network now = Some (cp_network (last (points trunc)))"
    "ss_unmigrated now = cp_unmigrated (last (points trunc))" "ss_total now = cp_total (last (points trunc))"
    by (simp_all add: now_def points_def get_total_supply_between_dates_def get_supply_composition_between_dates_def
        last_map Let_def case_prod_unfold)
qed

subsection \<open>The reimbursements of a time\<close>

abbreviation reimbursement_reason :: string where
  "reimbursement_reason \<equiv> ''TLM_GLOBAL_MINT_REIMBURSEMENT_REQUEST_ESCROW_DAO_TRANSFER''"

lemma mint_reasons:
  "mb_reason (mint_of ''TLM_RELAY_BURN_EQUALS_MINT_TOKENOMICS_CLAIM_DISTRIBUTION_MINT'' n c) = 19"
  "mb_reason (mint_of ''TLM_GLOBAL_MINT_DAO_REWARD_DISTRIBUTION'' n c) = 5"
  "mb_reason (mint_of reimbursement_reason n c) = 10"
  by (simp_all add: mint_of_def) code_simp+

lemma mint_amount [simp]: "mb_amount (mint_of name n c) = n"
  by (simp add: mint_of_def)

lemma detailed_mints:
  assumes "build_settlement_from_detailed_distribution detailed i b burn claimed minted = Inr parts"
    and "0 \<le> amount_with_reason reimbursement_reason (sp_transfers parts)"
  shows "(\<Sum>e \<leftarrow> sp_mints parts. if mb_reason e \<in> set [10] then mb_amount e else 0) =
      amount_with_reason reimbursement_reason (sp_transfers parts)"
    and "sp_mints parts \<noteq> []"
  using assms by (auto simp: build_settlement_from_detailed_distribution_def res_eq_Inr Let_def mint_reasons)

lemma detailed_transfers:
  assumes "build_settlement_from_detailed_distribution detailed i b burn claimed minted = Inr parts"
  shows "\<forall>m \<in> set (sp_transfers parts). mt_block m = b"
proof -
  have "map_items (detailed_transfer i b) (Some detailed) = Inr (sp_transfers parts)"
    using assms by (auto simp: build_settlement_from_detailed_distribution_def res_eq_Inr Let_def)
  then show ?thesis
    by (auto simp: map_items_def detailed_transfer_def reward_transfer_def res_eq_Inr split: json.splits
        dest!: mapM_res_mem)
qed

lemma mints_of_claims:
  fixes g :: "mint_burn \<Rightarrow> int"
  assumes "\<And>ts c. (ts, c) \<in> set xs \<Longrightarrow> sum_list (map g (cs_mints c)) = paid c \<and> cs_mints c \<noteq> []" "xs \<noteq> []"
  shows "sql_sum (map g (concat (map (\<lambda>(_, c). cs_mints c) xs))) = Some (\<Sum>(_, c) \<leftarrow> xs. paid c)"
proof -
  have "sum_list (map g (cs_mints (snd x))) = paid (snd x)" if "x \<in> set xs" for x
    using assms(1) [of "fst x" "snd x"] that by simp
  then have "sum_list (map g (concat (map (\<lambda>(_, c). cs_mints c) xs))) = (\<Sum>(_, c) \<leftarrow> xs. paid c)"
    by (induction xs) (simp_all add: case_prod_unfold)
  moreover have "concat (map (\<lambda>(_, c). cs_mints c) xs) \<noteq> []" using assms by (cases xs) auto
  ultimately show ?thesis by (simp only: sql_sum_def map_is_Nil_conv if_False)
qed

lemma sum_with_reason:
  "sum_list [mt_amount t. (_, t) \<leftarrow> xs, mt_reason t = r] = (\<Sum>(_, t) \<leftarrow> xs. if mt_reason t = r then mt_amount t else 0)"
  by (induction xs) auto

lemma sum_transfers_of_claims:
  fixes f :: "transfer \<Rightarrow> int"
  assumes "\<forall>c \<in> set cs. \<forall>m \<in> set (T c). mt_block m = cs_block_id c"
  shows "(\<Sum>m \<leftarrow> filter (\<lambda>m. mt_block m = b) (concat (map T cs)). f m) =
    (\<Sum>c \<leftarrow> filter (\<lambda>c. cs_block_id c = b) cs. \<Sum>m \<leftarrow> T c. f m)"
  using assms
proof (induction cs)
  case (Cons c cs)
  have "filter (\<lambda>m. mt_block m = b) (T c) = (if cs_block_id c = b then T c else [])"
    using Cons.prems by (auto simp: filter_id_conv filter_empty_conv)
  with Cons show ?case by simp
qed simp

text \<open>
  C22: for claims that settle with a detailed distribution of their rewards, the reimbursements reported for a time
  are twice those paid: the query adds the transfers with the reason of a reimbursement to the mints with that reason,
  and a detailed distribution is recorded as both.
\<close>

theorem reimbursement_counted_twice:
  fixes src :: api_source and parts :: "claim_settled \<Rightarrow> settlement_parts" and ms :: "string \<Rightarrow> int" and lo hi :: int
  defines "claims \<equiv> map row_data (src_claims src)"
    and "paid \<equiv> \<lambda>c. amount_with_reason ''TLM_GLOBAL_MINT_REIMBURSEMENT_REQUEST_ESCROW_DAO_TRANSFER'' (sp_transfers (parts c))"
  assumes "\<forall>c \<in> set claims. (\<exists>detailed burn claimed minted.
      build_settlement_from_detailed_distribution detailed (cs_id c) (cs_block_id c) burn claimed minted = Inr (parts c)) \<and>
      cs_mints c = sp_mints (parts c) \<and> 0 \<le> paid c"
    and "api_transfers src = concat (map (sp_transfers \<circ> parts) claims)"
    and "timed ms lo hi (api_blocks src) cs_block_id claims \<noteq> []"
  shows "fst (get_mint_breakdown_between_dates ms lo hi src) =
    Some (2 * (\<Sum>(_, c) \<leftarrow> timed ms lo hi (api_blocks src) cs_block_id claims. paid c))"
proof -
  let ?g = "\<lambda>e. if mb_reason e \<in> set [10] then mb_amount e else 0" and ?cs = "timed ms lo hi (api_blocks src) cs_block_id claims"
  let ?ts = "timed ms lo hi (api_blocks src) mt_block (api_transfers src)"
  have mem: "c \<in> set claims" if "(ts, c) \<in> set ?cs" for ts c using that by (auto simp: timed_def)
  have blocks: "\<forall>c \<in> set claims. \<forall>m \<in> set ((sp_transfers \<circ> parts) c). mt_block m = cs_block_id c"
    using assms(3) detailed_transfers by fastforce
  have "(\<Sum>(ts, m) \<leftarrow> ?ts. if mt_reason m = reimbursement_reason then mt_amount m else 0) = (\<Sum>(_, c) \<leftarrow> ?cs. paid c)"
    unfolding sum_timed assms(4) sum_transfers_of_claims [OF blocks]
    by (simp add: paid_def amount_with_reason_def sum_filtered)
  then have transfers: "coalesce_zero (sql_sum [mt_amount t. (_, t) \<leftarrow> ?ts, mt_reason t = reimbursement_reason]) = (\<Sum>(_, c) \<leftarrow> ?cs. paid c)"
    unfolding coalesce_zero_sql_sum sum_with_reason .
  have "sum_list (map ?g (cs_mints c)) = paid c \<and> cs_mints c \<noteq> []" if "(ts, c) \<in> set ?cs" for ts c
  proof -
    from assms(3) mem [OF that] obtain detailed burn claimed minted where
      "build_settlement_from_detailed_distribution detailed (cs_id c) (cs_block_id c) burn claimed minted = Inr (parts c)"
      and c: "cs_mints c = sp_mints (parts c)" "0 \<le> paid c" by blast
    from detailed_mints [OF this(1) c(2) [unfolded paid_def]] show ?thesis by (simp only: c(1) paid_def simp_thms)
  qed
  then have "sql_sum (map ?g (concat (map (\<lambda>(_, c). cs_mints c) ?cs))) = Some (\<Sum>(_, c) \<leftarrow> ?cs. paid c)"
    using assms(5) by (intro mints_of_claims) auto
  then show ?thesis
    using transfers by (simp add: get_mint_breakdown_between_dates_def Let_def claims_def)
qed

subsection \<open>The suppliers of delegators\<close>

text \<open>A row joins with a matched supplier once for every address the supplier is matched with.\<close>

definition matches :: "(string \<times> string) list \<Rightarrow> string \<Rightarrow> nat" where
  "matches matched s = length (filter (\<lambda>(j, _). j = s) matched)"

lemma group_at_rows: "group_at (group_rows xs) k = map snd (filter (\<lambda>(j, _). j = k) xs)"
  by (force simp: group_at_def map_of_group_rows filter_empty_conv)

lemma joined_rows:
  "map snd (filter (\<lambda>(j, _). j = s) (joined_with matched f xs)) =
     concat (map (\<lambda>x. replicate (matches matched s) x) (filter (\<lambda>x. f x = Some s) xs))"
proof -
  have "map snd (filter (\<lambda>(j, _). j = s) (concat (map (\<lambda>(j, _). if f x = Some j then [(j, x)] else []) ms))) =
      (if f x = Some s then replicate (matches ms s) x else [])" for x ms
    by (induction ms) (auto simp: matches_def)
  then show ?thesis
    unfolding joined_with_def by (induction xs) simp_all
qed

lemma sum_joined:
  fixes g :: "'a \<Rightarrow> int"
  shows "sum_list (map g (group_at (group_rows (joined_with matched f xs)) s)) =
    int (matches matched s) * (\<Sum>x \<leftarrow> filter (\<lambda>x. f x = Some s) xs. g x)"
proof -
  have "sum_list (map g (concat (map (replicate n) ys))) = int n * sum_list (map g ys)" for n ys
    by (induction ys) (simp_all add: sum_list_replicate algebra_simps)
  then show ?thesis unfolding group_at_rows joined_rows .
qed

lemma ids_joined:
  assumes "matches matched s \<noteq> 0"
  shows "length (js_set (map g (group_at (group_rows (joined_with matched f xs)) s))) =
    card (g ` {x \<in> set xs. f x = Some s})"
proof -
  have "set (map g (group_at (group_rows (joined_with matched f xs)) s)) = g ` {x \<in> set xs. f x = Some s}"
    unfolding group_at_rows joined_rows using assms by auto
  then show ?thesis by (metis distinct_card distinct_js_set set_js_set)
qed

text \<open>What the suppliers of an address would sum to: relays, units, amounts and numbers of the claims of each.\<close>

definition repeated_sums :: "(string \<times> string) list \<Rightarrow> string list \<Rightarrow> claim_fact list \<Rightarrow> int \<times> int \<times> int \<times> int" where
  "repeated_sums matched ss cs =
     (let of_supplier = (\<lambda>s. filter (\<lambda>c. cf_supplier c = Some s) cs);
          repeated = (\<lambda>f. \<Sum>s \<leftarrow> ss. int (matches matched s) * sum_list (map f (of_supplier s)))
      in (repeated cf_relays, repeated cf_units, repeated cf_upokt, \<Sum>s \<leftarrow> ss. int (card (cf_id ` set (of_supplier s)))))"

lemma activity_sums_joined:
  assumes "\<And>s. s \<in> set ss \<Longrightarrow> matches matched s \<noteq> 0"
  shows "activity_sums (map (activity_of \<circ> group_at (group_rows (joined_with matched cf_supplier cs))) ss) =
    repeated_sums matched ss cs"
proof -
  have "(\<Sum>s \<leftarrow> ss. int (length (js_set (map cf_id (group_at (group_rows (joined_with matched cf_supplier cs)) s))))) =
      (\<Sum>s \<leftarrow> ss. int (card (cf_id ` {c \<in> set cs. cf_supplier c = Some s})))"
    using assms by (intro arg_cong [where f = sum_list] map_cong refl) (simp add: ids_joined)
  then show ?thesis
    by (simp add: activity_sums_def repeated_sums_def activity_of_def sum_joined comp_def Let_def)
qed

lemma delegator_rows:
  assumes "d \<in> set (of_json (delegator_data_of matched claims proofs slashes))"
  defines "ss \<equiv> map fst (filter (\<lambda>(s, a). a = dd_address d) matched)"
  shows "dd_claims d = repeated_sums matched ss claims" "dd_proofs d = repeated_sums matched ss proofs"
    "dd_slashed d = (\<Sum>s \<leftarrow> ss. int (matches matched s) *
       (\<Sum>x \<leftarrow> filter (\<lambda>x. sl_supplier x = s) slashes. sl_previous_stake x - sl_after_stake x))"
proof -
  have "s \<in> set ss \<Longrightarrow> matches matched s \<noteq> 0" for s
    by (auto simp: ss_def matches_def filter_empty_conv)
  note sums = activity_sums_joined [OF this]
  have ss: "map snd (filter (\<lambda>(j, _). j = dd_address d) (map (\<lambda>(s, a). (a, s)) matched)) = ss"
    unfolding ss_def by (induction matched) auto
  obtain a vs where v: "(a, vs) \<in> set (group_rows (map (\<lambda>(s, a). (a, s)) matched))" and d: "dd_address d = a"
    "dd_claims d = activity_sums (map (activity_of \<circ> group_at (group_rows (joined_with matched cf_supplier claims))) vs)"
    "dd_proofs d = activity_sums (map (activity_of \<circ> group_at (group_rows (joined_with matched cf_supplier proofs))) vs)"
    "dd_slashed d = (\<Sum>s \<leftarrow> vs. coalesce_zero (sql_sum (map (\<lambda>x. sl_previous_stake x - sl_after_stake x)
       (group_at (group_rows (joined_with matched (\<lambda>x. Some (sl_supplier x)) slashes)) s))))"
    using assms(1) unfolding delegator_data_of_def Let_def of_json_agg by auto
  have "vs = ss" using v ss d(1) by (auto simp: group_rows_def)
  then show "dd_claims d = repeated_sums matched ss claims" "dd_proofs d = repeated_sums matched ss proofs"
    "dd_slashed d = (\<Sum>s \<leftarrow> ss. int (matches matched s) *
       (\<Sum>x \<leftarrow> filter (\<lambda>x. sl_supplier x = s) slashes. sl_previous_stake x - sl_after_stake x))"
    using d(2-4) sums by (simp_all only: coalesce_zero_sql_sum sum_joined option.inject)
qed


subsection \<open>Examples\<close>

text \<open>
  A block at time 2 with one claim, settled with a detailed distribution that reimburses 5, a supply of 100, one unclaimed
  Morse account and one that was claimed later.
\<close>

definition queried_distribution :: json where
  "queried_distribution = JArr [JObj [(''recipient_address'', JStr ''pokt1''), (''amount'', JStr ''5upokt''),
     (''op_reason'', JStr ''TLM_GLOBAL_MINT_REIMBURSEMENT_REQUEST_ESCROW_DAO_TRANSFER'')]]"

definition queried_parts :: settlement_parts where
  "queried_parts = \<lparr>sp_transfers = [\<lparr>mt_id = ''e-0'', mt_claim_id = ''e'', mt_block = 7,
       mt_reason = ''TLM_GLOBAL_MINT_REIMBURSEMENT_REQUEST_ESCROW_DAO_TRANSFER'', mt_recipient = ''pokt1'', mt_amount = 5,
       mt_denom = ''upokt''\<rparr>],
     sp_mints = [mint_of ''TLM_RELAY_BURN_EQUALS_MINT_TOKENOMICS_CLAIM_DISTRIBUTION_MINT'' 30 None,
       mint_of ''TLM_GLOBAL_MINT_REIMBURSEMENT_REQUEST_ESCROW_DAO_TRANSFER'' 5 None],
     sp_burns = [mint_of ''TLM_RELAY_BURN_EQUALS_MINT_APPLICATION_STAKE_BURN'' 30 None], sp_mod_transfers = [],
     sp_minted = Some \<lparr>pc_amount = Some ''30'', pc_denom = None\<rparr>\<rparr>"

definition queried_claim :: claim_settled where
  "queried_claim = reported_claim\<lparr>cs_mints := sp_mints queried_parts, cs_burns := sp_burns queried_parts\<rparr>"

definition queried_claimable :: "string \<Rightarrow> int \<Rightarrow> int option \<Rightarrow> morse_claimable" where
  "queried_claimable i n k = \<lparr>mc_id = i, mc_import_msg = ''m'', mc_app_stake = (n, upokt), mc_supplier_stake = (0, upokt),
     mc_unstaked_balance = (0, upokt), mc_output_address = None, mc_unstaking_time = None, mc_claimed = (k \<noteq> None),
     mc_claimed_at = k, mc_shannon_dest = None, mc_transaction_id = None, mc_claimed_msg_id = None\<rparr>"

definition queried_source :: api_source where
  "queried_source = \<lparr>src_claims = [new_row cs_id 7 queried_claim], src_apps = [], src_app_services = [],
     src_gateways = [], src_suppliers = [], src_supplier_services = [], src_validators = [], src_transactions = [],
     api_blocks = reported_blocks, api_metadata = [], api_transfers = sp_transfers queried_parts, api_create_claims = [],
     api_expireds = [], api_slasheds = [], api_overserviceds = [], api_params = [], api_balances = [], api_modules = [],
     api_claimables = [new_row mc_id 1 (queried_claimable ''x'' 5 None), new_row mc_id 8 (queried_claimable ''y'' 3 (Some 8))],
     api_supplies = [new_row sup_id 7 \<lparr>sup_id = ''upokt@7'', sup_denom = upokt, sup_amount = 100\<rparr>],
     api_block_supplies = [new_row bs_id 7 \<lparr>bs_id = ''upokt@7'', bs_block_id = 7, bs_supply_id = ''upokt@7''\<rparr>],
     api_services = [], api_staked_suppliers = [],
     api_relays = [\<lparr>sr_block = 7, sr_service = ''eth'', sr_amount = 1, sr_relays = 10, sr_estimated_relays = 10, sr_units = 20,
       sr_estimated_units = 20, sr_claimed = 30\<rparr>], api_domain_rewards = []\<rparr>"

abbreviation time_of :: "string \<Rightarrow> int" where
  "time_of s \<equiv> int (length s)"

theorem reward_groups_add_up_witness:
  "(\<Sum>(d, n) \<leftarrow> of_json (get_rewards_by_addresses_and_time_group_by_date time_of trunc_day [''pokt1''] 1 2 queried_source). n) = 5"
proof -
  have "get_rewards_by_addresses_and_time time_of [''pokt1''] 1 2 queried_source = 5" by code_simp
  then show ?thesis
    using reward_groups_add_up [of "''pokt1''" "[''pokt1'']" time_of trunc_day 1 2 queried_source] by simp
qed

theorem rewards_by_date_of_claims_witness:
  "get_rewards_by_date time_of trunc_day 2 2 queried_source = Some [(0, 10, 10, 20, 20, 30)]"
proof -
  have "report_source.truncate queried_source = reported_source\<lparr>src_claims := [new_row cs_id 7 queried_claim], src_gateways := [],
      src_supplier_services := []\<rparr>"
    by (simp add: report_source.truncate_def queried_source_def reported_source_def)
  moreover have "api_relays queried_source = fold (\<lambda>b. upsert_relays_by_block_and_services b (reported_source\<lparr>src_claims :=
      [new_row cs_id 7 queried_claim], src_gateways := [], src_supplier_services := []\<rparr>)) [7] []" by code_simp
  moreover have "bl_id ` set (blocks_between time_of 2 2 (api_blocks queried_source)) \<subseteq> set [7]" by code_simp
  moreover have "json_agg (map (\<lambda>(d, cs). (d, claim_sums cs)) (by_date trunc_day
      (timed time_of 2 2 (api_blocks queried_source) cs_block_id (map row_data (src_claims queried_source))))) =
      Some [(0, 10, 10, 20, 20, 30)]" by code_simp
  ultimately show ?thesis using rewards_by_date_of_claims [of queried_source "[7]" "[]" time_of 2 2 trunc_day] by simp
qed

theorem supply_queries_agree_witness:
  "ss_total (get_total_supply_between_dates time_of 1 2 queried_source) = 108 \<and>
   map sp_total (of_json (get_total_supply_by_day time_of 1 2 queried_source)) = [108]"
proof -
  let ?points = "\<lambda>trunc. of_json (get_supply_composition_between_dates time_of trunc 1 2 queried_source)"
  have "?points trunc_day \<noteq> []" "cp_total (last (?points trunc_day)) = 108" "map cp_total (?points trunc_day) = [108]"
    "list_ex (\<lambda>m. \<not> mc_claimed m) (map row_data (api_claimables queried_source))" by code_simp+
  moreover have "mono trunc_day"
    by (simp add: mono_def trunc_day_def minus_mod_eq_mult_div zdiv_mono1)
  ultimately show ?thesis using supply_queries_agree [of time_of 1 2 queried_source trunc_day] by simp
qed

theorem reimbursement_counted_twice_witness:
  "fst (get_mint_breakdown_between_dates time_of 1 2 queried_source) = Some 10"
proof -
  have "build_settlement_from_detailed_distribution queried_distribution ''e'' 7 (Some ''30'') None None = Inr queried_parts"
    by code_simp
  moreover have claims: "map row_data (src_claims queried_source) = [queried_claim]" "cs_id queried_claim = ''e''"
    "cs_block_id queried_claim = 7" "cs_mints queried_claim = sp_mints queried_parts"
    "api_transfers queried_source = sp_transfers queried_parts"
    by (simp_all add: queried_source_def new_row_def queried_claim_def reported_claim_def)
  moreover have paid: "amount_with_reason ''TLM_GLOBAL_MINT_REIMBURSEMENT_REQUEST_ESCROW_DAO_TRANSFER'' (sp_transfers queried_parts) = 5"
    by code_simp
  moreover have "timed time_of 1 2 (api_blocks queried_source) cs_block_id [queried_claim] = [(2, queried_claim)]" by code_simp
  ultimately show ?thesis
    using reimbursement_counted_twice [of queried_source "\<lambda>_. queried_parts" time_of 1 2]
    by (auto simp del: One_nat_def)
qed

end
