(* ===== verification/Genesis.thy ===== *)
theory Genesis
  imports Transactions Bank Services StakeIndex
begin

text \<open>
  \<open>src/mappings/primitives/genesis.ts\<close>: the rows made of the genesis file at the first block. The file is
  given by its members, an absent list as an empty one; what the code writes as JSON is written by
  arguments. Genesis entities have no transaction, so each gets a placeholder. The theorems are about the
  ids of these transactions and messages, and about the decimal rates of exported validators.
\<close>

subsection \<open>The file\<close>

record genesis_service =
  gs_id :: string
  gs_name :: string
  gs_owner :: string
  gs_compute_units :: nat

text \<open>An endpoint has the names of its RPC type and of its options' keys.\<close>

record genesis_endpoint =
  gp_url :: string
  gp_rpc_type :: string
  gp_configs :: "(string \<times> string) list"

record genesis_supplier_service =
  gss_service :: string
  gss_endpoints :: "genesis_endpoint list"
  gss_rev_share :: "(string \<times> int) list"

record genesis_supplier =
  gsu_operator :: string
  gsu_owner :: string
  gsu_stake :: coin
  gsu_services :: "genesis_supplier_service list"

record genesis_app =
  gap_address :: string
  gap_gateways :: "string list"
  gap_services :: "string list"
  gap_stake :: coin

record genesis_gateway =
  gga_address :: string
  gga_stake :: coin

text \<open>A module account with its base account, or an account with an address; either may be absent.\<close>

datatype genesis_account = ModuleGenesisAccount "string option" | BaseGenesisAccount "string option" | UnknownGenesisAccount

record gen_tx =
  gt_type :: "string option"
  gt_signer_key :: string
  gt_validator :: string
  gt_pubkey :: "string \<times> string"
  gt_description :: flat
  gt_commission :: "string \<times> string \<times> string"
  gt_min_self :: string
  gt_value :: coin

record genesis_validator =
  gv_operator :: string
  gv_pubkey :: "string \<times> string"
  gv_status :: string
  gv_tokens :: string
  gv_moniker :: string
  gv_identity :: "string option"
  gv_website :: "string option"
  gv_security_contact :: "string option"
  gv_details :: "string option"
  gv_rates :: "string \<times> string \<times> string"
  gv_min_self :: string

record genesis =
  ge_initial_height :: nat
  ge_services :: "genesis_service list"
  ge_suppliers :: "genesis_supplier list"
  ge_apps :: "genesis_app list"
  ge_gateways :: "genesis_gateway list"
  ge_accounts :: "genesis_account list"
  ge_balances :: "(string \<times> coin list) list"
  ge_supply :: "coin list"
  ge_authz :: "authz list"
  ge_params :: "string \<Rightarrow> (string \<times> json) list"
  ge_gen_txs :: "gen_tx list"
  ge_validators :: "genesis_validator list"

text \<open>What the code calls to write JSON, to read the names of enumerations and to read bech32.\<close>

record genesis_env =
  en_rpc_type :: "string \<Rightarrow> int"
  en_config_key :: "string \<Rightarrow> string"
  en_message :: "decoded_msg \<Rightarrow> string"
  en_gen_tx :: "gen_tx \<Rightarrow> string"
  en_validator :: "genesis_validator \<Rightarrow> string"
  en_json :: "json \<Rightarrow> string"
  en_raw :: "genesis \<Rightarrow> string"
  en_from_bech32 :: "string \<Rightarrow> bytes res"

subsection \<open>The rows\<close>

record genesis_balance =
  gb_id :: string
  gb_amount :: int
  gb_denom :: string
  gb_account :: string

record msg_supplier_service =
  msv_id :: string
  msv_stake_msg :: string
  msv_service :: string
  msv_endpoints :: "endpoint list"
  msv_rev_share :: "(string \<times> string) list"

record genesis_rows =
  gr_services :: "service list"
  gr_add_services :: "msg_add_service list"
  gr_suppliers :: "supplier list"
  gr_supplier_services :: "service_config list"
  gr_stake_suppliers :: "msg_stake_supplier list"
  gr_stake_supplier_services :: "msg_supplier_service list"
  gr_apps :: "application list"
  gr_app_services :: "app_service list"
  gr_app_gateways :: "app_gateway list"
  gr_stake_apps :: "msg_stake_app list"
  gr_stake_app_services :: "msg_app_service list"
  gr_delegates :: "msg_app_gateway list"
  gr_gateways :: "gateway list"
  gr_stake_gateways :: "msg_stake_gateway list"
  gr_validators :: "validator list"
  gr_create_validators :: "msg_create_validator list"
  gr_accounts :: "account_params list"
  gr_balances :: "balance list"
  gr_genesis_balances :: "genesis_balance list"
  gr_authz :: "authz list"
  gr_supply_denoms :: "string list"
  gr_supplies :: "supply_row list"
  gr_params :: "param list"
  gr_events :: "string list"
  gr_transactions :: "transaction_row list"
  gr_messages :: "message_row list"
  gr_entities :: "(string \<times> string) list"

definition no_rows :: genesis_rows where
  "no_rows = \<lparr>gr_services = [], gr_add_services = [], gr_suppliers = [], gr_supplier_services = [],
     gr_stake_suppliers = [], gr_stake_supplier_services = [], gr_apps = [], gr_app_services = [], gr_app_gateways = [],
     gr_stake_apps = [], gr_stake_app_services = [], gr_delegates = [], gr_gateways = [], gr_stake_gateways = [],
     gr_validators = [], gr_create_validators = [], gr_accounts = [], gr_balances = [], gr_genesis_balances = [],
     gr_authz = [], gr_supply_denoms = [], gr_supplies = [], gr_params = [], gr_events = [], gr_transactions = [],
     gr_messages = [], gr_entities = []\<rparr>"

text \<open>The rows of the genesis handlers go into the same tables.\<close>

definition add_rows :: "genesis_rows \<Rightarrow> genesis_rows \<Rightarrow> genesis_rows" where
  "add_rows r s = \<lparr>gr_services = gr_services r @ gr_services s, gr_add_services = gr_add_services r @ gr_add_services s,
     gr_suppliers = gr_suppliers r @ gr_suppliers s, gr_supplier_services = gr_supplier_services r @ gr_supplier_services s,
     gr_stake_suppliers = gr_stake_suppliers r @ gr_stake_suppliers s,
     gr_stake_supplier_services = gr_stake_supplier_services r @ gr_stake_supplier_services s,
     gr_apps = gr_apps r @ gr_apps s, gr_app_services = gr_app_services r @ gr_app_services s,
     gr_app_gateways = gr_app_gateways r @ gr_app_gateways s, gr_stake_apps = gr_stake_apps r @ gr_stake_apps s,
     gr_stake_app_services = gr_stake_app_services r @ gr_stake_app_services s,
     gr_delegates = gr_delegates r @ gr_delegates s, gr_gateways = gr_gateways r @ gr_gateways s,
     gr_stake_gateways = gr_stake_gateways r @ gr_stake_gateways s, gr_validators = gr_validators r @ gr_validators s,
     gr_create_validators = gr_create_validators r @ gr_create_validators s, gr_accounts = gr_accounts r @ gr_accounts s,
     gr_balances = gr_balances r @ gr_balances s, gr_genesis_balances = gr_genesis_balances r @ gr_genesis_balances s,
     gr_authz = gr_authz r @ gr_authz s, gr_supply_denoms = gr_supply_denoms r @ gr_supply_denoms s,
     gr_supplies = gr_supplies r @ gr_supplies s, gr_params = gr_params r @ gr_params s, gr_events = gr_events r @ gr_events s,
     gr_transactions = gr_transactions r @ gr_transactions s, gr_messages = gr_messages r @ gr_messages s,
     gr_entities = gr_entities r @ gr_entities s\<rparr>"

definition genesis_transaction :: "string \<Rightarrow> int \<Rightarrow> string option \<Rightarrow> int option \<Rightarrow> transaction_row" where
  "genesis_transaction hash b signer timeout =
     \<lparr>tn_id = hash, tn_idx = 0, tn_block_id = b, tn_gas_used = 0, tn_gas_wanted = 0, tn_memo = [],
      tn_timeout_height = timeout, tn_fees = [\<lparr>amount = ''0'', denom = ''upokt''\<rparr>], tn_log = [], tn_status = Success,
      tn_signer_address = signer, tn_multisig = None, tn_code = 0, tn_codespace = Some [],
      tn_amount_of_messages = [], tn_amount_sent = []\<rparr>"

definition genesis_message :: "string \<Rightarrow> string \<Rightarrow> string \<Rightarrow> string \<Rightarrow> int \<Rightarrow> message_row" where
  "genesis_message i ty js hash b =
     \<lparr>me_id = i, me_idx = 0, me_type_url = ty, me_json = js, me_transaction_id = hash, me_block_id = b\<rparr>"

definition genesis_id :: "string \<Rightarrow> string" where
  "genesis_id s = dash ''genesis'' s"

text \<open>A loop over the elements of a list and their indices, each adding rows.\<close>

definition add_all :: "(nat \<Rightarrow> 'x \<Rightarrow> genesis_rows res) \<Rightarrow> 'x list \<Rightarrow> genesis_rows res" where
  "add_all f xs = foldM_res (\<lambda>acc (i, x). map_res (add_rows acc) (f i x)) no_rows (zip [0 ..< length xs] xs)"

subsection \<open>Services, suppliers, applications and gateways\<close>

text \<open>Every service gets the placeholder of index zero.\<close>

definition handle_genesis_service :: "genesis_env \<Rightarrow> int \<Rightarrow> nat \<Rightarrow> genesis_service \<Rightarrow> genesis_rows res" where
  "handle_genesis_service en b i s =
     map_res (\<lambda>hash. no_rows\<lparr>
         gr_services := [\<lparr>svc_id = gs_id s, svc_compute_units = int (gs_compute_units s), svc_name = gs_name s,
           svc_owner = gs_owner s, svc_prev_target = None, svc_new_target = None, svc_prev_ema = None, svc_new_ema = None\<rparr>],
         gr_add_services := [\<lparr>mad_msg_id = genesis_id (gs_id s), mad_name = gs_name s, mad_owner = gs_owner s,
           mad_service = gs_id s, mad_compute_units = int (gs_compute_units s), mad_block_id = b, mad_transaction_id = hash\<rparr>],
         gr_transactions := [genesis_transaction hash b None None],
         gr_messages := [genesis_message (genesis_id (gs_id s)) ''/pocket.service.MsgAddService''
           (en_message en (AddService (gs_owner s) (gs_id s) (gs_name s) (gs_compute_units s))) hash b]\<rparr>)
       (get_genesis_fake_tx_hash FakeService 0)"

definition genesis_endpoints :: "genesis_env \<Rightarrow> genesis_supplier_service \<Rightarrow> endpoint list" where
  "genesis_endpoints en s = map (\<lambda>e. \<lparr>url = gp_url e, rpc_type = en_rpc_type en (gp_rpc_type e),
     configs = map (\<lambda>(k, v). (en_config_key en k, v)) (gp_configs e)\<rparr>) (gss_endpoints s)"

definition genesis_rev_share :: "genesis_supplier_service \<Rightarrow> (string \<times> string) list" where
  "genesis_rev_share s = map (\<lambda>(a, p). (a, show_int p)) (gss_rev_share s)"

definition genesis_raw_service :: "genesis_env \<Rightarrow> genesis_supplier_service \<Rightarrow> raw_service" where
  "genesis_raw_service en s = \<lparr>rsv_service_id = gss_service s, rsv_endpoints = genesis_endpoints en s,
     rsv_rev_share = map (\<lambda>(a, p). \<lparr>rs_address = a, rs_percentage = p\<rparr>) (gss_rev_share s)\<rparr>"

definition handle_genesis_supplier :: "genesis_env \<Rightarrow> int \<Rightarrow> nat \<Rightarrow> genesis_supplier \<Rightarrow> genesis_rows res" where
  "handle_genesis_supplier en b i s =
     bind_res (get_genesis_fake_tx_hash FakeSupplier i) (\<lambda>hash.
     bind_res (big_int (amount (gsu_stake s))) (\<lambda>stake.
       let operator = gsu_operator s; mid = genesis_id operator in
       Inr (no_rows\<lparr>
         gr_transactions := [genesis_transaction hash b None (Some 0)],
         gr_stake_suppliers := [\<lparr>mss_id = mid, mss_signer = gsu_owner s, mss_supplier = operator, mss_owner = gsu_owner s,
           mss_stake = (stake, denom (gsu_stake s)), mss_block_id = b, mss_transaction_id = hash\<rparr>],
         gr_suppliers := [\<lparr>su_id = operator, su_operator = operator, su_owner = gsu_owner s, su_stake_amount = stake,
           su_stake_denom = denom (gsu_stake s), su_status = Staked, su_unstaking_end_height = None,
           su_unstaking_end_block = None, su_unstaking_begin_block = None, su_unstaking_reason = None\<rparr>],
         gr_messages := [genesis_message mid ''/pocket.supplier.MsgStakeSupplier''
           (en_message en (StakeSupplier operator (gsu_owner s) (gsu_owner s) (Some (gsu_stake s))
             (map (genesis_raw_service en) (gsu_services s)))) hash b],
         gr_stake_supplier_services := map (\<lambda>v. \<lparr>msv_id = get_msg_stake_service_id mid (gss_service v),
             msv_stake_msg = mid, msv_service = gss_service v, msv_endpoints = genesis_endpoints en v,
             msv_rev_share = genesis_rev_share v\<rparr>) (gsu_services s),
         gr_supplier_services := map (\<lambda>v. \<lparr>sc_id = get_stake_service_id operator (gss_service v),
             sc_service = gss_service v, sc_supplier = operator, sc_endpoints = genesis_endpoints en v,
             sc_rev_share = genesis_rev_share v, sc_domains = [], sc_activated_at = None, sc_activated_event = None\<rparr>)
           (gsu_services s)\<rparr>)))"

text \<open>The id of a delegation's message is made of the gateway alone.\<close>

definition handle_genesis_application :: "genesis_env \<Rightarrow> int \<Rightarrow> nat \<Rightarrow> genesis_app \<Rightarrow> genesis_rows res" where
  "handle_genesis_application en b i a =
     bind_res (get_genesis_fake_tx_hash FakeApp i) (\<lambda>hash.
     bind_res (big_int (amount (gap_stake a))) (\<lambda>stake.
       let addr = gap_address a; mid = genesis_id addr in
       Inr (no_rows\<lparr>
         gr_transactions := [genesis_transaction hash b None None],
         gr_delegates := map (\<lambda>g. \<lparr>mag_id = genesis_id g, mag_application_id = addr, mag_gateway_id = g,
             mag_transaction_id = hash, mag_block_id = b\<rparr>) (gap_gateways a),
         gr_app_gateways := map (\<lambda>g. \<lparr>ag_id = get_app_delegated_to_gateway_id addr g, ag_gateway_id = g,
             ag_application_id = addr\<rparr>) (gap_gateways a),
         gr_stake_apps := [\<lparr>msa_id = mid, msa_transaction_id = hash, msa_block_id = b, msa_application_id = addr,
             msa_stake_amount = stake, msa_stake_denom = denom (gap_stake a)\<rparr>],
         gr_apps := [\<lparr>app_id = addr, app_account_id = addr, app_stake_amount = stake, app_stake_denom = denom (gap_stake a),
             app_stake_status = Staked, app_transferring_to = None, app_transfer_end_height = None,
             app_transfer_end_block = None, app_unstaking_begin_block = None, app_unstaking_end_block = None,
             app_unstaking_reason = None, app_unstaking_end_height = None, app_destination = None, app_source = None,
             app_transferred_from_at = None\<rparr>],
         gr_messages := [genesis_message mid ''/pocket.application.MsgStakeApplication''
             (en_message en (StakeApplication addr (Some (gap_stake a)) (gap_services a))) hash b],
         gr_stake_app_services := map (\<lambda>v. \<lparr>mas_id = get_msg_stake_service_id mid v, mas_service_id = v, mas_msg_id = mid\<rparr>)
             (gap_services a),
         gr_app_services := map (\<lambda>v. \<lparr>as_id = get_stake_service_id addr v, as_service_id = v, as_application_id = addr\<rparr>)
             (gap_services a)\<rparr>)))"

definition handle_genesis_gateway :: "genesis_env \<Rightarrow> int \<Rightarrow> nat \<Rightarrow> genesis_gateway \<Rightarrow> genesis_rows res" where
  "handle_genesis_gateway en b i g =
     bind_res (get_genesis_fake_tx_hash FakeGateway i) (\<lambda>hash.
     bind_res (big_int (amount (gga_stake g))) (\<lambda>stake.
       let addr = gga_address g; mid = genesis_id addr in
       Inr (no_rows\<lparr>
         gr_transactions := [genesis_transaction hash b None None],
         gr_stake_gateways := [\<lparr>msg_id = mid, msg_gateway_id = addr, msg_stake = (stake, denom (gga_stake g)),
             msg_block_id = b, msg_transaction_id = hash\<rparr>],
         gr_gateways := [\<lparr>gw_id = addr, gw_account_id = addr, gw_stake_amount = stake, gw_stake_denom = denom (gga_stake g),
             gw_stake_status = Staked, gw_unstaking_end_height = None, gw_unstaking_end_block = None,
             gw_unstaking_begin_block = None\<rparr>],
         gr_messages := [genesis_message mid ''/pocket.gateway.MsgStakeGateway''
             (en_message en (StakeGateway addr (Some (gga_stake g)))) hash b]\<rparr>)))"

subsection \<open>Validators\<close>

definition msg_create_validator_type :: string where
  "msg_create_validator_type = ''/cosmos.staking.v1beta1.MsgCreateValidator''"

definition commission_texts :: "string \<times> string \<times> string \<Rightarrow> flat" where
  "commission_texts = (\<lambda>(rate, max_rate, max_change).
     [(''rate'', Some rate), (''maxRate'', Some max_rate), (''maxChangeRate'', Some max_change)])"

definition handle_msg_create_validator :: "crypto \<Rightarrow> int \<Rightarrow> nat \<Rightarrow> gen_tx \<Rightarrow> msg_create_validator res" where
  "handle_msg_create_validator c b i t =
     bind_res (get_genesis_fake_tx_hash FakeValidator i) (\<lambda>hash.
     bind_res (bind_res (c_from_base64 c (gt_signer_key t)) (\<lambda>k. pub_key_to_address c Secp256k1 k (Some VALIDATOR_PREFIX) False)) (\<lambda>oper.
     bind_res (bind_res (c_from_base64 c (gt_signer_key t)) (\<lambda>k. pub_key_to_address c Secp256k1 k (Some PREFIX) False)) (\<lambda>addr.
     if oper \<noteq> gt_validator t then
       throw (''[handleGenesisGenTxs] gen_tx '' @ show_nat i @ '': derived signer address '' @ oper @
         '' != msg validator_address '' @ gt_validator t)
     else
       bind_res (bind_res (c_from_base64 c (snd (gt_pubkey t))) (\<lambda>k. pub_key_to_address c Ed25519 k None False)) (\<lambda>address.
       bind_res (big_int (amount (gt_value t))) (\<lambda>stake.
         Inr \<lparr>mcv_id = dash ''genesis-gen-txs'' (dash (show_nat i) ''0''), mcv_pubkey = gt_pubkey t, mcv_address = address,
           mcv_signer = oper, mcv_signer_pokt = addr, mcv_description = Some (gt_description t),
           mcv_commission = Some (commission_texts (gt_commission t)), mcv_min_self = parse_int (gt_min_self t),
           mcv_stake = (stake, denom (gt_value t)), mcv_transaction_id = hash, mcv_block_id = b\<rparr>)))))"

definition map_genesis_bond_status :: "string \<Rightarrow> stake_status" where
  "map_genesis_bond_status s =
     (if s = ''BOND_STATUS_BONDED'' then Staked
      else if s = ''BOND_STATUS_UNBONDING'' then Unstaking
      else Unstaked)"

text \<open>The decimal \<open>dec\<close> scaled by \<open>10 ^ 18\<close>, digits past the eighteenth cut off.\<close>

definition dec_to_scaled_int :: "string \<Rightarrow> string" where
  "dec_to_scaled_int dec =
     (let parts = split_on (CHR ''.'') dec; i = hd parts; frac = (case tl parts of [] \<Rightarrow> [] | f # _ \<Rightarrow> f);
          padded = frac @ replicate (18 - length frac) (CHR ''0'');
          scaled = dropWhile (\<lambda>ch. ch = CHR ''0'') (i @ take 18 padded) in
      if scaled = [] then ''0'' else scaled)"

definition valoper_to_pokt_prefix :: "crypto \<Rightarrow> genesis_env \<Rightarrow> string \<Rightarrow> string res" where
  "valoper_to_pokt_prefix c en operator = map_res (c_to_bech32 c PREFIX) (en_from_bech32 en operator)"

definition handle_genesis_staking_validator ::
  "crypto \<Rightarrow> genesis_env \<Rightarrow> int \<Rightarrow> nat \<Rightarrow> genesis_validator \<Rightarrow> msg_create_validator res" where
  "handle_genesis_staking_validator c en b i v =
     (let operator = gv_operator v; (rate, max_rate, max_change) = gv_rates v in
      bind_res (bind_res (c_from_base64 c (snd (gv_pubkey v))) (\<lambda>k. pub_key_to_address c Ed25519 k None False)) (\<lambda>address.
      bind_res (valoper_to_pokt_prefix c en operator) (\<lambda>addr.
      bind_res (big_int (gv_tokens v)) (\<lambda>stake.
      bind_res (get_genesis_fake_tx_hash FakeValidator i) (\<lambda>hash.
        Inr \<lparr>mcv_id = dash ''genesis-staking-validator'' operator, mcv_pubkey = gv_pubkey v, mcv_address = address,
          mcv_signer = operator, mcv_signer_pokt = addr,
          mcv_description = Some [(''moniker'', Some (gv_moniker v)), (''identity'', gv_identity v),
            (''website'', gv_website v), (''securityContact'', gv_security_contact v), (''details'', gv_details v)],
          mcv_commission = Some (commission_texts (dec_to_scaled_int rate, dec_to_scaled_int max_rate,
            dec_to_scaled_int max_change)),
          mcv_min_self = parse_int (if gv_min_self v = [] then ''0'' else gv_min_self v),
          mcv_stake = (stake, ''upokt''), mcv_transaction_id = hash, mcv_block_id = b\<rparr>)))))"

definition validator_rows :: "string \<Rightarrow> int \<Rightarrow> msg_create_validator \<Rightarrow> string \<Rightarrow> stake_status \<Rightarrow> string \<Rightarrow> genesis_rows" where
  "validator_rows chain b m operator status js = no_rows\<lparr>
     gr_accounts := [\<lparr>ap_id = mcv_signer m, ap_chain_id = chain, ap_module = None\<rparr>,
       \<lparr>ap_id = mcv_signer_pokt m, ap_chain_id = chain, ap_module = None\<rparr>],
     gr_create_validators := [m],
     gr_validators := [(created_validator m operator)\<lparr>va_status := status\<rparr>],
     gr_messages := [genesis_message (mcv_id m) msg_create_validator_type js (mcv_transaction_id m) b],
     gr_transactions := [genesis_transaction (mcv_transaction_id m) b (Some (mcv_signer m)) None]\<rparr>"

definition handle_gen_tx :: "crypto \<Rightarrow> genesis_env \<Rightarrow> string \<Rightarrow> int \<Rightarrow> nat \<Rightarrow> gen_tx \<Rightarrow> genesis_rows res" where
  "handle_gen_tx c en chain b i t = (case gt_type t of
     None \<Rightarrow> throw ''[handleGenesisGenTxs] Null/Undefined gen_t.body.messages[0].@type: undefined''
   | Some ty \<Rightarrow>
       if ty = msg_create_validator_type then
         map_res (\<lambda>m. validator_rows chain b m (gt_validator t) Staked (en_gen_tx en t)) (handle_msg_create_validator c b i t)
       else throw (''[handleGenesisGenTxs] Unknown gen_txs type: '' @ ty))"

text \<open>A validator that has a creation transaction is skipped; the placeholders continue after those.\<close>

definition handle_exported_validator ::
  "crypto \<Rightarrow> genesis_env \<Rightarrow> string \<Rightarrow> int \<Rightarrow> nat \<Rightarrow> string list \<Rightarrow> nat \<Rightarrow> genesis_validator \<Rightarrow> genesis_rows res" where
  "handle_exported_validator c en chain b n created j v =
     (if gv_operator v \<in> set created then Inr no_rows
      else map_res (\<lambda>m. validator_rows chain b m (gv_operator v) (map_genesis_bond_status (gv_status v)) (en_validator en v))
        (handle_genesis_staking_validator c en b (n + j) v))"

definition handle_genesis_gen_txs :: "crypto \<Rightarrow> genesis_env \<Rightarrow> string \<Rightarrow> int \<Rightarrow> genesis \<Rightarrow> genesis_rows res" where
  "handle_genesis_gen_txs c en chain b g =
     bind_res (add_all (handle_gen_tx c en chain b) (ge_gen_txs g)) (\<lambda>r.
     map_res (add_rows r) (add_all (handle_exported_validator c en chain b (length (ge_gen_txs g))
       (map gt_validator (ge_gen_txs g))) (ge_validators g)))"

subsection \<open>Accounts, balances, grants, supply and parameters\<close>

definition balance_rows :: "int \<Rightarrow> string \<Rightarrow> coin \<Rightarrow> genesis_rows res" where
  "balance_rows b addr coin = map_res (\<lambda>a. no_rows\<lparr>
       gr_genesis_balances := [\<lparr>gb_id = get_balance_id addr (denom coin), gb_amount = a, gb_denom = denom coin, gb_account = addr\<rparr>],
       gr_balances := [\<lparr>bal_id = get_balance_id addr (denom coin), bal_account_id = addr, bal_denom = Some (denom coin),
         bal_amount = a, last_updated_block_id = b\<rparr>]\<rparr>)
     (big_int (amount coin))"

definition genesis_module_accounts :: "string \<Rightarrow> int \<Rightarrow> extended_account list \<Rightarrow> genesis_rows res" where
  "genesis_module_accounts chain b accounts =
     add_all (\<lambda>_ (base, m, coins). map_res (\<lambda>r. r\<lparr>gr_accounts := [\<lparr>ap_id = ba_address base, ap_chain_id = chain,
         ap_module = Some (get_module_account_props base m)\<rparr>]\<rparr>)
       (add_all (\<lambda>_. balance_rows b (ba_address base)) coins)) accounts"

definition account_address :: "genesis_account \<Rightarrow> string" where
  "account_address a = (case a of ModuleGenesisAccount addr \<Rightarrow> text_or_empty addr
     | BaseGenesisAccount addr \<Rightarrow> text_or_empty addr | UnknownGenesisAccount \<Rightarrow> [])"

definition plain_account :: "string \<Rightarrow> string \<Rightarrow> account_params" where
  "plain_account chain addr = \<lparr>ap_id = addr, ap_chain_id = chain, ap_module = None\<rparr>"

definition handle_genesis_balances :: "string \<Rightarrow> int \<Rightarrow> genesis \<Rightarrow> genesis_rows res" where
  "handle_genesis_balances chain b g =
     map_res (\<lambda>r. r\<lparr>gr_accounts := map (plain_account chain)
         (js_set (filter (\<lambda>a. a \<noteq> []) (map account_address (ge_accounts g)) @ map fst (ge_balances g)))\<rparr>)
       (add_all (\<lambda>_ (addr, coins). add_all (\<lambda>_. balance_rows b addr) coins) (ge_balances g))"

text \<open>The authorizations of the file are given with their granter, grantee, type and message.\<close>

definition handle_genesis_authz :: "string \<Rightarrow> int \<Rightarrow> genesis \<Rightarrow> genesis_rows" where
  "handle_genesis_authz chain b g = no_rows\<lparr>
     gr_accounts := map (plain_account chain) (js_set (concat (map (\<lambda>a. [gz_granter a, gz_grantee a]) (ge_authz g)))),
     gr_authz := map (\<lambda>a. a\<lparr>gz_id := get_authz_id (gz_granter a) (gz_msg a) (gz_grantee a), gz_event := ''genesis'',
       gz_block_id := b\<rparr>) (ge_authz g)\<rparr>"

definition save_params :: "genesis_env \<Rightarrow> int \<Rightarrow> string \<Rightarrow> (string \<times> json) list \<Rightarrow> param list" where
  "save_params en b ns params = map (\<lambda>(k, v). \<lparr>pa_id = get_param_id ns k, pa_namespace = ns, pa_key = k,
     pa_value = sanitize (en_json en) v, pa_block_id = b\<rparr>) params"

definition param_namespaces :: "string list" where
  "param_namespaces = [''application'', ''auth'', ''bank'', ''distribution'', ''gateway'', ''gov'', ''mint'', ''proof'',
     ''service'', ''session'', ''shared'', ''slashing'', ''staking'', ''supplier'', ''tokenomics'', ''consensus'']"

definition handle_genesis_params :: "genesis_env \<Rightarrow> int \<Rightarrow> genesis \<Rightarrow> genesis_rows" where
  "handle_genesis_params en b g =
     no_rows\<lparr>gr_params := concat (map (\<lambda>ns. save_params en b ns (ge_params g ns)) param_namespaces)\<rparr>"

definition handle_genesis_supply_denom :: "genesis \<Rightarrow> genesis_rows" where
  "handle_genesis_supply_denom g = no_rows\<lparr>gr_supply_denoms := map denom (ge_supply g)\<rparr>"

definition handle_genesis_supply :: "nat \<Rightarrow> genesis \<Rightarrow> genesis_rows res" where
  "handle_genesis_supply h g =
     map_res (\<lambda>rows. no_rows\<lparr>gr_supplies := rows\<rparr>) (mapM_res (\<lambda>coin. get_supply_record coin h) (ge_supply g))"

definition handle_genesis_event :: genesis_rows where
  "handle_genesis_event = no_rows\<lparr>gr_events := [''genesis'']\<rparr>"

text \<open>The whole file, kept as text.\<close>

definition genesis_entity :: "genesis_env \<Rightarrow> nat \<Rightarrow> genesis \<Rightarrow> genesis_rows" where
  "genesis_entity en h g = no_rows\<lparr>gr_entities := [(show_nat h, en_raw en g)]\<rparr>"

subsection \<open>The handler\<close>

text \<open>\<open>None\<close> for a block that is not the first; an initial height of zero counts as one.\<close>

definition initial_height :: "genesis \<Rightarrow> nat" where
  "initial_height g = (if ge_initial_height g = 0 then 1 else ge_initial_height g)"

definition genesis_parts ::
  "crypto \<Rightarrow> genesis_env \<Rightarrow> string \<Rightarrow> nat \<Rightarrow> extended_account list res \<Rightarrow> genesis \<Rightarrow> genesis_rows res list" where
  "genesis_parts c en chain h accounts g =
     (let b = get_block_id h in
      [add_all (handle_genesis_service en b) (ge_services g),
       add_all (handle_genesis_supplier en b) (ge_suppliers g),
       add_all (handle_genesis_application en b) (ge_apps g),
       add_all (handle_genesis_gateway en b) (ge_gateways g),
       handle_genesis_gen_txs c en chain b g,
       bind_res accounts (genesis_module_accounts chain b),
       handle_genesis_balances chain b g,
       Inr (handle_genesis_authz chain b g),
       Inr (handle_genesis_supply_denom g),
       handle_genesis_supply h g,
       Inr handle_genesis_event,
       Inr (handle_genesis_params en b g),
       Inr (genesis_entity en h g)])"

definition handle_genesis ::
  "crypto \<Rightarrow> genesis_env \<Rightarrow> string \<Rightarrow> nat \<Rightarrow> extended_account list res \<Rightarrow> genesis \<Rightarrow> genesis_rows option res" where
  "handle_genesis c en chain h accounts g =
     (if h \<noteq> initial_height g then Inr None
      else map_res (\<lambda>rs. Some (foldl add_rows no_rows rs)) (mapM_res (\<lambda>r. r) (genesis_parts c en chain h accounts g)))"

subsection \<open>The ids of the placeholders\<close>

lemma add_rows_simps [simp]:
  "gr_transactions (add_rows r s) = gr_transactions r @ gr_transactions s" "gr_transactions no_rows = []"
  "gr_delegates (add_rows r s) = gr_delegates r @ gr_delegates s" "gr_delegates no_rows = []"
  by (simp_all add: add_rows_def no_rows_def)

lemma foldl_add_rows:
  "gr_transactions (foldl add_rows r rs) = gr_transactions r @ concat (map gr_transactions rs)"
  "gr_delegates (foldl add_rows r rs) = gr_delegates r @ concat (map gr_delegates rs)"
  by (induction rs arbitrary: r) simp_all

lemma add_all_rows:
  assumes "add_all f xs = Inr r"
  shows "\<exists>rs. list_all2 (\<lambda>(i, x) s. f i x = Inr s) (zip [0 ..< length xs] xs) rs \<and> r = foldl add_rows no_rows rs"
proof -
  have "\<exists>rs. list_all2 (\<lambda>(i, x) s. f i x = Inr s) ps rs \<and> r = foldl add_rows acc rs"
    if "foldM_res (\<lambda>acc (i, x). map_res (add_rows acc) (f i x)) acc ps = Inr r" for acc ps
    using that
  proof (induction ps arbitrary: acc)
    case (Cons p ps)
    obtain i x where p: "p = (i, x)" by force
    from Cons.prems obtain s where s: "f i x = Inr s"
      and rest: "foldM_res (\<lambda>acc (i, x). map_res (add_rows acc) (f i x)) (add_rows acc s) ps = Inr r"
      by (auto simp: p bind_eq_Inr map_res_eq_Inr)
    from Cons.IH [OF rest] obtain rs where "list_all2 (\<lambda>(i, x) s. f i x = Inr s) ps rs" "r = foldl add_rows (add_rows acc s) rs"
      by blast
    with s p show ?case by (intro exI [of _ "s # rs"]) simp
  qed (auto intro: exI [of _ "[]"])
  from this [OF assms [unfolded add_all_def]] show ?thesis .
qed

text \<open>What the rows of each element give, one after the other.\<close>

lemma add_all_concat:
  assumes "add_all f xs = Inr r" and "\<And>i x s. i < length xs \<Longrightarrow> x = xs ! i \<Longrightarrow> f i x = Inr s \<Longrightarrow> P i s"
    and "\<And>i s. P i s \<Longrightarrow> g s = v i" and "\<And>rs. g (foldl add_rows no_rows rs) = concat (map g rs)"
  shows "g r = concat (map v [0 ..< length xs])" and "\<forall>i < length xs. \<exists>s. P i s"
proof -
  obtain rs where rs: "list_all2 (\<lambda>(i, x) s. f i x = Inr s) (zip [0 ..< length xs] xs) rs" and r: "r = foldl add_rows no_rows rs"
    using add_all_rows [OF assms(1)] by blast
  have len: "length rs = length xs" using list_all2_lengthD [OF rs] by simp
  have P: "P i (rs ! i)" if "i < length xs" for i
    using list_all2_nthD [OF rs, of i] that assms(2) by simp
  then have "map g rs = map v [0 ..< length xs]"
    using assms(3) len by (auto intro: nth_equalityI)
  then show "g r = concat (map v [0 ..< length xs])" by (simp add: r assms(4))
  show "\<forall>i < length xs. \<exists>s. P i s" using P by blast
qed

definition genesis_hash :: "fake_tx_type \<times> nat \<Rightarrow> string" where
  "genesis_hash = (\<lambda>(k, i). case get_genesis_fake_tx_hash k i of Inr h \<Rightarrow> h | Inl _ \<Rightarrow> [])"

definition has_hash :: "fake_tx_type \<times> nat \<Rightarrow> bool" where
  "has_hash = (\<lambda>(k, i). \<exists>h. get_genesis_fake_tx_hash k i = Inr h)"

lemma genesis_hash_inject: "has_hash p \<Longrightarrow> has_hash q \<Longrightarrow> genesis_hash p = genesis_hash q \<Longrightarrow> p = q"
  using get_genesis_fake_tx_hash_inject by (auto simp: has_hash_def genesis_hash_def)

text \<open>The transactions of one element have the placeholder of the key, or there are none.\<close>

definition has_keys :: "genesis_rows \<Rightarrow> (fake_tx_type \<times> nat) list \<Rightarrow> bool" where
  "has_keys s ks \<longleftrightarrow> map tn_id (gr_transactions s) = map genesis_hash ks \<and> list_all has_hash ks"

lemma has_keys_one:
  "handle_genesis_service en b i x = Inr s \<Longrightarrow> has_keys s [(FakeService, 0)]"
  "handle_genesis_supplier en b i y = Inr s \<Longrightarrow> has_keys s [(FakeSupplier, i)]"
  "handle_genesis_application en b i a = Inr s \<Longrightarrow> has_keys s [(FakeApp, i)]"
  "handle_genesis_gateway en b i g = Inr s \<Longrightarrow> has_keys s [(FakeGateway, i)]"
  "handle_gen_tx c en chain b i t = Inr s \<Longrightarrow> has_keys s [(FakeValidator, i)]"
  "handle_exported_validator c en chain b n created j v = Inr s \<Longrightarrow>
     has_keys s (if gv_operator v \<in> set created then [] else [(FakeValidator, n + j)])"
  by (auto simp: has_keys_def has_hash_def genesis_hash_def genesis_transaction_def handle_genesis_service_def
      handle_genesis_supplier_def handle_genesis_application_def handle_genesis_gateway_def handle_gen_tx_def
      handle_msg_create_validator_def handle_exported_validator_def handle_genesis_staking_validator_def
      validator_rows_def no_rows_def res_eq_Inr Let_def split: if_splits option.splits prod.splits)

lemma has_keys_all:
  assumes "add_all f xs = Inr r" and "\<And>i s. i < length xs \<Longrightarrow> f i (xs ! i) = Inr s \<Longrightarrow> has_keys s (ks i)"
  shows "has_keys r (concat (map ks [0 ..< length xs]))"
proof -
  have sub: "\<And>i x s. i < length xs \<Longrightarrow> x = xs ! i \<Longrightarrow> f i x = Inr s \<Longrightarrow> has_keys s (ks i)" using assms(2) by blast
  have tx: "map tn_id (gr_transactions r) = concat (map (\<lambda>i. map genesis_hash (ks i)) [0 ..< length xs])"
    by (rule add_all_concat(1) [OF assms(1), where P = "\<lambda>i s. has_keys s (ks i)", OF sub])
      (auto simp: has_keys_def foldl_add_rows map_concat comp_def)
  have "\<forall>i < length xs. \<exists>s. has_keys s (ks i)"
    by (rule add_all_concat(2) [OF assms(1), where P = "\<lambda>i s. has_keys s (ks i)" and g = "map tn_id \<circ> gr_transactions"
        and v = "\<lambda>i. map genesis_hash (ks i)", OF sub])
      (auto simp: has_keys_def foldl_add_rows map_concat comp_def)
  with tx show ?thesis by (auto simp: has_keys_def map_concat comp_def list_all_iff)
qed

lemma add_all_empty:
  assumes "add_all f xs = Inr r" and "\<And>i x s. f i x = Inr s \<Longrightarrow> g s = []"
    and "\<And>rs. g (foldl add_rows no_rows rs) = concat (map g rs)"
  shows "g r = []"
proof -
  obtain rs where rs: "list_all2 (\<lambda>(i, x) s. f i x = Inr s) (zip [0 ..< length xs] xs) rs" "r = foldl add_rows no_rows rs"
    using add_all_rows [OF assms(1)] by blast
  have "g s = []" if s: "s \<in> set rs" for s
  proof -
    obtain i where i: "i < length rs" "rs ! i = s" using s by (auto simp: in_set_conv_nth)
    have "i < length xs" using i(1) list_all2_lengthD [OF rs(1)] by simp
    then show ?thesis using list_all2_nthD2 [OF rs(1) i(1)] i(2) assms(2) by simp
  qed
  then show ?thesis by (simp add: rs(2) assms(3))
qed

lemmas additive [simp] = foldl_add_rows [where r = no_rows, simplified]

lemma balance_rows_none: "add_all (\<lambda>_. balance_rows b addr) coins = Inr r \<Longrightarrow> gr_transactions r = [] \<and> gr_delegates r = []"
proof -
  assume run: "add_all (\<lambda>_. balance_rows b addr) coins = Inr r"
  have "gr_transactions s = [] \<and> gr_delegates s = []" if "balance_rows b addr x = Inr s" for x s
    using that by (auto simp: balance_rows_def res_eq_Inr no_rows_def)
  with add_all_empty [OF run, where g = gr_transactions] add_all_empty [OF run, where g = gr_delegates]
  show ?thesis by simp
qed

lemma no_transactions:
  "genesis_module_accounts chain b accounts = Inr r \<Longrightarrow> gr_transactions r = [] \<and> gr_delegates r = []"
  "handle_genesis_balances chain b g = Inr r \<Longrightarrow> gr_transactions r = [] \<and> gr_delegates r = []"
  "handle_genesis_supply h g = Inr r \<Longrightarrow> gr_transactions r = [] \<and> gr_delegates r = []"
proof -
  let ?f = "\<lambda>(i :: nat) (base, m, coins). map_res (\<lambda>r. r\<lparr>gr_accounts := [\<lparr>ap_id = ba_address base, ap_chain_id = chain,
    ap_module = Some (get_module_account_props base m)\<rparr>]\<rparr>) (add_all (\<lambda>_. balance_rows b (ba_address base)) coins)"
  assume run: "genesis_module_accounts chain b accounts = Inr r"
  have one: "gr_transactions s = [] \<and> gr_delegates s = []" if "?f i x = Inr s" for i x s
    using that balance_rows_none by (auto simp: map_res_eq_Inr split: prod.splits)
  show "gr_transactions r = [] \<and> gr_delegates r = []"
    using add_all_empty [OF run [unfolded genesis_module_accounts_def], where g = gr_transactions]
      add_all_empty [OF run [unfolded genesis_module_accounts_def], where g = gr_delegates] one by simp
next
  let ?f = "\<lambda>(i :: nat) (addr, coins). add_all (\<lambda>_. balance_rows b addr) coins"
  assume run: "handle_genesis_balances chain b g = Inr r"
  then obtain r1 where r1: "add_all ?f (ge_balances g) = Inr r1"
    and r: "gr_transactions r = gr_transactions r1" "gr_delegates r = gr_delegates r1"
    by (auto simp: handle_genesis_balances_def map_res_eq_Inr)
  have one: "gr_transactions s = [] \<and> gr_delegates s = []" if "?f i x = Inr s" for i x s
    using that balance_rows_none by (auto split: prod.splits)
  show "gr_transactions r = [] \<and> gr_delegates r = []"
    using add_all_empty [OF r1, where g = gr_transactions] add_all_empty [OF r1, where g = gr_delegates] one r by simp
next
  show "handle_genesis_supply h g = Inr r \<Longrightarrow> gr_transactions r = [] \<and> gr_delegates r = []"
    by (auto simp: handle_genesis_supply_def map_res_eq_Inr no_rows_def)
qed

lemma no_delegates:
  "handle_genesis_service en b i x = Inr s \<Longrightarrow> gr_delegates s = []"
  "handle_genesis_supplier en b i y = Inr s \<Longrightarrow> gr_delegates s = []"
  "handle_genesis_gateway en b i g = Inr s \<Longrightarrow> gr_delegates s = []"
  "handle_gen_tx c en chain b i t = Inr s \<Longrightarrow> gr_delegates s = []"
  "handle_exported_validator c en chain b n created j v = Inr s \<Longrightarrow> gr_delegates s = []"
  by (auto simp: handle_genesis_service_def handle_genesis_supplier_def handle_genesis_gateway_def handle_gen_tx_def
      handle_exported_validator_def validator_rows_def no_rows_def res_eq_Inr Let_def split: if_splits option.splits prod.splits)

text \<open>The delegations of one application.\<close>

definition delegations :: "genesis_app \<Rightarrow> (string \<times> string \<times> string) list" where
  "delegations a = map (\<lambda>gw. (genesis_id gw, gap_address a, gw)) (gap_gateways a)"

definition delegate_ids :: "genesis_rows \<Rightarrow> (string \<times> string \<times> string) list" where
  "delegate_ids r = map (\<lambda>d. (mag_id d, mag_application_id d, mag_gateway_id d)) (gr_delegates r)"

lemma delegate_ids_one: "handle_genesis_application en b i a = Inr s \<Longrightarrow> delegate_ids s = delegations a"
  by (auto simp: handle_genesis_application_def delegate_ids_def delegations_def res_eq_Inr no_rows_def Let_def)

lemma delegate_ids_all:
  assumes "add_all (handle_genesis_application en b) as = Inr r"
  shows "delegate_ids r = concat (map delegations as)"
proof -
  have "delegate_ids r = concat (map (\<lambda>i. delegations (as ! i)) [0 ..< length as])"
    by (rule add_all_concat(1) [OF assms, where P = "\<lambda>i s. delegate_ids s = delegations (as ! i)"])
      (auto simp: delegate_ids_one, simp add: delegate_ids_def map_concat comp_def)
  also have "map (\<lambda>i. delegations (as ! i)) [0 ..< length as] = map delegations as"
    by (simp add: map_nth flip: map_map [of delegations "(!) as", unfolded comp_def])
  finally show ?thesis .
qed

text \<open>The keys of the entities that are not services, in the order of the transactions.\<close>

definition entity_keys :: "genesis \<Rightarrow> (fake_tx_type \<times> nat) list" where
  "entity_keys g = map (Pair FakeSupplier) [0 ..< length (ge_suppliers g)] @
     map (Pair FakeApp) [0 ..< length (ge_apps g)] @ map (Pair FakeGateway) [0 ..< length (ge_gateways g)] @
     map (Pair FakeValidator) [0 ..< length (ge_gen_txs g)] @
     map (\<lambda>j. (FakeValidator, length (ge_gen_txs g) + j))
       (filter (\<lambda>j. gv_operator (ge_validators g ! j) \<notin> set (map gt_validator (ge_gen_txs g))) [0 ..< length (ge_validators g)])"

lemma distinct_entity_keys: "distinct ((FakeService, 0) # entity_keys g)"
  by (auto simp: entity_keys_def distinct_map inj_on_def)

lemma length_filter_nth: "length (filter (\<lambda>j. P (xs ! j)) [0 ..< length xs]) = length (filter P xs)"
proof -
  have "filter P xs = map ((!) xs) (filter (P \<circ> (!) xs) [0 ..< length xs])"
    by (metis filter_map map_nth)
  then show ?thesis by (simp add: comp_def)
qed

lemma length_entity_keys: "length (entity_keys g) = length (ge_suppliers g) + length (ge_apps g) +
    length (ge_gateways g) + length (ge_gen_txs g) +
    length (filter (\<lambda>v. gv_operator v \<notin> set (map gt_validator (ge_gen_txs g))) (ge_validators g))"
  using length_filter_nth [of "\<lambda>v. gv_operator v \<notin> set (map gt_validator (ge_gen_txs g))" "ge_validators g"]
  by (simp add: entity_keys_def)

lemma has_keys_append: "has_keys r ks \<Longrightarrow> has_keys s js \<Longrightarrow> has_keys (add_rows r s) (ks @ js)"
  by (simp add: has_keys_def)

lemma concat_single: "concat (map (\<lambda>i. [f i]) xs) = map f xs"
  by (induction xs) simp_all

lemma concat_unless: "concat (map (\<lambda>i. if P i then [] else [f i]) xs) = map f (filter (\<lambda>i. \<not> P i) xs)"
  by (induction xs) simp_all

lemma gen_txs_keys:
  assumes "handle_genesis_gen_txs c en chain b g = Inr r"
  shows "has_keys r (map (Pair FakeValidator) [0 ..< length (ge_gen_txs g)] @
     map (\<lambda>j. (FakeValidator, length (ge_gen_txs g) + j))
       (filter (\<lambda>j. gv_operator (ge_validators g ! j) \<notin> set (map gt_validator (ge_gen_txs g))) [0 ..< length (ge_validators g)]))
     \<and> gr_delegates r = []"
proof -
  let ?f = "handle_exported_validator c en chain b (length (ge_gen_txs g)) (map gt_validator (ge_gen_txs g))"
  obtain r1 r2 where r1: "add_all (handle_gen_tx c en chain b) (ge_gen_txs g) = Inr r1"
    and r2: "add_all ?f (ge_validators g) = Inr r2" and r: "r = add_rows r1 r2"
    using assms by (auto simp: handle_genesis_gen_txs_def bind_eq_Inr map_res_eq_Inr)
  have "has_keys r1 (concat (map (\<lambda>i. [(FakeValidator, i)]) [0 ..< length (ge_gen_txs g)]))"
    by (rule has_keys_all [OF r1]) (rule has_keys_one)
  then have "has_keys r1 (map (Pair FakeValidator) [0 ..< length (ge_gen_txs g)])" by (simp add: concat_single)
  moreover have "has_keys r2 (concat (map (\<lambda>j. if gv_operator (ge_validators g ! j) \<in> set (map gt_validator (ge_gen_txs g))
      then [] else [(FakeValidator, length (ge_gen_txs g) + j)]) [0 ..< length (ge_validators g)]))"
    by (rule has_keys_all [OF r2]) (rule has_keys_one)
  then have "has_keys r2 (map (\<lambda>j. (FakeValidator, length (ge_gen_txs g) + j))
       (filter (\<lambda>j. gv_operator (ge_validators g ! j) \<notin> set (map gt_validator (ge_gen_txs g))) [0 ..< length (ge_validators g)]))"
    unfolding concat_unless .
  moreover have "gr_delegates r1 = []" "gr_delegates r2 = []"
    using add_all_empty [OF r1, where g = gr_delegates] add_all_empty [OF r2, where g = gr_delegates] no_delegates(4,5) by auto
  ultimately show ?thesis unfolding r by (simp add: has_keys_append)
qed

lemma genesis_parts_rows:
  assumes "handle_genesis c en chain h accounts g = Inr (Some rows)"
  shows "has_keys rows (replicate (length (ge_services g)) (FakeService, 0) @ entity_keys g) \<and>
    delegate_ids rows = concat (map delegations (ge_apps g))"
proof -
  let ?b = "get_block_id h"
  obtain r1 r2 r3 r4 r5 r6 r7 r8 where
    r1: "add_all (handle_genesis_service en ?b) (ge_services g) = Inr r1" and
    r2: "add_all (handle_genesis_supplier en ?b) (ge_suppliers g) = Inr r2" and
    r3: "add_all (handle_genesis_application en ?b) (ge_apps g) = Inr r3" and
    r4: "add_all (handle_genesis_gateway en ?b) (ge_gateways g) = Inr r4" and
    r5: "handle_genesis_gen_txs c en chain ?b g = Inr r5" and
    r6: "bind_res accounts (genesis_module_accounts chain ?b) = Inr r6" and
    r7: "handle_genesis_balances chain ?b g = Inr r7" and r8: "handle_genesis_supply h g = Inr r8" and
    rows: "rows = foldl add_rows no_rows [r1, r2, r3, r4, r5, r6, r7, handle_genesis_authz chain ?b g,
      handle_genesis_supply_denom g, r8, handle_genesis_event, handle_genesis_params en ?b g, genesis_entity en h g]"
    using assms
    by (auto simp: handle_genesis_def genesis_parts_def Let_def res_eq_Inr split: if_splits)
  have none: "gr_transactions r6 = []" "gr_delegates r6 = []" "gr_transactions r7 = []" "gr_delegates r7 = []"
    "gr_transactions r8 = []" "gr_delegates r8 = []"
    using no_transactions r6 r7 r8 by (auto simp: bind_eq_Inr)
  have rest: "gr_transactions (handle_genesis_authz chain ?b g) = []" "gr_delegates (handle_genesis_authz chain ?b g) = []"
    "gr_transactions (handle_genesis_supply_denom g) = []" "gr_delegates (handle_genesis_supply_denom g) = []"
    "gr_transactions handle_genesis_event = []" "gr_delegates handle_genesis_event = []"
    "gr_transactions (handle_genesis_params en ?b g) = []" "gr_delegates (handle_genesis_params en ?b g) = []"
    "gr_transactions (genesis_entity en h g) = []" "gr_delegates (genesis_entity en h g) = []"
    by (simp_all add: handle_genesis_authz_def handle_genesis_supply_denom_def handle_genesis_event_def
        handle_genesis_params_def genesis_entity_def no_rows_def)
  have "has_keys r1 (concat (map (\<lambda>_. [(FakeService, 0)]) [0 ..< length (ge_services g)]))"
    by (rule has_keys_all [OF r1]) (rule has_keys_one)
  moreover have "has_keys r2 (concat (map (\<lambda>i. [(FakeSupplier, i)]) [0 ..< length (ge_suppliers g)]))"
    by (rule has_keys_all [OF r2]) (rule has_keys_one)
  moreover have "has_keys r3 (concat (map (\<lambda>i. [(FakeApp, i)]) [0 ..< length (ge_apps g)]))"
    by (rule has_keys_all [OF r3]) (rule has_keys_one)
  moreover have "has_keys r4 (concat (map (\<lambda>i. [(FakeGateway, i)]) [0 ..< length (ge_gateways g)]))"
    by (rule has_keys_all [OF r4]) (rule has_keys_one)
  ultimately have keys: "has_keys r1 (replicate (length (ge_services g)) (FakeService, 0))"
    "has_keys r2 (map (Pair FakeSupplier) [0 ..< length (ge_suppliers g)])"
    "has_keys r3 (map (Pair FakeApp) [0 ..< length (ge_apps g)])"
    "has_keys r4 (map (Pair FakeGateway) [0 ..< length (ge_gateways g)])"
    unfolding concat_single by (simp_all add: map_replicate_const)
  have "gr_transactions rows = gr_transactions r1 @ gr_transactions r2 @ gr_transactions r3 @ gr_transactions r4 @ gr_transactions r5"
    by (simp add: rows none rest)
  then have "has_keys rows (replicate (length (ge_services g)) (FakeService, 0) @ entity_keys g)"
    using keys gen_txs_keys [OF r5] by (simp add: has_keys_def entity_keys_def)
  moreover have "gr_delegates r1 = []" "gr_delegates r2 = []" "gr_delegates r4 = []"
    using add_all_empty [OF r1, where g = gr_delegates] add_all_empty [OF r2, where g = gr_delegates]
      add_all_empty [OF r4, where g = gr_delegates] no_delegates(1-3) by auto
  then have "delegate_ids rows = delegate_ids r3" using gen_txs_keys [OF r5] by (simp add: rows none rest delegate_ids_def)
  ultimately show ?thesis using delegate_ids_all [OF r3] by simp
qed

text \<open>
  C30: the placeholder transactions of genesis. Suppliers, applications, gateways, creation transactions
  and the exported validators without one get a transaction each, all with different ids, none of them
  that of the services; but all services get the same id, so that the ids are different only when there
  is at most one service. The ids of the delegations' messages are made of the gateway alone, so two
  applications of one gateway get the same.
\<close>

theorem genesis_ids:
  assumes "handle_genesis c en chain h accounts g = Inr (Some rows)"
  shows "\<exists>ids. map tn_id (gr_transactions rows) = replicate (length (ge_services g)) (genesis_hash (FakeService, 0)) @ ids \<and>
      distinct ids \<and> length ids = length (ge_suppliers g) + length (ge_apps g) + length (ge_gateways g) + length (ge_gen_txs g) +
        length (filter (\<lambda>v. gv_operator v \<notin> set (map gt_validator (ge_gen_txs g))) (ge_validators g)) \<and>
      (distinct (map tn_id (gr_transactions rows)) = (length (ge_services g) \<le> 1)) \<and>
      delegate_ids rows = concat (map delegations (ge_apps g))"
proof -
  let ?s = "genesis_hash (FakeService, 0)" and ?ids = "map genesis_hash (entity_keys g)"
  have rows: "has_keys rows (replicate (length (ge_services g)) (FakeService, 0) @ entity_keys g)"
    using genesis_parts_rows [OF assms] by blast
  then have ids: "map tn_id (gr_transactions rows) = replicate (length (ge_services g)) ?s @ ?ids"
    and hashes: "list_all has_hash (entity_keys g)" by (simp_all add: has_keys_def)
  have "has_hash (FakeService, 0)"
    using get_genesis_fake_tx_hash_defined [of 0 FakeService] by (simp add: has_hash_def)
  then have "inj_on genesis_hash (insert (FakeService, 0) (set (entity_keys g)))"
    using hashes genesis_hash_inject by (auto simp: inj_on_def list_all_iff)
  then have dist: "distinct (map genesis_hash ((FakeService, 0) # entity_keys g))"
    using distinct_entity_keys by (simp only: distinct_map list.set)
  then have all: "distinct (map tn_id (gr_transactions rows)) = (length (ge_services g) \<le> 1)"
    unfolding ids by (cases "length (ge_services g)"; cases "length (ge_services g) - 1") auto
  have "delegate_ids rows = concat (map delegations (ge_apps g))" using genesis_parts_rows [OF assms] by blast
  with ids dist all length_entity_keys show ?thesis by (intro exI [of _ ?ids]) simp
qed

definition sample_env :: genesis_env where
  "sample_env = \<lparr>en_rpc_type = \<lambda>_. 3, en_config_key = \<lambda>k. k, en_message = \<lambda>_. ''message'', en_gen_tx = \<lambda>_. ''gen_tx'',
     en_validator = \<lambda>_. ''validator'', en_json = \<lambda>_. ''json'', en_raw = \<lambda>_. ''genesis'', en_from_bech32 = \<lambda>_. Inr []\<rparr>"

definition sample_genesis :: genesis where
  "sample_genesis = \<lparr>ge_initial_height = 0,
     ge_services = map (\<lambda>s. \<lparr>gs_id = s, gs_name = s, gs_owner = ''pokt1owner'', gs_compute_units = 1\<rparr>) [''svc1'', ''svc2''],
     ge_suppliers = [\<lparr>gsu_operator = ''pokt1sup'', gsu_owner = ''pokt1owner'', gsu_stake = \<lparr>amount = ''7'', denom = ''upokt''\<rparr>,
       gsu_services = []\<rparr>],
     ge_apps = map (\<lambda>a. \<lparr>gap_address = a, gap_gateways = [''pokt1gw''], gap_services = [''svc1''],
       gap_stake = \<lparr>amount = ''5'', denom = ''upokt''\<rparr>\<rparr>) [''pokt1app'', ''pokt1bpp''],
     ge_gateways = [\<lparr>gga_address = ''pokt1gw'', gga_stake = \<lparr>amount = ''9'', denom = ''upokt''\<rparr>\<rparr>],
     ge_accounts = [], ge_balances = [], ge_supply = [], ge_authz = [], ge_params = \<lambda>_. [], ge_gen_txs = [],
     ge_validators = []\<rparr>"

theorem genesis_ids_witness:
  "case handle_genesis crypto_example sample_env ''pocket'' 1 (Inr []) sample_genesis of
     Inr (Some rows) \<Rightarrow> \<not> distinct (map tn_id (gr_transactions rows)) \<and>
       delegate_ids rows = [(''genesis-pokt1gw'', ''pokt1app'', ''pokt1gw''), (''genesis-pokt1gw'', ''pokt1bpp'', ''pokt1gw'')]
   | _ \<Rightarrow> False"
proof -
  have "case handle_genesis crypto_example sample_env ''pocket'' 1 (Inr []) sample_genesis of Inr (Some rows) \<Rightarrow> True | _ \<Rightarrow> False"
    by code_simp
  then obtain rows where run: "handle_genesis crypto_example sample_env ''pocket'' 1 (Inr []) sample_genesis = Inr (Some rows)"
    by (auto split: sum.splits option.splits)
  have "\<not> length (ge_services sample_genesis) \<le> 1"
    "concat (map delegations (ge_apps sample_genesis)) =
      [(''genesis-pokt1gw'', ''pokt1app'', ''pokt1gw''), (''genesis-pokt1gw'', ''pokt1bpp'', ''pokt1gw'')]" by code_simp+
  then show ?thesis unfolding run using genesis_ids [OF run] by auto
qed

subsection \<open>Decimal rates\<close>

lemma parse_nat_append: "parse_nat (s @ u) = parse_nat s * 10 ^ length u + parse_nat u"
proof (induction u rule: rev_induct)
  case Nil
  then show ?case by (simp add: parse_nat_def)
next
  case (snoc c u)
  have "parse_nat (s @ u @ [c]) = 10 * parse_nat (s @ u) + digit_val c"
    using parse_nat_snoc [of "s @ u" c] by simp
  with snoc show ?case by (simp add: parse_nat_snoc algebra_simps)
qed

lemma parse_nat_replicate_zero: "parse_nat (replicate k (CHR ''0'')) = 0"
  using parse_nat_zeros [of k "[]"] by (simp add: parse_nat_def)

lemma parse_nat_drop_zeros: "parse_nat (dropWhile (\<lambda>ch. ch = CHR ''0'') s) = parse_nat s"
proof (induction s)
  case (Cons c s)
  then show ?case using parse_nat_zeros [of 1 s] by auto
qed simp

lemma digit_char_val: "is_digit c \<Longrightarrow> digit_char (digit_val c) = c \<and> digit_val c < 10"
proof -
  assume c: "is_digit c"
  define k where "k = (of_char c :: nat) - 48"
  have k: "k < 10" "of_char c = (48 + k :: nat)" using c by (auto simp: is_digit_def k_def)
  have "(of_char (digit_char k) :: nat) = 48 + k" using k(1) by (auto simp: digit_cases digit_char_def)
  then have "digit_char k = c" using k(2) by (metis of_char_eq_iff)
  then show ?thesis using k by (simp add: digit_val_def)
qed

text \<open>A text of digits without leading zeros is the text of its number.\<close>

lemma show_parse_nat: "list_all is_digit s \<Longrightarrow> s \<noteq> [] \<Longrightarrow> hd s \<noteq> CHR ''0'' \<Longrightarrow> show_nat (parse_nat s) = s \<and> 0 < parse_nat s"
proof (induction s rule: rev_induct)
  case (snoc c s)
  have c: "is_digit c" "digit_val c < 10" "digit_char (digit_val c) = c" using snoc.prems digit_char_val by auto
  show ?case
  proof (cases "s = []")
    case True
    then have "c \<noteq> CHR ''0''" using snoc.prems by simp
    then have "0 < digit_val c" using c by (auto simp: digit_char_def intro: gr0I)
    with c show ?thesis by (simp add: True parse_nat_def show_nat.simps [of "digit_val c"])
  next
    case False
    then have s: "show_nat (parse_nat s) = s" "0 < parse_nat s" using snoc by (auto simp: hd_append)
    have "\<not> 10 * parse_nat s + digit_val c < 10" using s(2) by simp
    with s c show ?thesis by (simp add: parse_nat_snoc show_nat.simps [of "10 * parse_nat s + digit_val c"])
  qed
qed simp

lemma scaled_digits: "list_all is_digit s \<Longrightarrow>
    (if dropWhile (\<lambda>ch. ch = CHR ''0'') s = [] then ''0'' else dropWhile (\<lambda>ch. ch = CHR ''0'') s) = show_nat (parse_nat s)"
proof -
  let ?d = "dropWhile (\<lambda>ch. ch = CHR ''0'') s"
  assume s: "list_all is_digit s"
  show ?thesis
  proof (cases "?d = []")
    case True
    then have "parse_nat s = parse_nat []" using parse_nat_drop_zeros [of s] by (simp only: True)
    then have "parse_nat s = 0" by (simp add: parse_nat_def)
    then show ?thesis by (simp add: True show_nat.simps [of 0] digit_char_def)
  next
    case False
    have "list_all is_digit ?d" using s by (auto simp: list_all_iff dest: set_dropWhileD)
    moreover have "hd ?d \<noteq> CHR ''0''" using hd_dropWhile [OF False] .
    ultimately have "show_nat (parse_nat ?d) = ?d" using show_parse_nat [of ?d] False by blast
    then show ?thesis using False parse_nat_drop_zeros [of s] by (simp only: if_False)
  qed
qed

text \<open>
  The commission rates of exported validators. A rate is written in the file as a decimal with
  eighteen places, in the creation messages as an integer scaled by ten to the eighteenth. For every
  decimal text, with any number of digits after the point or no point at all, the conversion is the text
  of the scaled number, digits past the eighteenth place cut off, and without leading zeros.
\<close>

theorem dec_to_scaled_int_spec:
  assumes "list_all is_digit i" "list_all is_digit f"
  shows "dec_to_scaled_int (i @ CHR ''.'' # f) =
      show_nat (parse_nat i * 10 ^ 18 + parse_nat (take 18 f) * 10 ^ (18 - length f)) \<and>
    dec_to_scaled_int i = show_nat (parse_nat i * 10 ^ 18)"
proof -
  have dot: "CHR ''.'' \<notin> set s" if "list_all is_digit s" for s using that by (auto simp: list_all_iff is_digit_def)
  have parts: "split_on (CHR ''.'') (i @ CHR ''.'' # f) = [i, f]" "split_on (CHR ''.'') i = [i]"
    using dot [OF assms(1)] dot [OF assms(2)] by (simp_all add: split_on_append split_on_none)
  have "list_all is_digit (i @ take 18 f @ replicate (18 - length f) (CHR ''0''))"
    "list_all is_digit (i @ replicate 18 (CHR ''0''))"
    using assms by (auto simp: list_all_iff is_digit_def dest: in_set_takeD)
  note scaled = scaled_digits [OF this(1)] scaled_digits [OF this(2)]
  have cut: "take 18 (f @ replicate (18 - length f) (CHR ''0'')) = take 18 f @ replicate (18 - length f) (CHR ''0'')" by simp
  have "dec_to_scaled_int (i @ CHR ''.'' # f) = show_nat (parse_nat (i @ take 18 f @ replicate (18 - length f) (CHR ''0'')))"
    unfolding dec_to_scaled_int_def parts Let_def list.sel list.case cut scaled ..
  moreover have "dec_to_scaled_int i = show_nat (parse_nat (i @ replicate 18 (CHR ''0'')))"
    unfolding scaled(2) [symmetric] by (simp add: dec_to_scaled_int_def parts Let_def)
  ultimately show ?thesis
    by (cases "length f \<le> 18")
      (simp_all add: parse_nat_append parse_nat_replicate_zero algebra_simps flip: power_add)
qed

theorem dec_to_scaled_int_witness:
  "dec_to_scaled_int ''0.05'' = ''50000000000000000'' \<and> dec_to_scaled_int ''2'' = ''2000000000000000000''"
  using dec_to_scaled_int_spec [of "''0''" "''05''"] dec_to_scaled_int_spec [of "''2''" "[]"]
  by (simp add: is_digit_def parse_nat_def digit_val_def show_nat.simps digit_char_def)

end
