(* ===== verification/Indexer.thy ===== *)
theory Indexer
  imports Genesis Relays SupplierFacts Reports
begin

text \<open>
  The indexing of a block, \<open>indexingHandler\<close> of \<open>src/mappings/indexer.manager.ts\<close>: every component works
  on its part of the database, in the order of the code; what the code starts with \<open>Promise.all\<close> runs in
  the order of the array. Entities saved through the store are written at once, in the transaction of the
  block, as direct statements are: the indexer runs without the store's cache (\<open>--enable-cache=false\<close> in
  \<open>tilt/apps/indexer/base/deployment.yaml\<close> and every configuration of \<open>.run\<close>). A result \<open>None\<close> stands for a paginated read that
  never ends. The theorems are about whole blocks: the balances after a block, the invariant of the stake
  tables along a chain, and when the indexing of a block comes to an end.
\<close>

subsection \<open>The database and the block\<close>

record index_db =
  ix_stakes :: gateway_db
  ix_suppliers :: supplier_db
  ix_relays :: relay_db
  ix_services :: service_db
  ix_validators :: validator_db
  ix_authz :: authz_db
  ix_grants :: "authz tbl"
  ix_morse_claims :: "msg_claim_morse_account tbl"
  ix_balances :: balance_table
  ix_transfers :: "native_transfer tbl"
  ix_accounts :: "account_row hrow list"
  ix_modules :: "module_row hrow list"
  ix_supply :: supply_state
  ix_transactions :: "transaction_row hrow list"
  ix_blocks :: blocks
  ix_metadata :: "block_metadata tbl"
  ix_genesis_balances :: "genesis_balance list"
  ix_stake_supplier_services :: "msg_supplier_service list"
  ix_events :: "string list"
  ix_entities :: "(string \<times> string) list"
  ix_reports :: report_db

text \<open>What the node and the decoders say of the block.\<close>

record block_input =
  in_block :: cosmos_block
  in_txs :: "(cosmos_tx \<times> decoded_tx \<times> tx_result) list"
  in_create :: "cosmos_msg \<Rightarrow> signer_info list \<times> create_validator"
  in_exec :: "cosmos_msg \<Rightarrow> authz_exec_msg"
  in_grant :: "cosmos_msg \<Rightarrow> grant_msg"
  in_members :: "(string \<times> js_value) list"
  in_sized :: sized_block
  in_time :: string
  in_genesis :: genesis
  in_module_accounts :: "nat \<Rightarrow> extended_account list res"
  in_genesis_accounts :: "extended_account list res"
  in_supply :: "coin page_query"
  in_apps :: "chain_app list"
  in_validators :: "chain_validator list res"

record ('pk, 'mpk, 'd) indexer_env =
  ie_crypto :: crypto
  ie_amino :: "('pk, 'mpk) amino"
  ie_codecs :: "'d codecs"
  ie_genesis :: genesis_env
  ie_host :: "string \<Rightarrow> string option"
  ie_collate :: "string \<Rightarrow> nat"
  ie_stop_height :: "string option"
  ie_every_block :: bool
  ie_millis :: "string \<Rightarrow> int"

subsection \<open>Accounts\<close>

definition enforce_accounts :: "crypto \<Rightarrow> int \<Rightarrow> account_params list \<Rightarrow> index_db \<Rightarrow> index_db res" where
  "enforce_accounts c b ps db =
     map_res (\<lambda>(as, ms). db\<lparr>ix_accounts := run_all (\<lambda>r. Some (ar_key (row_data r))) as (ix_accounts db),
         ix_modules := run_all (\<lambda>r. Some (mr_key (row_data r))) ms (ix_modules db)\<rparr>)
       (enforce_accounts_exists (c_sha256 c) b ps)"

text \<open>The balances saved by the module accounts: those of the answer that were created or changed.\<close>

definition saved_balances :: "balance tbl \<Rightarrow> balance tbl \<Rightarrow> extended_account list \<Rightarrow> balance list" where
  "saved_balances t t' accounts = List.map_filter t' (filter (\<lambda>i. t' i \<noteq> t i)
     (js_set (concat (map (\<lambda>(a, _, coins). map (\<lambda>c. get_balance_id (ba_address a) (denom c)) coins) accounts))))"

definition index_module_accounts ::
  "crypto \<Rightarrow> int \<Rightarrow> block_input \<Rightarrow> index_db \<Rightarrow> (string list \<times> index_db) res" where
  "index_module_accounts c b inp db =
     (let blk = in_block inp; t = live_map (ix_balances db) in
      bind_res (retry_on_fail (in_module_accounts inp) 150 0) (\<lambda>answer.
      bind_res (handle_module_accounts (height blk) (chain_id blk) (in_module_accounts inp) t) (\<lambda>(modules, t', ps).
        map_res (Pair modules)
          (enforce_accounts c b ps (db\<lparr>ix_balances := put_versions bal_id b (saved_balances t t' answer) (ix_balances db)\<rparr>)))))"

subsection \<open>Primitives\<close>

text \<open>The rows of the genesis file, each in its table.\<close>

definition store_genesis_stakes :: "int \<Rightarrow> genesis_rows \<Rightarrow> index_db \<Rightarrow> index_db res" where
  "store_genesis_stakes b r db =
     (let apps = gw_apps (ix_stakes db); gws = ix_stakes db; sdb = ix_suppliers db in
      bind_res (bulk_rows msa_id (Some msa_block_id) b ByBlockId (gr_stake_apps r) (msg_stake_apps apps)) (\<lambda>stakes.
      bind_res (bulk_rows mas_id None b Omit (gr_stake_app_services r) (msg_stake_app_services apps)) (\<lambda>stake_services.
      bind_res (bulk_rows mss_id (Some mss_block_id) b ByBlockId (gr_stake_suppliers r) (msg_stake_suppliers sdb)) (\<lambda>sstakes.
        Inr (db\<lparr>
          ix_stakes := gws\<lparr>gateways := put_versions gw_id b (gr_gateways r) (gateways gws),
            msg_stake_gateways := bulk_create msg_id (gr_stake_gateways r) (msg_stake_gateways gws),
            gw_apps := apps\<lparr>applications := put_versions app_id b (gr_apps r) (applications apps),
              app_services := put_versions as_id b (gr_app_services r) (app_services apps),
              app_gateways := put_versions ag_id b (gr_app_gateways r) (app_gateways apps),
              msg_stake_apps := stakes, msg_stake_app_services := stake_services,
              msg_delegates := bulk_create mag_id (gr_delegates r) (msg_delegates apps)\<rparr>\<rparr>,
          ix_suppliers := sdb\<lparr>suppliers := put_versions su_id b (gr_suppliers r) (suppliers sdb),
            supplier_services := put_versions sc_id b (gr_supplier_services r) (supplier_services sdb),
            msg_stake_suppliers := sstakes\<rparr>,
          ix_stake_supplier_services := ix_stake_supplier_services db @ gr_stake_supplier_services r\<rparr>)))))"

definition store_genesis :: "crypto \<Rightarrow> int \<Rightarrow> genesis_rows \<Rightarrow> index_db \<Rightarrow> index_db res" where
  "store_genesis c b r db =
     bind_res (bind_res (enforce_accounts c b (gr_accounts r) db) (store_genesis_stakes b r)) (\<lambda>db.
     map_res (\<lambda>txs. db\<lparr>ix_transactions := txs,
         ix_services := (ix_services db)\<lparr>services := bulk_create svc_id (gr_services r) (services (ix_services db)),
           msg_add_services := bulk_create mad_msg_id (gr_add_services r) (msg_add_services (ix_services db))\<rparr>,
         ix_validators := (ix_validators db)\<lparr>validators := put_versions va_id b (gr_validators r) (validators (ix_validators db)),
           msg_create_validators := bulk_create mcv_id (gr_create_validators r) (msg_create_validators (ix_validators db))\<rparr>,
         ix_authz := (ix_authz db)\<lparr>message_rows := bulk_create me_id (gr_messages r) (message_rows (ix_authz db)),
           param_rows := bulk_create pa_id (gr_params r) (param_rows (ix_authz db))\<rparr>,
         ix_grants := bulk_create gz_id (gr_authz r) (ix_grants db),
         ix_supply := (ix_supply db)\<lparr>supply_denoms := supply_denoms (ix_supply db) @ gr_supply_denoms r,
           supplies := bulk_create sup_id (gr_supplies r) (supplies (ix_supply db))\<rparr>,
         ix_balances := put_versions bal_id b (gr_balances r) (ix_balances db),
         ix_genesis_balances := ix_genesis_balances db @ gr_genesis_balances r,
         ix_events := ix_events db @ gr_events r, ix_entities := ix_entities db @ gr_entities r\<rparr>)
       (bulk_rows tn_id (Some tn_block_id) b ByBlockId (gr_transactions r) (ix_transactions db)))"

definition index_genesis ::
  "('pk, 'mpk, 'd) indexer_env \<Rightarrow> int \<Rightarrow> block_input \<Rightarrow> index_db \<Rightarrow> index_db res" where
  "index_genesis ie b inp db =
     bind_res (handle_genesis (ie_crypto ie) (ie_genesis ie) (chain_id (in_block inp)) (height (in_block inp))
         (in_genesis_accounts inp) (in_genesis inp)) (\<lambda>rows. case rows of
       None \<Rightarrow> Inr db | Some r \<Rightarrow> store_genesis (ie_crypto ie) b r db)"

definition index_block_row :: "int \<Rightarrow> block_input \<Rightarrow> index_db \<Rightarrow> index_db res" where
  "index_block_row b inp db =
     map_res (\<lambda>(row, meta). db\<lparr>ix_blocks := put_versions (\<lambda>r. show_int (bl_id r)) b [row] (ix_blocks db),
         ix_metadata := save (\<lambda>m. show_int (bm_id m)) meta (ix_metadata db)\<rparr>)
       (handle_block b (chain_id (in_block inp)) (in_time inp) (in_members inp) (in_sized inp))"

definition index_primitives ::
  "('pk, 'mpk, 'd) indexer_env \<Rightarrow> int \<Rightarrow> block_input \<Rightarrow> index_db \<Rightarrow> index_db res option" where
  "index_primitives ie b inp db =
     (case bind_res (index_genesis ie b inp db) (index_block_row b inp) of
        Inl e \<Rightarrow> Some (Inl e)
      | Inr db \<Rightarrow> map_option (map_res (\<lambda>s. db\<lparr>ix_supply := s\<rparr>))
          (handle_supply (height (in_block inp)) (in_supply inp) (ix_supply db)))"

subsection \<open>Balances, parameters, grants, services and validators\<close>

type_synonym msgs = "string \<Rightarrow> cosmos_msg list"
type_synonym events = "string \<Rightarrow> cosmos_event list"

text \<open>The calls of \<open>handleByType\<close> on messages and on events; a handler works on its part of the database.\<close>

definition handle_msgs :: "string list \<Rightarrow> msgs \<Rightarrow> by_tx_status \<Rightarrow> (string \<Rightarrow> cosmos_msg list \<Rightarrow> 's \<Rightarrow> 's res) \<Rightarrow> 's \<Rightarrow> 's res" where
  "handle_msgs types msgs s = handle_by_type types msgs (msgs_with_status s)"

definition handle_evs :: "string list \<Rightarrow> events \<Rightarrow> by_tx_status \<Rightarrow> (string \<Rightarrow> cosmos_event list \<Rightarrow> 's \<Rightarrow> 's res) \<Rightarrow> 's \<Rightarrow> 's res" where
  "handle_evs types evs s = handle_by_type types evs (events_with_status s)"

definition index_balances :: "crypto \<Rightarrow> int \<Rightarrow> string \<Rightarrow> msgs \<Rightarrow> events \<Rightarrow> index_db \<Rightarrow> index_db res option" where
  "index_balances c b chain msgs evs db =
     (case get_balance_changes (evs CoinReceiveType @ evs CoinSpentType) of
        Inl e \<Rightarrow> Some (Inl e)
      | Inr (changes, addrs) \<Rightarrow>
          map_option (\<lambda>r.
            bind_res r (\<lambda>balances.
            bind_res (handle_msgs [''/cosmos.bank.v1beta1.MsgSend''] msgs AllTxs (\<lambda>_. handle_native_transfer) (ix_transfers db)) (\<lambda>ts.
              enforce_accounts c b (map (plain_account chain) addrs) (db\<lparr>ix_balances := balances, ix_transfers := ts\<rparr>))))
            (update_balances changes b (ix_balances db)))"

definition index_params :: "crypto \<Rightarrow> 'd codecs \<Rightarrow> int \<Rightarrow> (cosmos_msg \<Rightarrow> authz_exec_msg) \<Rightarrow> msgs \<Rightarrow> authz_db \<Rightarrow> authz_db res" where
  "index_params c cd b exec msgs = handle_msgs [''/cosmos.authz.v1beta1.MsgExec''] msgs SuccessTxs
     (\<lambda>_ ms. handle_authz_exec c cd b (map (\<lambda>m. (m, exec m)) ms))"

definition index_grants ::
  "int \<Rightarrow> cosmos_event list \<Rightarrow> (cosmos_msg \<Rightarrow> grant_msg) \<Rightarrow> msgs \<Rightarrow> events \<Rightarrow> authz tbl \<Rightarrow> authz tbl res" where
  "index_grants b block_evs grant msgs evs t =
     bind_res (handle_msgs [''/cosmos.authz.v1beta1.MsgGrant''] msgs SuccessTxs
         (\<lambda>_ ms. handle_msg_grant b block_evs (map (\<lambda>m. (m, grant m)) ms)) t)
       (handle_evs [''cosmos.authz.v1beta1.EventGrant''] evs SuccessTxs (\<lambda>_. handle_event_grant b))"

definition index_service :: "int \<Rightarrow> msgs \<Rightarrow> events \<Rightarrow> service_db \<Rightarrow> service_db res" where
  "index_service b msgs evs st =
     bind_res (handle_msgs [''/pocket.service.MsgAddService''] msgs SuccessTxs (\<lambda>_. handle_msg_add_service b) st)
       (handle_evs [''pocket.service.EventRelayMiningDifficultyUpdated''] evs SuccessTxs
         (\<lambda>_. handle_event_relay_mining_difficulty_updated b))"

text \<open>The created validators are stored before the set is compared with the chain's.\<close>

definition index_validators ::
  "('pk, 'mpk, 'd) indexer_env \<Rightarrow> int \<Rightarrow> block_input \<Rightarrow> msgs \<Rightarrow> events \<Rightarrow> validator_db \<Rightarrow> validator_db res" where
  "index_validators ie b inp msgs evs st =
     bind_res (handle_msgs [''/cosmos.staking.v1beta1.MsgCreateValidator''] msgs SuccessTxs
         (\<lambda>_ ms. handle_validator_msg_create (ie_crypto ie) (ie_amino ie) (chain_id (in_block inp)) b
           (map (\<lambda>m. (m, in_create inp m)) ms)) st) (\<lambda>st.
     bind_res (handle_evs [''rewards'', ''commission''] evs AllTxs
         (\<lambda>t. if t = ''rewards'' then handle_validator_rewards b else handle_validator_commission b) st)
       (reconcile_validators (ie_collate ie) b (in_validators inp)))"

subsection \<open>Relays and Morse accounts\<close>

definition relay_event_types :: "string list" where
  "relay_event_types = [''pocket.tokenomics.EventClaimExpired'', ''pocket.proof.EventClaimUpdated'',
     ''pocket.proof.EventProofUpdated'', ''pocket.proof.EventProofValidityChecked'',
     ''pocket.tokenomics.EventApplicationOverserviced'', ''pocket.tokenomics.EventApplicationReimbursementRequest'',
     ''pocket.tokenomics.EventSettlementBatch'', ''pocket.tokenomics.EventValidatorRewardDistribution'']"

definition relay_msg_handler :: "int \<Rightarrow> string \<Rightarrow> cosmos_msg list \<Rightarrow> relay_db \<Rightarrow> relay_db res" where
  "relay_msg_handler b t ms = (if t = ''/pocket.proof.MsgCreateClaim'' then handle_msg_create_claim b ms else handle_msg_submit_proof b ms)"

definition relay_event_handler :: "int \<Rightarrow> string \<Rightarrow> cosmos_event list \<Rightarrow> relay_db \<Rightarrow> relay_db res" where
  "relay_event_handler b t es =
     (if t = ''pocket.tokenomics.EventClaimExpired'' then handle_event_claim_expired b es
      else if t = ''pocket.proof.EventClaimUpdated'' then handle_event_claim_updated b es
      else if t = ''pocket.proof.EventProofUpdated'' then handle_event_proof_updated b es
      else if t = ''pocket.proof.EventProofValidityChecked'' then handle_event_proof_validity_checked b es
      else if t = ''pocket.tokenomics.EventApplicationOverserviced'' then handle_event_application_overserviced b es
      else if t = ''pocket.tokenomics.EventApplicationReimbursementRequest'' then handle_event_application_reimbursement_request b es
      else if t = ''pocket.tokenomics.EventSettlementBatch'' then handle_event_settlement_batch b es
      else handle_event_validator_reward_distribution b es)"

text \<open>The settled claims are handled apart, with the overserviced applications, of any status and also when there are none.\<close>

definition index_relays :: "int \<Rightarrow> param tbl \<Rightarrow> msgs \<Rightarrow> events \<Rightarrow> relay_db \<Rightarrow> relay_db res" where
  "index_relays b params msgs evs st =
     bind_res (handle_msgs [''/pocket.proof.MsgCreateClaim'', ''/pocket.proof.MsgSubmitProof''] msgs SuccessTxs
         (relay_msg_handler b) st) (\<lambda>st.
     bind_res (handle_evs relay_event_types evs SuccessTxs (relay_event_handler b) st) (\<lambda>st.
       handle_event_claim_settled b (map_option pa_value (params (get_param_id ''tokenomics'' ''mint_ratio'')))
         (evs ''pocket.tokenomics.EventClaimSettled'') (evs ''pocket.tokenomics.EventApplicationOverserviced'') st))"

text \<open>A recovered account has no handler here, \<open>noOp\<close>; it comes in an execution.\<close>

definition index_migration_accounts ::
  "crypto \<Rightarrow> int \<Rightarrow> msgs \<Rightarrow> msg_claim_morse_account tbl \<times> morse_claimable hrow list \<Rightarrow>
   (msg_claim_morse_account tbl \<times> morse_claimable hrow list) res" where
  "index_migration_accounts c b msgs = handle_msgs [''/pocket.migration.MsgClaimMorseAccount'', ''/pocket.migration.MsgRecoverMorseAccount'']
     msgs SuccessTxs (\<lambda>t ms. if t = ''/pocket.migration.MsgClaimMorseAccount'' then handle_msg_claim_morse_account c b ms else Inr)"

subsection \<open>The block\<close>

text \<open>Steps that may fail or never end, one after the other.\<close>

definition and_then :: "'a res option \<Rightarrow> ('a \<Rightarrow> 'b res option) \<Rightarrow> 'b res option" where
  "and_then r f = Option.bind r (\<lambda>r. case r of Inl e \<Rightarrow> Some (Inl e) | Inr x \<Rightarrow> f x)"

text \<open>The parts of the database that components share are handed over: the accounts, the Morse accounts.\<close>

definition run_params :: "('pk, 'mpk, 'd) indexer_env \<Rightarrow> int \<Rightarrow> block_input \<Rightarrow> msgs \<Rightarrow> index_db \<Rightarrow> index_db res" where
  "run_params ie b inp msgs db =
     (let apps = gw_apps (ix_stakes db) in
      map_res (\<lambda>a. db\<lparr>ix_authz := a, ix_stakes := (ix_stakes db)\<lparr>gw_apps := apps\<lparr>morse_claimables := authz_claimables a\<rparr>\<rparr>\<rparr>)
        (index_params (ie_crypto ie) (ie_codecs ie) b (in_exec inp) msgs
          ((ix_authz db)\<lparr>authz_claimables := morse_claimables apps\<rparr>)))"

definition run_stakes :: "('pk, 'mpk, 'd) indexer_env \<Rightarrow> int \<Rightarrow> block_input \<Rightarrow> msgs \<Rightarrow> events \<Rightarrow> index_db \<Rightarrow> index_db res" where
  "run_stakes ie b inp msgs evs db =
     map_res (\<lambda>(gw, sdb). db\<lparr>ix_stakes := gw, ix_suppliers := sdb\<rparr>)
       (index_stake (ie_crypto ie) (ie_host ie) (ie_every_block ie) b (in_apps inp) msgs evs (ix_stakes db, ix_suppliers db))"

definition run_validators :: "('pk, 'mpk, 'd) indexer_env \<Rightarrow> int \<Rightarrow> block_input \<Rightarrow> msgs \<Rightarrow> events \<Rightarrow> index_db \<Rightarrow> index_db res" where
  "run_validators ie b inp msgs evs db =
     map_res (\<lambda>v. db\<lparr>ix_validators := v, ix_accounts := validator_accounts v\<rparr>)
       (index_validators ie b inp msgs evs ((ix_validators db)\<lparr>validator_accounts := ix_accounts db\<rparr>))"

definition run_migration_accounts :: "crypto \<Rightarrow> int \<Rightarrow> msgs \<Rightarrow> index_db \<Rightarrow> index_db res" where
  "run_migration_accounts c b msgs db =
     (let apps = gw_apps (ix_stakes db) in
      map_res (\<lambda>(claims, t). db\<lparr>ix_morse_claims := claims,
          ix_stakes := (ix_stakes db)\<lparr>gw_apps := apps\<lparr>morse_claimables := t\<rparr>\<rparr>\<rparr>)
        (index_migration_accounts c b msgs (ix_morse_claims db, morse_claimables apps)))"

text \<open>Everything after the primitives and the parameters.\<close>

definition index_entities ::
  "('pk, 'mpk, 'd) indexer_env \<Rightarrow> int \<Rightarrow> block_input \<Rightarrow> msgs \<Rightarrow> events \<Rightarrow> index_db \<Rightarrow> index_db res option" where
  "index_entities ie b inp msgs evs db =
     and_then (Some (bind_res (run_stakes ie b inp msgs evs db) (\<lambda>db.
         map_res (\<lambda>r. db\<lparr>ix_relays := r\<rparr>) (index_relays b (param_rows (ix_authz db)) msgs evs (ix_relays db))))) (\<lambda>db.
     and_then (index_balances (ie_crypto ie) b (chain_id (in_block inp)) msgs evs db) (\<lambda>db.
       Some (bind_res (map_res (\<lambda>g. db\<lparr>ix_grants := g\<rparr>)
           (index_grants b (block_events (in_block inp)) (in_grant inp) msgs evs (ix_grants db))) (\<lambda>db.
         bind_res (map_res (\<lambda>s. db\<lparr>ix_services := s\<rparr>) (index_service b msgs evs (ix_services db))) (\<lambda>db.
         bind_res (run_validators ie b inp msgs evs db) (run_migration_accounts (ie_crypto ie) b msgs))))))"

definition report_source :: "index_db \<Rightarrow> report_source" where
  "report_source db = \<lparr>src_claims = claim_settleds (ix_relays db), src_apps = applications (gw_apps (ix_stakes db)),
     src_app_services = app_services (gw_apps (ix_stakes db)), src_gateways = gateways (ix_stakes db),
     src_suppliers = suppliers (ix_suppliers db), src_supplier_services = supplier_services (ix_suppliers db),
     src_validators = validators (ix_validators db), src_transactions = ix_transactions db\<rparr>"

definition generate_reports :: "(string \<Rightarrow> int) \<Rightarrow> int \<Rightarrow> cosmos_block \<Rightarrow> index_db \<Rightarrow> index_db" where
  "generate_reports ms b blk db =
     (let (t, r) = handle_add_block_reports ms b blk (report_source db) (ix_blocks db, ix_reports db)
      in db\<lparr>ix_blocks := t, ix_reports := r\<rparr>)"

definition indexing_handler ::
  "('pk, 'mpk, 'd) indexer_env \<Rightarrow> block_input \<Rightarrow> index_db \<Rightarrow> index_db res option" where
  "indexing_handler ie inp db =
     (let blk = in_block inp; b = get_block_id (height blk); c = ie_crypto ie in
      case bind_res (evaluate_block_height_stop (ie_stop_height ie) (height blk)) (\<lambda>_. index_module_accounts c b inp db) of
        Inl e \<Rightarrow> Some (Inl e)
      | Inr (modules, db) \<Rightarrow>
          let msgs = docs_of (fst (msgs_by_type blk)); evs = docs_of (fst (events_by_type (set modules) blk)) in
          and_then (index_primitives ie b inp db) (\<lambda>db.
          and_then (Some (bind_res (handle_transactions c (ie_amino ie) b (block_messages blk) (in_txs inp) (ix_transactions db))
              (\<lambda>txs. run_params ie b inp msgs (db\<lparr>ix_transactions := txs\<rparr>)))) (\<lambda>db.
          and_then (index_entities ie b inp msgs evs db) (\<lambda>db.
            Some (Inr (generate_reports (ie_millis ie) b blk db))))))"

text \<open>The blocks of a chain, one after the other, until one fails.\<close>

primrec index_chain :: "('pk, 'mpk, 'd) indexer_env \<Rightarrow> block_input list \<Rightarrow> index_db \<Rightarrow> index_db res option" where
  "index_chain ie [] db = Some (Inr db)"
| "index_chain ie (inp # inps) db = and_then (indexing_handler ie inp db) (index_chain ie inps)"

subsection \<open>Lemmas on the composition\<close>

lemma and_then_eq: "and_then r f = Some (Inr y) \<longleftrightarrow> (\<exists>x. r = Some (Inr x) \<and> f x = Some (Inr y))"
  by (auto simp: and_then_def split: option.splits sum.splits bind_splits)

lemma indexing_run:
  assumes "indexing_handler ie inp db = Some (Inr db')"
  obtains modules db1 db2 txs db3 db4 where
    "evaluate_block_height_stop (ie_stop_height ie) (height (in_block inp)) = Inr ()"
    "index_module_accounts (ie_crypto ie) (get_block_id (height (in_block inp))) inp db = Inr (modules, db1)"
    "index_primitives ie (get_block_id (height (in_block inp))) inp db1 = Some (Inr db2)"
    "run_params ie (get_block_id (height (in_block inp))) inp (docs_of (fst (msgs_by_type (in_block inp))))
       (db2\<lparr>ix_transactions := txs\<rparr>) = Inr db3"
    "index_entities ie (get_block_id (height (in_block inp))) inp (docs_of (fst (msgs_by_type (in_block inp))))
       (docs_of (fst (events_by_type (set modules) (in_block inp)))) db3 = Some (Inr db4)"
    "db' = generate_reports (ie_millis ie) (get_block_id (height (in_block inp))) (in_block inp) db4"
proof -
  let ?b = "get_block_id (height (in_block inp))"
  obtain modules db1 where first: "evaluate_block_height_stop (ie_stop_height ie) (height (in_block inp)) = Inr ()"
    "index_module_accounts (ie_crypto ie) ?b inp db = Inr (modules, db1)"
    using assms by (auto simp: indexing_handler_def Let_def split: sum.splits simp: bind_eq_Inr)
  show thesis
    using assms by (auto simp: indexing_handler_def first Let_def and_then_eq bind_eq_Inr intro: that [OF first])
qed

lemma entities_run:
  assumes "index_entities ie b inp msgs evs db = Some (Inr db')"
  obtains db1 r db2 g s db3 where "run_stakes ie b inp msgs evs db = Inr db1"
    "index_relays b (param_rows (ix_authz db1)) msgs evs (ix_relays db1) = Inr r"
    "index_balances (ie_crypto ie) b (chain_id (in_block inp)) msgs evs (db1\<lparr>ix_relays := r\<rparr>) = Some (Inr db2)"
    "index_service b msgs evs (ix_services db2) = Inr s"
    "run_validators ie b inp msgs evs (db2\<lparr>ix_grants := g, ix_services := s\<rparr>) = Inr db3"
    "run_migration_accounts (ie_crypto ie) b msgs db3 = Inr db'"
  using assms
  by (auto simp: index_entities_def and_then_eq bind_eq_Inr map_res_eq_Inr)

text \<open>What the steps leave alone: the balances, and the tables of the stakes up to the Morse accounts.\<close>

definition stake_part :: "index_db \<Rightarrow> gateway_db" where
  "stake_part db = (ix_stakes db)\<lparr>gw_apps := (gw_apps (ix_stakes db))\<lparr>morse_claimables := []\<rparr>\<rparr>"

lemma parts_simps [simp]:
  "stake_part (db\<lparr>ix_accounts := as, ix_modules := ms\<rparr>) = stake_part db"
  "stake_part (db\<lparr>ix_relays := r\<rparr>) = stake_part db"
  "stake_part (db\<lparr>ix_supply := s\<rparr>) = stake_part db"
  "stake_part (db\<lparr>ix_transactions := txs\<rparr>) = stake_part db"
  "stake_part (db\<lparr>ix_grants := g, ix_services := sv\<rparr>) = stake_part db"
  "stake_part (generate_reports millis b blk db) = stake_part db"
  "ix_balances (generate_reports millis b blk db) = ix_balances db"
  by (simp_all add: stake_part_def generate_reports_def split_beta)

lemma enforce_accounts_parts:
  "enforce_accounts c b ps db = Inr db' \<Longrightarrow> ix_balances db' = ix_balances db \<and> stake_part db' = stake_part db"
  by (auto simp: enforce_accounts_def map_res_eq_Inr)

lemma index_block_row_parts:
  "index_block_row b inp db = Inr db' \<Longrightarrow> ix_balances db' = ix_balances db \<and> stake_part db' = stake_part db"
  by (auto simp: index_block_row_def map_res_eq_Inr stake_part_def)

lemma index_primitives_parts:
  assumes "index_primitives ie b inp db = Some (Inr db')" and "height (in_block inp) \<noteq> initial_height (in_genesis inp)"
  shows "ix_balances db' = ix_balances db \<and> stake_part db' = stake_part db"
proof -
  have "index_genesis ie b inp db = Inr db" using assms(2) by (simp add: index_genesis_def handle_genesis_def)
  then show ?thesis
    using assms(1) by (auto simp: index_primitives_def map_res_eq_Inr split: sum.splits dest: index_block_row_parts)
qed

lemma run_parts:
  "run_params ie b inp msgs db = Inr db' \<Longrightarrow> ix_balances db' = ix_balances db \<and> stake_part db' = stake_part db"
  "run_stakes ie b inp msgs evs db = Inr db' \<Longrightarrow> ix_balances db' = ix_balances db"
  "run_validators ie b inp msgs evs db = Inr db' \<Longrightarrow> ix_balances db' = ix_balances db \<and> stake_part db' = stake_part db"
  "run_migration_accounts c b msgs db = Inr db' \<Longrightarrow> ix_balances db' = ix_balances db \<and> stake_part db' = stake_part db"
  by (auto simp: run_params_def run_stakes_def run_validators_def run_migration_accounts_def map_res_eq_Inr
      stake_part_def Let_def)

lemma index_balances_run:
  assumes "index_balances c b chain msgs evs db = Some (Inr db')"
  obtains changes addrs where "get_balance_changes (evs CoinReceiveType @ evs CoinSpentType) = Inr (changes, addrs)"
    "update_balances changes b (ix_balances db) = Some (Inr (ix_balances db'))"
    "stake_part db' = stake_part db"
proof -
  obtain changes addrs t ts where run: "get_balance_changes (evs CoinReceiveType @ evs CoinSpentType) = Inr (changes, addrs)"
    "update_balances changes b (ix_balances db) = Some (Inr t)"
    and acc: "enforce_accounts c b (map (plain_account chain) addrs) (db\<lparr>ix_balances := t, ix_transfers := ts\<rparr>) = Inr db'"
    using assms by (auto simp: index_balances_def bind_eq_Inr split: sum.splits)
  from enforce_accounts_parts [OF acc] show thesis
    by (intro that [OF run(1)]) (simp_all add: run(2) stake_part_def)
qed

text \<open>The events of a block that change balances: the received coins, then the spent ones.\<close>

definition balance_events :: "string set \<Rightarrow> cosmos_block \<Rightarrow> cosmos_event list" where
  "balance_events modules blk =
     filter (\<lambda>e. ev_type (event e) = CoinReceiveType \<and> is_valid_event modules e) (block_events blk) @
     filter (\<lambda>e. ev_type (event e) = CoinSpentType \<and> is_valid_event modules e) (block_events blk)"

lemma balance_events_docs:
  "docs_of (fst (events_by_type modules blk)) CoinReceiveType @ docs_of (fst (events_by_type modules blk)) CoinSpentType =
     balance_events modules blk"
  by (simp add: events_by_type_def by_type_eq balance_events_def conj_commute)

text \<open>What a block does to the balances and to the stakes.\<close>

definition without_claimables :: "gateway_db \<Rightarrow> gateway_db" where
  "without_claimables gw = gw\<lparr>gw_apps := (gw_apps gw)\<lparr>morse_claimables := []\<rparr>\<rparr>"

lemma stake_part_eq: "stake_part db = without_claimables (ix_stakes db)"
  by (simp add: stake_part_def without_claimables_def)

lemma indexed_parts:
  assumes "indexing_handler ie inp db = Some (Inr db')" and "height (in_block inp) \<noteq> initial_height (in_genesis inp)"
  obtains modules db1 changes addrs gw sdb gw' sdb' where
    "index_module_accounts (ie_crypto ie) (get_block_id (height (in_block inp))) inp db = Inr (modules, db1)"
    "get_balance_changes (balance_events (set modules) (in_block inp)) = Inr (changes, addrs)"
    "update_balances changes (get_block_id (height (in_block inp))) (ix_balances db1) = Some (Inr (ix_balances db'))"
    "index_stake (ie_crypto ie) (ie_host ie) (ie_every_block ie) (get_block_id (height (in_block inp))) (in_apps inp)
       (docs_of (fst (msgs_by_type (in_block inp)))) (docs_of (fst (events_by_type (set modules) (in_block inp)))) (gw, sdb) =
       Inr (gw', sdb')"
    "without_claimables gw = stake_part db1" "stake_part db' = without_claimables gw'"
proof -
  let ?b = "get_block_id (height (in_block inp))" and ?msgs = "docs_of (fst (msgs_by_type (in_block inp)))"
  obtain modules db1 db2 txs db3 db4 where
    run: "index_module_accounts (ie_crypto ie) ?b inp db = Inr (modules, db1)"
    "index_primitives ie ?b inp db1 = Some (Inr db2)" "run_params ie ?b inp ?msgs (db2\<lparr>ix_transactions := txs\<rparr>) = Inr db3"
    "index_entities ie ?b inp ?msgs (docs_of (fst (events_by_type (set modules) (in_block inp)))) db3 = Some (Inr db4)"
    and db': "db' = generate_reports (ie_millis ie) ?b (in_block inp) db4"
    by (rule indexing_run [OF assms(1)]) (rule that)
  let ?evs = "docs_of (fst (events_by_type (set modules) (in_block inp)))"
  obtain e1 r e2 g s e3 where
    part: "run_stakes ie ?b inp ?msgs ?evs db3 = Inr e1"
    "index_balances (ie_crypto ie) ?b (chain_id (in_block inp)) ?msgs ?evs (e1\<lparr>ix_relays := r\<rparr>) = Some (Inr e2)"
    "run_validators ie ?b inp ?msgs ?evs (e2\<lparr>ix_grants := g, ix_services := s\<rparr>) = Inr e3"
    "run_migration_accounts (ie_crypto ie) ?b ?msgs e3 = Inr db4" by (rule entities_run [OF run(4)]) (rule that)
  have db3: "ix_balances db3 = ix_balances db1" "stake_part db3 = stake_part db1"
    using index_primitives_parts [OF run(2) assms(2)] run_parts(1) [OF run(3)] by simp_all
  from part(1) obtain gw' sdb' where stakes: "index_stake (ie_crypto ie) (ie_host ie) (ie_every_block ie) ?b (in_apps inp)
      ?msgs ?evs (ix_stakes db3, ix_suppliers db3) = Inr (gw', sdb')" "ix_stakes e1 = gw'"
    by (auto simp: run_stakes_def map_res_eq_Inr)
  from index_balances_run [OF part(2)] obtain changes addrs where
    bal: "get_balance_changes (balance_events (set modules) (in_block inp)) = Inr (changes, addrs)"
    "update_balances changes ?b (ix_balances (e1\<lparr>ix_relays := r\<rparr>)) = Some (Inr (ix_balances e2))"
    "stake_part e2 = stake_part (e1\<lparr>ix_relays := r\<rparr>)"
    unfolding balance_events_docs by blast
  have e1: "ix_balances e1 = ix_balances db1" using run_parts(2) [OF part(1)] db3(1) by simp
  have db4: "ix_balances db4 = ix_balances e2" "stake_part db4 = without_claimables gw'"
    using run_parts(3) [OF part(3)] run_parts(4) [OF part(4)] bal(3) stake_part_eq [of e1]
    by (simp_all add: stakes(2))
  show thesis
    by (rule that [OF run(1) bal(1) _ stakes(1)])
      (use bal(2) e1 db4 db3(2) stake_part_eq [of db3] in \<open>simp_all add: db'\<close>)
qed

subsection \<open>The balances after a block\<close>

lemma keyed_live_map: "hist_ok ident b t \<Longrightarrow> keyed_tbl ident (live_map t)"
  by (auto simp: keyed_tbl_def dest: live_map_ident)

lemma account_balance_ids:
  "set (js_set (concat (map (\<lambda>(a, _, coins). map (\<lambda>c. get_balance_id (ba_address a) (denom c)) coins) accounts))) =
     \<Union> (account_ids ` set accounts)"
  by (auto simp: account_ids_def)

text \<open>Writing the saved balances gives the table of the module accounts on their balances.\<close>

lemma live_map_saved:
  assumes "hist_ok bal_id b tab" and "keyed_tbl bal_id t'" and "\<And>i. i \<in> \<Union> (account_ids ` set accounts) \<Longrightarrow> t' i \<noteq> None"
    and "\<And>i. i \<in> \<Union> (account_ids ` set accounts) \<Longrightarrow> live_map tab i = t i"
  shows "live_map (put_versions bal_id b (saved_balances t t' accounts) tab) i =
    (if i \<in> \<Union> (account_ids ` set accounts) then t' i else live_map tab i)"
proof -
  let ?ids = "js_set (concat (map (\<lambda>(a, _, coins). map (\<lambda>c. get_balance_id (ba_address a) (denom c)) coins) accounts))"
  let ?saved = "saved_balances t t' accounts"
  have saved: "x \<in> set ?saved \<longleftrightarrow> bal_id x \<in> \<Union> (account_ids ` set accounts) \<and> t' (bal_id x) = Some x \<and> t (bal_id x) \<noteq> Some x" for x
  proof -
    define I where "I = \<Union> (account_ids ` set accounts)"
    have "x \<in> set ?saved \<longleftrightarrow> (\<exists>i \<in> I. t' i \<noteq> t i \<and> t' i = Some x)"
      unfolding saved_balances_def set_map_filter set_filter account_balance_ids I_def by (simp only: mem_Collect_eq Bex_def conj_assoc)
    also have "\<dots> \<longleftrightarrow> bal_id x \<in> I \<and> t' (bal_id x) = Some x \<and> t (bal_id x) \<noteq> Some x"
      using keyed_tblD [OF assms(2)] by (metis option.inject)
    finally show ?thesis unfolding I_def .
  qed
  show ?thesis
  proof (cases "find (\<lambda>e. bal_id e = i) (rev ?saved)")
    case None
    then have "i \<notin> bal_id ` set ?saved" by (auto simp: find_None_iff)
    then have "i \<in> \<Union> (account_ids ` set accounts) \<Longrightarrow> t' i = t i"
      using assms(3) [of i] keyed_tblD [OF assms(2), of i] saved by (metis image_eqI option.exhaust)
    then show ?thesis using None assms(4) [of i] by (simp add: live_map_put_versions [OF assms(1)])
  next
    case (Some x)
    then have "x \<in> set ?saved" "bal_id x = i" by (auto dest: find_SomeD)
    with Some saved show ?thesis by (auto simp: live_map_put_versions [OF assms(1)])
  qed
qed

lemma module_accounts_run:
  assumes "index_module_accounts c (get_block_id (height (in_block inp))) inp db = Inr (modules, db1)"
    and "retry_on_fail (in_module_accounts inp) 150 0 = Inr accounts"
    and "list_all (account_ok val) accounts" and "distinct (map (ba_address \<circ> fst) accounts)"
    and "hist_ok bal_id b (ix_balances db)"
  obtains t' where "set modules = (ba_address \<circ> fst) ` set accounts" "keyed_tbl bal_id t'"
    "list_all (account_written val t') accounts" "stake_part db1 = stake_part db"
    "ix_balances db1 = put_versions bal_id (get_block_id (height (in_block inp)))
       (saved_balances (live_map (ix_balances db)) t' accounts) (ix_balances db)"
    "\<forall>x \<in> set (saved_balances (live_map (ix_balances db)) t' accounts).
       last_updated_block_id x = get_block_id (height (in_block inp))"
proof -
  let ?t = "live_map (ix_balances db)" and ?b = "get_block_id (height (in_block inp))"
  note keyed = keyed_live_map [OF assms(5)]
  obtain t' where t': "foldM_res (\<lambda>t (a, m, coins). foldM_res (module_balance_step ?b (ba_address a)) t coins) ?t accounts = Inr t'"
    "keyed_tbl bal_id t'" "list_all (account_written val t') accounts"
    using module_accounts_ok [OF assms(3,4) keyed] by blast
  let ?saved = "saved_balances ?t t' accounts"
  obtain ps where modules: "modules = js_set (map (\<lambda>(a, m, coins). ba_address a) accounts)"
    and acc: "enforce_accounts c ?b ps (db\<lparr>ix_balances := put_versions bal_id ?b ?saved (ix_balances db)\<rparr>) = Inr db1"
    using assms(1,2) t'(1)
    by (auto simp: index_module_accounts_def handle_module_accounts_def Let_def bind_eq_Inr map_res_eq_Inr)
  have "last_updated_block_id x = ?b" if "x \<in> set ?saved" for x
  proof -
    from that obtain i where "t' i = Some x" "t' i \<noteq> ?t i" by (auto simp: saved_balances_def set_map_filter)
    then show ?thesis using module_accounts_written [OF t'(1) keyed] by fastforce
  qed
  then show thesis
    by (intro that [OF _ t'(2,3)])
      (use enforce_accounts_parts [OF acc] in \<open>auto simp: modules stake_part_def split_beta image_iff\<close>)
qed

lemma event_change_attribute:
  assumes "event_change e = Inr (a, i, v)"
  shows "\<exists>k d. (k, a) \<in> set (attributes (event e)) \<and> i = dash a d"
proof -
  obtain n where n: "find_index (\<lambda>(k, _). k = ''receiver'' \<or> k = ''spender'') (attributes (event e)) = Some n"
    using assms by (cases "find_index (\<lambda>(k, _). k = ''receiver'' \<or> k = ''spender'') (attributes (event e))")
      (auto simp: event_change_def)
  then have "n < length (attributes (event e))" by (auto simp: find_index_def Let_def split: if_splits)
  then have mem: "attributes (event e) ! n \<in> set (attributes (event e))" by simp
  obtain k a' where nth: "attributes (event e) ! n = (k, a')" by force
  have "\<exists>cs :: coin list. (case cs of [] \<Rightarrow> throw ''TypeError: coin is undefined''
      | c # _ \<Rightarrow> bind_res (big_int (amount c)) (\<lambda>coins.
          Inr (a', dash a' (denom c), if k = ''spender'' then 0 - coins else coins))) = Inr (a, i, v)"
    using assms n nth by (simp add: event_change_def Let_def bind_eq_Inr split: option.split_asm if_split_asm) blast
  then obtain cs :: "coin list" where cs: "(case cs of [] \<Rightarrow> throw ''TypeError: coin is undefined''
      | c # _ \<Rightarrow> bind_res (big_int (amount c)) (\<lambda>coins.
          Inr (a', dash a' (denom c), if k = ''spender'' then 0 - coins else coins))) = Inr (a, i, v)" by blast
  from cs have "a' = a \<and> (\<exists>d. i = dash a d)" by (cases cs) (auto simp: bind_eq_Inr)
  with mem nth show ?thesis by auto
qed

text \<open>No change of a block is to a balance of a module account.\<close>

lemma changes_not_modules:
  assumes "mapM_res event_change (balance_events (ba_address ` (fst ` set accounts)) blk) = Inr cs"
    and "list_all (account_ok val) accounts" and "\<forall>x \<in> set accounts. prefix PREFIX (ba_address (fst x))"
    and "\<forall>(a, _, _) \<in> set cs. CHR ''-'' \<notin> set a" and "(a, i, v) \<in> set cs"
  shows "i \<notin> \<Union> (account_ids ` set accounts)"
proof
  let ?modules = "ba_address ` (fst ` set accounts)"
  assume "i \<in> \<Union> (account_ids ` set accounts)"
  then obtain x where x: "x \<in> set accounts" "i \<in> account_ids x" by blast
  obtain base m coins where [simp]: "x = (base, m, coins)" by (cases x)
  from x obtain c :: coin where acc: "(base, m, coins) \<in> set accounts" "i = get_balance_id (ba_address base) (denom c)"
    by (auto simp: account_ids_def)
  obtain e where e: "e \<in> set (balance_events ?modules blk)" "event_change e = Inr (a, i, v)"
    using mapM_res_mem [OF assms(1,5)] by blast
  obtain k d where attr: "(k, a) \<in> set (attributes (event e))" "i = dash a d"
    using event_change_attribute [OF e(2)] by blast
  have "CHR ''-'' \<notin> set a" using assms(4,5) by auto
  moreover have "CHR ''-'' \<notin> set (ba_address base)" using assms(2) acc(1) by (auto simp: list_all_iff account_ok_def)
  ultimately have "a = ba_address base" using attr(2) acc(2) by (simp add: get_balance_id_def dash_inject)
  then have "a \<in> ?modules" "prefix PREFIX a" using acc(1) assms(3) by force+
  with attr(1) have "list_ex (\<lambda>(_, v). prefix PREFIX v \<and> v \<in> ?modules) (attributes (event e))" by (auto simp: list_ex_iff)
  then show False using e(1) by (auto simp: balance_events_def is_valid_event_def split: if_splits)
qed

lemma get_balance_changes_sum:
  assumes "get_balance_changes es = Inr (m, addrs)" and "mapM_res event_change es = Inr cs"
  shows "distinct (map fst m) \<and> (\<forall>i. bal m i = change_total i cs) \<and> fst ` set m = (\<lambda>(_, i, _). i) ` set cs"
  using assms(1) unfolding get_balance_changes_def
  by (rule balance_changes_from) (use assms(2) in \<open>simp_all add: bal_def dict_ok_def\<close>)

text \<open>
  C1: the balances after a block that is not the first. Let the node answer for the module accounts within
  the attempts, with distinct addresses and decimal amounts, and the block be indexed without an error. If
  the block has no valid coin events, the balances of the module accounts have the amounts of the chain and
  every other balance is the one before. As soon as it has one, every balance is the one before plus the sum
  of its changes, and those of the module accounts are the ones before the block: the clean up of a failed
  attempt deletes the rows the module accounts were given in this block and reopens the old ones.
\<close>

theorem indexed_balances:
  assumes "indexing_handler ie inp db = Some (Inr db')" and "blk = in_block inp"
    and "height blk \<noteq> initial_height (in_genesis inp)"
    and "settled (get_block_id (height blk)) (ix_balances db)"
    and "retry_on_fail (in_module_accounts inp) 150 0 = Inr accounts"
    and "list_all (account_ok val) accounts" and "distinct (map (ba_address \<circ> fst) accounts)"
    and "\<forall>x \<in> set accounts. prefix PREFIX (ba_address (fst x))"
    and "mapM_res event_change (balance_events (ba_address ` (fst ` set accounts)) blk) = Inr cs"
    and "\<forall>(a, _, _) \<in> set cs. CHR ''-'' \<notin> set a"
  shows "(cs = [] \<longrightarrow>
      (\<forall>(base, m, coins) \<in> set accounts. \<forall>c \<in> set coins.
        live_amount (ix_balances db') (get_balance_id (ba_address base) (denom c)) = val c) \<and>
      (\<forall>i. i \<notin> \<Union> (account_ids ` set accounts) \<longrightarrow> live_amount (ix_balances db') i = live_amount (ix_balances db) i)) \<and>
    (cs \<noteq> [] \<longrightarrow>
      (\<forall>i. live_amount (ix_balances db') i = live_amount (ix_balances db) i + change_total i cs) \<and>
      (\<forall>i \<in> \<Union> (account_ids ` set accounts). live_amount (ix_balances db') i = live_amount (ix_balances db) i))"
proof -
  let ?t = "ix_balances db" and ?b = "get_block_id (height (in_block inp))" and ?ids = "\<Union> (account_ids ` set accounts)"
  have ok: "settled ?b ?t" "hist_ok bal_id ?b ?t" using assms(2,4) by (simp_all add: settled_def)
  from indexed_parts [OF assms(1) assms(3) [unfolded assms(2)]] obtain modules db1 changes addrs where
    run: "index_module_accounts (ie_crypto ie) ?b inp db = Inr (modules, db1)"
    "get_balance_changes (balance_events (set modules) (in_block inp)) = Inr (changes, addrs)"
    "update_balances changes ?b (ix_balances db1) = Some (Inr (ix_balances db'))" by metis
  from module_accounts_run [OF run(1) assms(5,6,7) ok(2)] obtain t' where
    set_modules: "set modules = (ba_address \<circ> fst) ` set accounts" and keyed: "keyed_tbl bal_id t'"
    and written: "list_all (account_written val t') accounts"
    and db1: "ix_balances db1 = put_versions bal_id ?b (saved_balances (live_map ?t) t' accounts) ?t"
      "\<forall>x \<in> set (saved_balances (live_map ?t) t' accounts). last_updated_block_id x = ?b" by metis
  have modules: "set modules = ba_address ` (fst ` set accounts)" using set_modules by (simp add: image_comp)
  from get_balance_changes_sum [OF run(2) [unfolded modules] assms(9) [unfolded assms(2)]]
  have changes: "distinct (map fst changes)" "\<And>i. bal changes i = change_total i cs"
    "fst ` set changes = (\<lambda>(_, i, _). i) ` set cs" by auto
  show ?thesis
  proof (cases "cs = []")
    case True
    then have "ix_balances db' = ix_balances db1" using run(3) changes(3) by (simp add: update_balances_def)
    moreover have "t' i \<noteq> None" if "i \<in> ?ids" for i
      using written that by (fastforce simp: list_all_iff account_ids_def account_written_def module_balance_amount_def)
    ultimately have "live_map (ix_balances db') i = (if i \<in> ?ids then t' i else live_map ?t i)" for i
      unfolding \<open>ix_balances db' = ix_balances db1\<close> db1(1) by (intro live_map_saved [OF ok(2) keyed]) simp_all
    then show ?thesis using written True unfolding live_amount_def
      by (force simp: list_all_iff account_ids_def account_written_def module_balance_amount_def)
  next
    case False
    then have "changes \<noteq> []" using changes(3) by auto
    from update_balances_undone [OF ok(1) db1(2) this] run(3) have "update_balances changes ?b ?t = Some (Inr (ix_balances db'))"
      by (simp add: db1(1))
    with update_balances_run [OF ok(1) changes(1)]
    have sums: "live_amount (ix_balances db') i = live_amount ?t i + change_total i cs" for i by (auto simp: changes(2))
    have "change_total i cs = 0" if "i \<in> ?ids" for i
    proof -
      have "filter (\<lambda>(_, j, _). j = i) cs = []" using changes_not_modules [OF assms(9,6,8,10)] that by (fastforce simp: filter_empty_conv)
      then show ?thesis by (simp add: change_total_def)
    qed
    with sums False show ?thesis by simp
  qed
qed

subsection \<open>The stakes along a chain\<close>

definition stakes_inv :: "int \<Rightarrow> gateway_db \<Rightarrow> bool" where
  "stakes_inv b gw \<longleftrightarrow> gateway_ok b gw \<and>
     (\<forall>i g. get_gateway i gw = Some g \<longrightarrow> gw_stake_status g = Unstaked \<longrightarrow> gw_stake_amount g = 0)"

lemma stakes_inv_claimables [simp]: "stakes_inv b (without_claimables gw) = stakes_inv b gw"
  by (simp add: stakes_inv_def without_claimables_def gateway_ok_def app_ok_def get_gateway_def)

lemma stakes_inv_mono: "stakes_inv b gw \<Longrightarrow> b \<le> b' \<Longrightarrow> stakes_inv b' gw"
  by (auto simp: stakes_inv_def gateway_ok_def app_ok_def intro: hist_ok_mono)

lemma data_of_block:
  assumes "d \<in> set (data_of_types ms es (docs_of (fst (msgs_by_type blk))) (docs_of (fst (events_by_type modules blk))))"
  shows "(\<exists>m \<in> set (block_messages blk). d = Ms m) \<or> (\<exists>e \<in> set (block_events blk). d = Ev e)"
  using assms by (auto simp: data_of_types_def msgs_by_type_def events_by_type_def by_type_eq split: if_splits)

definition plain_block :: "cosmos_block \<Rightarrow> bool" where
  "plain_block blk \<longleftrightarrow> list_all plain_msg (block_messages blk) \<and> list_all plain_event (block_events blk)"

lemma indexed_stakes:
  assumes "indexing_handler ie inp db = Some (Inr db')" and "height (in_block inp) \<noteq> initial_height (in_genesis inp)"
    and "stakes_inv (get_block_id (height (in_block inp))) (ix_stakes db)" and "plain_block (in_block inp)"
  shows "stakes_inv (get_block_id (height (in_block inp))) (ix_stakes db')"
proof -
  let ?b = "get_block_id (height (in_block inp))"
  obtain modules db1 gw sdb gw' sdb' where
    first: "index_module_accounts (ie_crypto ie) ?b inp db = Inr (modules, db1)" and
    run: "index_stake (ie_crypto ie) (ie_host ie) (ie_every_block ie) ?b (in_apps inp)
       (docs_of (fst (msgs_by_type (in_block inp)))) (docs_of (fst (events_by_type (set modules) (in_block inp)))) (gw, sdb) =
       Inr (gw', sdb')"
    and parts: "without_claimables gw = stake_part db1" "stake_part db' = without_claimables gw'"
    by (rule indexed_parts [OF assms(1,2)]) (rule that)
  have "stake_part db1 = stake_part db"
    using first enforce_accounts_parts by (fastforce simp: index_module_accounts_def Let_def bind_eq_Inr map_res_eq_Inr stake_part_def)
  then have "stakes_inv ?b gw" using parts(1) assms(3) by (metis stake_part_eq stakes_inv_claimables)
  moreover have "\<forall>d \<in> set (data_of_types app_msg_types app_event_types (docs_of (fst (msgs_by_type (in_block inp))))
      (docs_of (fst (events_by_type (set modules) (in_block inp))))). plain_datum d"
    using data_of_block assms(4) by (fastforce simp: plain_block_def list_all_iff plain_datum_def)
  ultimately have "stakes_inv ?b gw'" using index_stake_inv [OF run] by (simp add: stakes_inv_def)
  then show ?thesis using parts(2) by (metis stake_part_eq stakes_inv_claimables)
qed

lemma index_primitives_block:
  assumes "index_primitives ie b inp db = Some (Inr db')"
  shows "block_at b (ix_blocks db') \<noteq> None"
proof -
  from assms obtain db1 db2 where "index_block_row b inp db1 = Inr db2" and blocks: "ix_blocks db' = ix_blocks db2"
    by (auto simp: index_primitives_def map_res_eq_Inr bind_eq_Inr split: sum.splits)
  then obtain row meta where
    row: "handle_block b (chain_id (in_block inp)) (in_time inp) (in_members inp) (in_sized inp) = Inr (row, meta)"
    "ix_blocks db2 = put_versions (\<lambda>r. show_int (bl_id r)) b [row] (ix_blocks db1)"
    by (auto simp: index_block_row_def map_res_eq_Inr)
  moreover have "bl_id row = b" using row(1) by (auto simp: handle_block_def Let_def bind_eq_Inr)
  ultimately show ?thesis using blocks
    by (auto simp: put_versions_def put_version_eq new_row_def block_at_def find_None_iff)
qed

lemma run_blocks:
  "run_params ie b inp msgs db = Inr db' \<Longrightarrow> ix_blocks db' = ix_blocks db"
  "run_stakes ie b inp msgs evs db = Inr db' \<Longrightarrow> ix_blocks db' = ix_blocks db"
  "run_validators ie b inp msgs evs db = Inr db' \<Longrightarrow> ix_blocks db' = ix_blocks db"
  "run_migration_accounts c b msgs db = Inr db' \<Longrightarrow> ix_blocks db' = ix_blocks db"
  "index_balances c b chain msgs evs db = Some (Inr db') \<Longrightarrow> ix_blocks db' = ix_blocks db"
  by (auto simp: run_params_def run_stakes_def run_validators_def run_migration_accounts_def index_balances_def
      enforce_accounts_def map_res_eq_Inr bind_eq_Inr Let_def split: sum.splits)


text \<open>
  C4: the stake tables along a chain. Start after the first block with tables in order, index any number
  of consecutive blocks without an error, whatever messages and events they hold as long as the
  addresses are plain: every application, service, delegation and gateway still has at most one current
  row, with the id of its key, and no unstaked gateway has a stake.
\<close>

theorem chain_stakes_inv:
  assumes "index_chain ie inps db = Some (Inr db')"
    and "map (height \<circ> in_block) inps = [Suc h ..< Suc h + length inps]"
    and "\<forall>inp \<in> set inps. initial_height (in_genesis inp) \<le> h \<and> plain_block (in_block inp)"
    and "stakes_inv (get_block_id h) (ix_stakes db)"
  shows "stakes_inv (get_block_id (h + length inps)) (ix_stakes db')"
  using assms
proof (induction inps arbitrary: h db)
  case Nil
  then show ?case by simp
next
  case (Cons inp inps)
  obtain db1 where run: "indexing_handler ie inp db = Some (Inr db1)" "index_chain ie inps db1 = Some (Inr db')"
    using Cons.prems(1) by (auto simp: and_then_eq)
  have heights: "height (in_block inp) = Suc h" "map (height \<circ> in_block) inps = [Suc (Suc h) ..< Suc (Suc h) + length inps]"
    using Cons.prems(2) by (auto simp: upt_rec [of "Suc h"] comp_def simp del: upt_Suc)
  have "stakes_inv (get_block_id (Suc h)) (ix_stakes db)"
    using stakes_inv_mono [OF Cons.prems(4)] by (simp add: get_block_id_def)
  then have "stakes_inv (get_block_id (Suc h)) (ix_stakes db1)"
    using indexed_stakes [OF run(1)] heights(1) Cons.prems(3) by fastforce
  then show ?case using Cons.IH [OF run(2) heights(2)] Cons.prems(3) by (simp add: le_SucI)
qed

subsection \<open>Coming to an end\<close>

lemma update_balances_ends: "\<exists>r. update_balances entries b t = Some r"
proof (cases "entries = []")
  case False
  then obtain batches where "chunk_array (map fst entries) 1000 = Inr batches" by (simp add: chunk_array_def)
  then show ?thesis
    using those_Some [of "\<lambda>batch. current b (\<lambda>d. bal_id d \<in> set batch) (run_all (\<lambda>_. None) (undo_block b) t)" batches]
    by (auto simp: update_balances_def fetch_current Let_def)
qed (simp add: update_balances_def)

lemma index_balances_ends: "\<exists>r. index_balances c b chain msgs evs db = Some r"
proof (cases "get_balance_changes (evs CoinReceiveType @ evs CoinSpentType)")
  case (Inr x)
  obtain changes addrs where x: "x = (changes, addrs)" by (cases x)
  obtain r where "update_balances changes b (ix_balances db) = Some r" using update_balances_ends by blast
  then show ?thesis by (simp add: index_balances_def Inr x)
qed (simp add: index_balances_def)

lemma and_then_ends: "\<exists>r. m = Some r \<Longrightarrow> (\<And>x. \<exists>r. f x = Some r) \<Longrightarrow> \<exists>r. and_then m f = Some r"
  by (auto simp: and_then_def split: sum.split)


subsection \<open>Witnesses\<close>

definition codecs_example :: "unit codecs" where
  "codecs_example = \<lparr>cd_update_param = \<lambda>_ _. throw ''decode'', cd_import = \<lambda>_. throw ''decode'', cd_recover = \<lambda>_ _. throw ''decode'',
     cd_module_types = [], cd_stringify_exec = \<lambda>_ _. ''exec'', cd_stringify = \<lambda>_. ''message'', cd_stringify_json = \<lambda>_. ''json'',
     cd_snake_case = \<lambda>s. s\<rparr>"

definition indexer_env_example :: "(bytes, bytes list, unit) indexer_env" where
  "indexer_env_example = \<lparr>ie_crypto = crypto_example, ie_amino = amino_example, ie_codecs = codecs_example,
     ie_genesis = sample_env, ie_host = \<lambda>_. None, ie_collate = \<lambda>_. 0, ie_stop_height = Some ''9'', ie_every_block = False,
     ie_millis = \<lambda>_. 0\<rparr>"

definition coins_example :: "string \<Rightarrow> string \<Rightarrow> string \<Rightarrow> string \<Rightarrow> cosmos_event" where
  "coins_example ty key addr amt = event_example ty [(key, addr), (''amount'', amt)]"

definition block_example :: cosmos_block where
  "block_example = \<lparr>height = 7, chain_id = ''pocket'', block_txs = [], block_messages = [],
     block_events = [unbonded_event_example, coins_example ''coin_spent'' ''spender'' ''pokt1a'' ''3upokt'',
       coins_example ''coin_received'' ''receiver'' ''pokt1m'' ''3upokt'',
       coins_example ''coin_received'' ''receiver'' ''pokt1b'' ''4upokt'']\<rparr>"

definition module_accounts_example :: "extended_account list" where
  "module_accounts_example = [(\<lparr>ba_address = ''pokt1m'', ba_account_number = 1, ba_sequence = 0\<rparr>,
     \<lparr>cma_base = None, cma_name = ''dao'', cma_permissions = []\<rparr>, [\<lparr>amount = ''50'', denom = ''upokt''\<rparr>])]"

definition block_input_example :: block_input where
  "block_input_example = \<lparr>in_block = block_example, in_txs = [], in_create = \<lambda>_. undefined, in_exec = \<lambda>_. undefined,
     in_grant = \<lambda>_. undefined,
     in_members = [(''blockId'', JsObj []), (''header'', JsObj [(''proposerAddress'', JsText ''AB'')]),
       (''block'', JsObj [(''lastCommit'', JsNull)])],
     in_sized = \<lparr>sb_id = ''AB'', sb_header = \<lparr>hd_hashes = [], hd_chain_id = ''pocket'', hd_height = 7, hd_time = [],
         hd_version = (1, 0), hd_last_block = None\<rparr>, sb_txs = [], sb_evidence = None, sb_last_commit = None\<rparr>,
     in_time = [], in_genesis = sample_genesis,
     in_module_accounts = \<lambda>k. if k = 0 then throw ''down'' else Inr module_accounts_example,
     in_genesis_accounts = Inr [],
     in_supply = \<lambda>_. Inr ([\<lparr>amount = ''10'', denom = ''upokt''\<rparr>], None), in_apps = [], in_validators = throw ''down''\<rparr>"

definition index_db_example :: index_db where
  "index_db_example = \<lparr>ix_stakes = gateway_db_example, ix_suppliers = supplier_db_example,
     ix_relays = \<lparr>create_claims = [], submit_proofs = [], claim_expireds = [], claim_settleds = [], claim_updateds = [],
       proof_updateds = [], overserviceds = [], reimbursements = [], validity_checks = [], validator_rewards = [],
       transfers = [], transfer_summaries = []\<rparr>,
     ix_services = \<lparr>services = \<lambda>_. None, msg_add_services = \<lambda>_. None, difficulty_updates = \<lambda>_. None\<rparr>,
     ix_validators = validator_db_example,
     ix_authz = \<lparr>message_rows = \<lambda>_. None, authz_execs = \<lambda>_. None, authz_exec_msgs = \<lambda>_. None, param_rows = \<lambda>_. None,
       msg_imports = \<lambda>_. None, authz_claimables = [], msg_recovers = \<lambda>_. None\<rparr>,
     ix_grants = \<lambda>_. None, ix_morse_claims = \<lambda>_. None,
     ix_balances = map (\<lambda>(a, n). new_row bal_id 3 \<lparr>bal_id = get_balance_id a ''upokt'', bal_account_id = a,
         bal_denom = Some ''upokt'', bal_amount = n, last_updated_block_id = 3\<rparr>) [(''pokt1a'', 10), (''pokt1m'', 40)],
     ix_transfers = \<lambda>_. None, ix_accounts = [], ix_modules = [],
     ix_supply = supply_state_example, ix_transactions = [], ix_blocks = [], ix_metadata = \<lambda>_. None,
     ix_genesis_balances = [], ix_stake_supplier_services = [], ix_events = [], ix_entities = [], 
     ix_reports = \<lparr>staked_suppliers_rows = [], staked_apps_rows = [], relay_rows = [], domain_reward_rows = []\<rparr>\<rparr>"

definition saved_example :: balance where
  "saved_example = \<lparr>bal_id = ''pokt1m-upokt'', bal_account_id = ''pokt1m'', bal_denom = Some ''upokt'', bal_amount = 50,
     last_updated_block_id = 7\<rparr>"

text \<open>The indexing of the example block, step by step.\<close>

lemma enforce_accounts_Inr: "\<exists>as ms. enforce_accounts c b ps db = Inr (db\<lparr>ix_accounts := as, ix_modules := ms\<rparr>)"
proof -
  have "\<exists>r. enforce_accounts_exists (c_sha256 c) b ps = Inr r"
  proof -
    have docs: "mapM_res (\<lambda>a. Inr (account_doc f a)) ps = Inr (map (account_doc f) ps)" for f ps
      by (induction ps) simp_all
    have mods: "\<exists>ms. mapM_res (module_doc f) (filter (\<lambda>a. ap_module a \<noteq> None) ps) = Inr ms" for f ps
      by (induction ps) (auto simp: module_doc_def require_def)
    show ?thesis
      using docs [of "c_sha256 c" ps] mods [of "c_sha256 c" ps]
      by (auto simp: enforce_accounts_exists_def optimized_bulk_create_def)
  qed
  then show ?thesis by (auto simp: enforce_accounts_def split_beta) (intro exI, rule refl)
qed

lemma no_docs [simp]: "handle_by_type types (\<lambda>_. []) with_status handlers st = Inr st"
  by (induction types) (simp_all add: handle_by_type_def)

lemma no_docs_of: "(\<And>t. t \<in> set types \<Longrightarrow> docs t = []) \<Longrightarrow> handle_by_type types docs with_status handlers st = Inr st"
  by (induction types) (simp_all add: handle_by_type_def)

lemma msgs_example: "docs_of (fst (msgs_by_type block_example)) = (\<lambda>_. [])"
  by (simp add: fun_eq_iff msgs_by_type_def by_type_eq block_example_def)

definition events_example :: "string \<Rightarrow> cosmos_event list" where
  "events_example t =
     (if t = ''pocket.gateway.EventGatewayUnbondingEnd'' then [unbonded_event_example]
      else if t = ''coin_spent'' then [coins_example ''coin_spent'' ''spender'' ''pokt1a'' ''3upokt'']
      else if t = ''coin_received'' then [coins_example ''coin_received'' ''receiver'' ''pokt1b'' ''4upokt''] else [])"

lemma events_example: "docs_of (fst (events_by_type {''pokt1m''} block_example)) = events_example"
proof -
  have "filter (is_valid_event {''pokt1m''}) (block_events block_example) =
      [unbonded_event_example, coins_example ''coin_spent'' ''spender'' ''pokt1a'' ''3upokt'',
       coins_example ''coin_received'' ''receiver'' ''pokt1b'' ''4upokt'']"
    by code_simp
  moreover have "ev_type (event unbonded_event_example) = ''pocket.gateway.EventGatewayUnbondingEnd''" by code_simp
  moreover have "ev_type (event (coins_example ty k a n)) = ty" for ty k a n
    by (simp add: coins_example_def event_example_def)
  ultimately show ?thesis
    by (auto simp: fun_eq_iff events_by_type_def by_type_eq events_example_def event_handler_types_def CoinReceiveType_def
        CoinSpentType_def)
qed

lemma module_accounts_step:
  "\<exists>as ms. index_module_accounts crypto_example 7 block_input_example index_db_example =
     Inr ([''pokt1m''], index_db_example\<lparr>ix_balances := put_versions bal_id 7 [saved_example] (ix_balances index_db_example),
       ix_accounts := as, ix_modules := ms\<rparr>)"
proof -
  let ?t = "live_map (ix_balances index_db_example)"
  have answer: "retry_on_fail (in_module_accounts block_input_example) 150 0 = Inr module_accounts_example" by code_simp
  have "case handle_module_accounts 7 ''pocket'' (in_module_accounts block_input_example) ?t of
      Inr (m, t', _) \<Rightarrow> m = [''pokt1m''] \<and> saved_balances ?t t' module_accounts_example = [saved_example] | Inl _ \<Rightarrow> False"
    by code_simp
  then obtain t' ps where run: "handle_module_accounts 7 ''pocket'' (in_module_accounts block_input_example) ?t = Inr ([''pokt1m''], t', ps)"
    "saved_balances ?t t' module_accounts_example = [saved_example]"
    by (auto split: sum.splits)
  have blk: "in_block block_input_example = block_example" "height block_example = 7" "chain_id block_example = ''pocket''"
    by (simp_all add: block_input_example_def block_example_def)
  show ?thesis
    using enforce_accounts_Inr [of crypto_example 7 ps "index_db_example\<lparr>ix_balances :=
      put_versions bal_id 7 (saved_balances ?t t' module_accounts_example) (ix_balances index_db_example)\<rparr>"]
    by (auto simp: index_module_accounts_def blk answer run Let_def) (intro exI, rule refl)
qed

lemma primitives_step:
  assumes "ix_supply db = supply_state_example"
  shows "\<exists>bs ms s. index_primitives indexer_env_example 7 block_input_example db =
    Some (Inr (db\<lparr>ix_blocks := bs, ix_metadata := ms, ix_supply := s\<rparr>))"
proof -
  have blk: "in_block block_input_example = block_example" "height block_example = 7"
    by (simp_all add: block_input_example_def block_example_def)
  have "height block_example \<noteq> initial_height (in_genesis block_input_example)" by code_simp
  then have genesis: "index_genesis indexer_env_example 7 block_input_example db = Inr db"
    by (simp add: index_genesis_def handle_genesis_def blk)
  have "case handle_block 7 (chain_id block_example) (in_time block_input_example) (in_members block_input_example)
      (in_sized block_input_example) of Inr _ \<Rightarrow> True | Inl _ \<Rightarrow> False" by code_simp
  then obtain row meta where row: "handle_block 7 (chain_id block_example) (in_time block_input_example)
      (in_members block_input_example) (in_sized block_input_example) = Inr (row, meta)"
    by (auto split: sum.splits)
  have "case handle_supply 7 (in_supply block_input_example) supply_state_example of Some (Inr _) \<Rightarrow> True | _ \<Rightarrow> False" by code_simp
  then obtain s where "handle_supply 7 (in_supply block_input_example) supply_state_example = Some (Inr s)"
    by (auto split: option.splits sum.splits)
  with row assms show ?thesis
    by (auto simp: index_primitives_def genesis index_block_row_def blk)
qed

lemma quiet_types: "t \<notin> {''pocket.gateway.EventGatewayUnbondingEnd'', ''coin_spent'', ''coin_received''} \<Longrightarrow> events_example t = []"
  by (simp add: events_example_def)

lemma stakes_step:
  assumes "ix_stakes db = gateway_db_example" and "ix_suppliers db = supplier_db_example"
  shows "\<exists>gw sdb. run_stakes indexer_env_example 7 block_input_example (\<lambda>_. []) events_example db =
    Inr (db\<lparr>ix_stakes := gw, ix_suppliers := sdb\<rparr>)"
proof -
  have "case index_stake crypto_example (\<lambda>_. None) False 7 [] (\<lambda>_. []) events_example
      (gateway_db_example, supplier_db_example) of Inr _ \<Rightarrow> True | Inl _ \<Rightarrow> False" by code_simp
  then obtain gw sdb where "index_stake crypto_example (\<lambda>_. None) False 7 [] (\<lambda>_. []) events_example
      (gateway_db_example, supplier_db_example) = Inr (gw, sdb)" by (auto split: sum.splits)
  then show ?thesis by (auto simp: run_stakes_def indexer_env_example_def block_input_example_def assms)
qed

lemma relays_step: "\<exists>r. index_relays 7 params (\<lambda>_. []) events_example st = Inr r"
proof -
  have none: "handle_by_type relay_event_types events_example ws hs st = Inr st" for ws hs and st :: relay_db
    by (rule no_docs_of) (auto simp: relay_event_types_def quiet_types)
  show ?thesis
    by (simp add: index_relays_def handle_msgs_def handle_evs_def none quiet_types handle_event_claim_settled_def settle_claims_def)
qed

lemma balances_step:
  assumes "ix_balances db = put_versions bal_id 7 [saved_example] (ix_balances index_db_example)"
  shows "\<exists>t as ms. index_balances crypto_example 7 chain (\<lambda>_. []) events_example db =
    Some (Inr (db\<lparr>ix_balances := t, ix_accounts := as, ix_modules := ms\<rparr>))"
proof -
  have changes: "get_balance_changes (events_example CoinReceiveType @ events_example CoinSpentType) =
      Inr ([(''pokt1b-upokt'', 4), (''pokt1a-upokt'', - 3)], [''pokt1b'', ''pokt1a''])" by code_simp
  have settled: "settled 7 (ix_balances index_db_example)" by code_simp
  have "\<forall>e \<in> set [saved_example]. last_updated_block_id e = 7" by (simp add: saved_example_def)
  from update_balances_undone [OF settled this, of "[(''pokt1b-upokt'', 4), (''pokt1a-upokt'', - 3)]"]
  obtain t where "update_balances [(''pokt1b-upokt'', 4), (''pokt1a-upokt'', - 3)] 7 (ix_balances db) = Some (Inr t)"
    using update_balances_run [OF settled, of "[(''pokt1b-upokt'', 4), (''pokt1a-upokt'', - 3)]"] assms by auto
  then show ?thesis
    using enforce_accounts_Inr [of crypto_example 7 "map (plain_account chain) [''pokt1b'', ''pokt1a'']" "db\<lparr>ix_balances := t\<rparr>"]
    by (auto simp: index_balances_def changes handle_msgs_def)
qed

lemma rest_step:
  "index_grants 7 evs grant (\<lambda>_. []) events_example g = Inr g"
  "index_service 7 (\<lambda>_. []) events_example sv = Inr sv"
  "index_validators indexer_env_example 7 block_input_example (\<lambda>_. []) events_example v = Inr v"
  "index_migration_accounts c 7 (\<lambda>_. []) (claims, t) = Inr (claims, t)"
proof -
  have none: "handle_by_type [''rewards'', ''commission''] events_example ws hs st = Inr st" for ws hs and st :: validator_db
    by (rule no_docs_of) (auto simp: quiet_types)
  show "index_validators indexer_env_example 7 block_input_example (\<lambda>_. []) events_example v = Inr v"
    by (simp add: index_validators_def handle_msgs_def handle_evs_def none reconcile_validators_def block_input_example_def throw_def)
qed (simp_all add: index_grants_def index_service_def index_migration_accounts_def handle_msgs_def handle_evs_def handle_by_type_def
    quiet_types)

lemma same_claimables: "gw\<lparr>gw_apps := (gw_apps gw)\<lparr>morse_claimables := morse_claimables (gw_apps gw)\<rparr>\<rparr> = gw"
  by (cases gw; cases "gw_apps gw") simp

lemma indexing_example: "\<exists>db'. indexing_handler indexer_env_example block_input_example index_db_example = Some (Inr db')"
proof -
  have blk: "in_block block_input_example = block_example" "get_block_id (height block_example) = 7"
    "in_txs block_input_example = []" "ie_crypto indexer_env_example = crypto_example"
    by (simp_all add: block_input_example_def block_example_def indexer_env_example_def get_block_id_def)
  have events_docs: "docs_of (fst (events_by_type (set [''pokt1m'']) block_example)) = events_example"
    using events_example by simp
  have stop: "evaluate_block_height_stop (ie_stop_height indexer_env_example) (height block_example) = Inr ()" by code_simp
  obtain as ms where first: "index_module_accounts crypto_example 7 block_input_example index_db_example =
      Inr ([''pokt1m''], index_db_example\<lparr>ix_balances := put_versions bal_id 7 [saved_example] (ix_balances index_db_example),
        ix_accounts := as, ix_modules := ms\<rparr>)"
    using module_accounts_step by blast
  let ?bals = "put_versions bal_id 7 [saved_example] (ix_balances index_db_example)"
  let ?db1 = "index_db_example\<lparr>ix_balances := ?bals, ix_accounts := as, ix_modules := ms\<rparr>"
  have "ix_supply ?db1 = supply_state_example" by (simp add: index_db_example_def)
  then obtain bs mt s where prim: "index_primitives indexer_env_example 7 block_input_example ?db1 =
      Some (Inr (?db1\<lparr>ix_blocks := bs, ix_metadata := mt, ix_supply := s\<rparr>))"
    using primitives_step by blast
  let ?db2 = "?db1\<lparr>ix_blocks := bs, ix_metadata := mt, ix_supply := s\<rparr>"
  have txs: "handle_transactions crypto_example am 7 ms [] t = Inr t" for am :: "(bytes, bytes list) amino" and ms t
    by (simp add: handle_transactions_def)
  obtain db3 where params: "run_params indexer_env_example 7 block_input_example (\<lambda>_. []) ?db2 = Inr db3"
    and db3: "ix_stakes db3 = gateway_db_example" "ix_suppliers db3 = supplier_db_example" "ix_balances db3 = ?bals"
    by (simp add: run_params_def index_params_def handle_msgs_def Let_def same_claimables) (simp add: index_db_example_def)
  obtain gw sdb where stakes: "run_stakes indexer_env_example 7 block_input_example (\<lambda>_. []) events_example db3 =
      Inr (db3\<lparr>ix_stakes := gw, ix_suppliers := sdb\<rparr>)" using stakes_step db3 by blast
  let ?db4 = "db3\<lparr>ix_stakes := gw, ix_suppliers := sdb\<rparr>"
  obtain r where relays: "index_relays 7 (param_rows (ix_authz ?db4)) (\<lambda>_. []) events_example (ix_relays ?db4) = Inr r"
    using relays_step by blast
  have "ix_balances (?db4\<lparr>ix_relays := r\<rparr>) = ?bals" using db3(3) by simp
  then obtain t as' ms' where bal: "index_balances crypto_example 7 (chain_id block_example) (\<lambda>_. []) events_example (?db4\<lparr>ix_relays := r\<rparr>) =
      Some (Inr (?db4\<lparr>ix_relays := r, ix_balances := t, ix_accounts := as', ix_modules := ms'\<rparr>))"
    using balances_step by blast
  have entities: "\<exists>db'. index_entities indexer_env_example 7 block_input_example (\<lambda>_. []) events_example db3 = Some (Inr db')"
    using stakes relays bal
    by (simp add: index_entities_def and_then_def blk rest_step run_validators_def run_migration_accounts_def Let_def)
  show ?thesis
    using entities
    by (auto simp: indexing_handler_def blk stop first prim and_then_def txs msgs_example events_example events_docs params Let_def)
qed

theorem indexed_balances_witness:
  "\<exists>db'. indexing_handler indexer_env_example block_input_example index_db_example = Some (Inr db') \<and>
     live_amount (ix_balances db') ''pokt1m-upokt'' = 40 \<and> live_amount (ix_balances db') ''pokt1a-upokt'' = 7 \<and>
     live_amount (ix_balances db') ''pokt1b-upokt'' = 4"
proof -
  obtain db' where run: "indexing_handler indexer_env_example block_input_example index_db_example = Some (Inr db')"
    using indexing_example by blast
  let ?val = "\<lambda>c. int (parse_nat (amount c))"
  let ?cs = "[(''pokt1b'', ''pokt1b-upokt'', 4), (''pokt1a'', ''pokt1a-upokt'', - 3)]"
  have hyps: "height block_example \<noteq> initial_height (in_genesis block_input_example)"
    "settled (get_block_id (height block_example)) (ix_balances index_db_example)"
    "retry_on_fail (in_module_accounts block_input_example) 150 0 = Inr module_accounts_example"
    "list_all (account_ok ?val) module_accounts_example" "distinct (map (ba_address \<circ> fst) module_accounts_example)"
    "\<forall>x \<in> set module_accounts_example. prefix PREFIX (ba_address (fst x))"
    "mapM_res event_change (balance_events (ba_address ` (fst ` set module_accounts_example)) block_example) = Inr ?cs"
    "\<forall>(a, _, _) \<in> set ?cs. CHR ''-'' \<notin> set a"
    by code_simp+
  have blk: "block_example = in_block block_input_example" by (simp add: block_input_example_def)
  from indexed_balances [OF run blk hyps] have after:
    "\<forall>i. live_amount (ix_balances db') i = live_amount (ix_balances index_db_example) i + change_total i ?cs"
    "\<forall>i \<in> \<Union> (account_ids ` set module_accounts_example). live_amount (ix_balances db') i = live_amount (ix_balances index_db_example) i"
    by blast+
  have "live_amount (ix_balances index_db_example) ''pokt1a-upokt'' = 10" "live_amount (ix_balances index_db_example) ''pokt1b-upokt'' = 0"
    "live_amount (ix_balances index_db_example) ''pokt1m-upokt'' = 40"
    by code_simp+
  with after run show ?thesis by simp
qed

lemma stakes_example: "stakes_inv 6 (ix_stakes index_db_example)"
proof -
  have "hist_ok gw_id 6 (gateways gateway_db_example)" "hist_ok app_id 6 (applications app_db_example)"
    "hist_ok as_id 6 (app_services app_db_example)" "hist_ok ag_id 6 (app_gateways app_db_example)"
    "services_ok (app_services app_db_example)" "gateways_ok (app_gateways app_db_example)" by code_simp+
  then show ?thesis
    by (auto simp: stakes_inv_def gateway_ok_def app_ok_def index_db_example_def gateway_db_example_def
        get_gateway_def live_map_def new_row_def gateway_example_def split: if_splits)
qed

theorem chain_stakes_inv_witness:
  "\<exists>db'. index_chain indexer_env_example [block_input_example] index_db_example = Some (Inr db') \<and>
     stakes_inv 7 (ix_stakes db')"
proof -
  obtain db' where run: "index_chain indexer_env_example [block_input_example] index_db_example = Some (Inr db')"
    using indexing_example by (auto simp: and_then_def)
  have "initial_height (in_genesis block_input_example) \<le> 6" "plain_block (in_block block_input_example)"
    "map (height \<circ> in_block) [block_input_example] = [Suc 6 ..< Suc 6 + length [block_input_example]]" by code_simp+
  then show ?thesis
    using chain_stakes_inv [OF run, of 6] run stakes_example by (simp add: get_block_id_def)
qed



end
